(* ===== verification/Prelude.thy ===== *)
theory Prelude
  imports Main "HOL-Library.Word"
begin

text \<open>
  Shared vocabulary of the development: bytes and strings as Go has them, the error
  values of the repository with \<open>errors.Is\<close>, and the pieces of the Go standard
  library that several components use (hexadecimal digits, \<open>strconv.ParseUint\<close>,
  \<open>fmt.Sprintf("%04x")\<close>, \<open>copy\<close>, the \<open>strings\<close> functions).

  A Go \<open>string\<close> is a sequence of bytes: it is a \<^typ>\<open>string\<close> here (an Isabelle
  \<^typ>\<open>char\<close> is one byte). A Go \<open>[]byte\<close> is a list of \<open>8 word\<close>.
\<close>

section \<open>Collections of rules\<close>

named_theorems codec_simps \<open>evaluation and inversion of digits, encoders and decoders\<close>
named_theorems sim_eval \<open>definitions that evaluate the programs on the simulated services\<close>
named_theorems frame_simps \<open>what an operation leaves unchanged\<close>

section \<open>Bytes and strings\<close>

type_synonym u8 = "8 word"
type_synonym bytes = "u8 list"
type_synonym uuid = "128 word"
  \<comment> \<open>\<open>[16]byte\<close>; \<open>uuid.Nil\<close> is \<open>0\<close>\<close>

definition byte_of_char :: "char \<Rightarrow> u8" where
  "byte_of_char c = of_char c"

definition char_of_byte :: "u8 \<Rightarrow> char" where
  "char_of_byte b = char_of (unat b)"

abbreviation bytes_of_string :: "string \<Rightarrow> bytes" where
  "bytes_of_string \<equiv> map byte_of_char"

abbreviation string_of_bytes :: "bytes \<Rightarrow> string" where
  "string_of_bytes \<equiv> map char_of_byte"

lemma unat_of_char_u8: "unat (of_char c :: u8) = of_char c"
proof -
  have "(of_char c :: u8) = of_nat (of_char c)"
    by (simp add: of_nat_of_char)
  then show ?thesis by (simp add: unat_of_nat take_bit_eq_mod)
qed

lemma char_of_byte_of_char [simp, codec_simps]: "char_of_byte (byte_of_char c) = c"
  by (simp add: char_of_byte_def byte_of_char_def unat_of_char_u8)

lemma byte_of_char_of_byte [simp, codec_simps]: "byte_of_char (char_of_byte b) = b"
proof -
  have "unat b < 256" using unsigned_less [of b, where ?'a = nat] by simp
  then have "unat (of_char (char_of (unat b) :: char) :: u8) = unat b"
    by (simp add: unat_of_char_u8 of_char_mod_256)
  then show ?thesis by (simp add: char_of_byte_def byte_of_char_def word_unat_eq_iff)
qed

lemma char_comp_byte [simp]: "char_of_byte \<circ> byte_of_char = id" "byte_of_char \<circ> char_of_byte = id"
  by (simp_all add: fun_eq_iff)

lemma byte_of_char_inj [simp]: "byte_of_char c = byte_of_char d \<longleftrightarrow> c = d"
  by (metis char_of_byte_of_char)

text \<open>Go's \<open>copy(dst, src)\<close>: as many bytes as both have.\<close>

definition go_copy :: "'a list \<Rightarrow> 'a list \<Rightarrow> 'a list" where
  "go_copy dst src = take (length dst) src @ drop (length src) dst"

lemma length_go_copy [simp]: "length (go_copy dst src) = length dst"
  by (simp add: go_copy_def)

lemma go_copy_same [simp]: "length dst = length src \<Longrightarrow> go_copy dst src = src"
  by (simp add: go_copy_def)

section \<open>Hexadecimal digits\<close>

text \<open>The digits \<open>encoding/hex\<close> and \<open>fmt\<close> print.\<close>

definition hex_digit :: "nat \<Rightarrow> char" where
  "hex_digit n = (if n < 10 then char_of (48 + n) else char_of (87 + n))"

text \<open>
  The digit value \<open>strconv.ParseUint\<close> and the table of \<open>encoding/hex\<close> give a byte:
  decimal digits and letters of either case. Letters beyond \<open>f\<close> are digits for larger
  bases, so the value is not bounded by 16 here.
\<close>

definition digit_val :: "char \<Rightarrow> nat option" where
  "digit_val c =
     (let n = of_char c in
      if 48 \<le> n \<and> n \<le> 57 then Some (n - 48)
      else if 97 \<le> n \<and> n \<le> 122 then Some (n - 87)
      else if 65 \<le> n \<and> n \<le> 90 then Some (n - 55)
      else None)"

definition hex_val :: "char \<Rightarrow> nat option" where
  "hex_val c = (case digit_val c of None \<Rightarrow> None | Some d \<Rightarrow> if d < 16 then Some d else None)"

lemma digit_val_hex_digit [simp, codec_simps]: "n < 16 \<Longrightarrow> digit_val (hex_digit n) = Some n"
  by (auto simp: digit_val_def hex_digit_def of_char_mod_256 Let_def)

lemma hex_val_hex_digit [simp, codec_simps]: "n < 16 \<Longrightarrow> hex_val (hex_digit n) = Some n"
  by (simp add: hex_val_def)

lemma hex_val_less: "hex_val c = Some d \<Longrightarrow> d < 16"
  by (auto simp: hex_val_def split: option.splits if_splits)

text \<open>\<open>"%x"\<close> and \<open>"%04x"\<close> of a non-negative number.\<close>

fun to_hex :: "nat \<Rightarrow> string" where
  "to_hex n = (if n < 16 then [hex_digit n] else to_hex (n div 16) @ [hex_digit (n mod 16)])"

declare to_hex.simps [simp del]

definition sprintf_04x :: "nat \<Rightarrow> string" where
  "sprintf_04x n = (let s = to_hex n in replicate (4 - length s) (CHR ''0'') @ s)"

lemma hex_digit_0: "hex_digit 0 = CHR ''0''"
  by (simp add: hex_digit_def char_of_eq_iff)

lemma sprintf_04x_digits:
  assumes "n < 65536"
  shows "sprintf_04x n = map hex_digit [n div 4096, n div 256 mod 16, n div 16 mod 16, n mod 16]"
proof -
  have *: "n div 16 div 16 = n div 256" "n div 256 div 16 = n div 4096"
    by (simp_all add: div_mult2_eq [symmetric])
  consider "n < 16" | "16 \<le> n" "n < 256" | "256 \<le> n" "n < 4096" | "4096 \<le> n" by linarith
  then show ?thesis
  proof cases
    case 1
    then have "to_hex n = [hex_digit n]" by (simp add: to_hex.simps [of n])
    with 1 show ?thesis by (simp add: sprintf_04x_def hex_digit_0 numeral_3_eq_3)
  next
    case 2
    then have "n div 16 < 16" by simp
    with 2 have "to_hex n = map hex_digit [n div 16, n mod 16]"
      by (simp add: to_hex.simps [of n] to_hex.simps [of "n div 16"])
    with 2 show ?thesis by (simp add: sprintf_04x_def hex_digit_0 numeral_2_eq_2)
  next
    case 3
    then have "\<not> n div 16 < 16" "n div 256 < 16" by linarith+
    with 3 have "to_hex n = map hex_digit [n div 256, n div 16 mod 16, n mod 16]"
      by (simp add: to_hex.simps [of n] to_hex.simps [of "n div 16"] to_hex.simps [of "n div 256"] *)
    with 3 show ?thesis by (simp add: sprintf_04x_def hex_digit_0)
  next
    case 4
    then have "\<not> n div 16 < 16" "\<not> n div 256 < 16" "n div 4096 < 16"
      using assms by linarith+
    with 4 have "to_hex n = map hex_digit [n div 4096, n div 256 mod 16, n div 16 mod 16, n mod 16]"
      by (simp add: to_hex.simps [of n] to_hex.simps [of "n div 16"] to_hex.simps [of "n div 256"]
          to_hex.simps [of "n div 4096"] *)
    then show ?thesis by (simp add: sprintf_04x_def)
  qed
qed

lemma length_sprintf_04x: "n < 65536 \<Longrightarrow> length (sprintf_04x n) = 4"
  by (simp add: sprintf_04x_digits)

section \<open>\<open>strconv.ParseUint\<close> with an explicit base\<close>

text \<open>
  \<open>None\<close> is any error (\<open>ErrSyntax\<close> or \<open>ErrRange\<close>; no caller tells them apart). With an
  explicit base neither a sign nor an underscore nor a prefix is accepted.
\<close>

fun parse_uint_loop :: "nat \<Rightarrow> nat \<Rightarrow> nat \<Rightarrow> string \<Rightarrow> nat option" where
  "parse_uint_loop base maxv acc [] = Some acc"
| "parse_uint_loop base maxv acc (c # cs) =
     (case digit_val c of
        None \<Rightarrow> None
      | Some d \<Rightarrow>
          if base \<le> d then None
          else if maxv < acc * base + d then None
          else parse_uint_loop base maxv (acc * base + d) cs)"

definition parse_uint :: "string \<Rightarrow> nat \<Rightarrow> nat \<Rightarrow> nat option" where
  "parse_uint s base bits = (if s = [] then None else parse_uint_loop base (2 ^ bits - 1) 0 s)"

lemma parse_uint_loop_bound:
  "parse_uint_loop base maxv acc s = Some n \<Longrightarrow> acc \<le> maxv \<Longrightarrow> n \<le> maxv"
  by (induction s arbitrary: acc) (auto split: option.splits if_splits)

lemma parse_uint_bound:
  assumes "parse_uint s base bits = Some n"
  shows "n < 2 ^ bits"
proof -
  have "n \<le> 2 ^ bits - 1"
    using assms parse_uint_loop_bound [of base "2 ^ bits - 1" 0 s n]
    by (auto simp: parse_uint_def split: if_splits)
  moreover have "(0::nat) < 2 ^ bits" by simp
  ultimately show ?thesis by linarith
qed

lemma parse_sprintf_04x [codec_simps]:
  assumes "n < 65536"
  shows "parse_uint (sprintf_04x n) 16 16 = Some n"
proof -
  have a: "n div 4096 * 16 + n div 256 mod 16 = n div 256"
    and b: "n div 256 * 16 + n div 16 mod 16 = n div 16"
    and c: "n div 16 * 16 + n mod 16 = n"
    using div_mult_mod_eq [of "n div 256" 16] div_mult_mod_eq [of "n div 16" 16]
    by (simp_all add: div_mult2_eq [symmetric])
  have "n div 4096 < 16" using assms by simp
  moreover have "n div 256 \<le> 65535" "n div 16 \<le> 65535" "n div 4096 \<le> 65535"
    using assms div_le_dividend [of n 256] div_le_dividend [of n 16] div_le_dividend [of n 4096]
    by linarith+
  moreover have "\<not> 16 \<le> n mod 16" "\<not> 16 \<le> n div 16 mod 16" "\<not> 16 \<le> n div 256 mod 16"
    by (simp_all add: not_le)
  ultimately show ?thesis
    using assms by (simp add: parse_uint_def sprintf_04x_digits a b c)
qed

lemma filter_first: "filter p xs = x # ys \<Longrightarrow> x \<in> set xs \<and> p x"
  by (auto simp: filter_eq_Cons_iff)

end
