(* ===== verification/Pktline.thy ===== *)
theory Pktline
  imports Prelude
begin

text \<open>
  \<^verbatim>\<open>pkg/pktline/pktline.go\<close>: Git pkt-line framing.

  \<open>Encode\<close> and \<open>Decode\<close> are pure functions on byte lists; \<open>EncodeLine\<close> and \<open>EncodeFlush\<close>
  write to an \<open>io.Writer\<close>, an operation on a state of its own that may fail. The stream
  iterator is a record with the unread bytes and the fixed buffer of the Go struct; a
  packet it returns is a slice of that buffer, so it holds two indices and not the bytes.
  A slice expression out of the buffer's range is Go's run-time panic: it is a result of
  its own.
\<close>

section \<open>Packets\<close>

definition MaxPktLen :: nat where
  "MaxPktLen = 65520"

datatype packet_type = Data | Flush | Delimiter | ResponseEnd

record packet =
  ptype :: packet_type
  payload :: bytes
  consumed :: nat

datatype pkt_error =
    ErrPacketTooLarge
  | ErrIncomplete
  | ErrInvalidLength
  | ErrInvalidCharacter
  | ErrEmptyPacket
  | IO_EOF
  | IO_UnexpectedEOF
  | IO_Other

section \<open>Encoding\<close>

definition encode :: "bytes \<Rightarrow> pkt_error + bytes" where
  "encode data =
     (if length data = 0 then Inl ErrEmptyPacket
      else let total = length data + 4 in
        if MaxPktLen < total then Inl ErrPacketTooLarge
        else let out = replicate total 0;
                 hd4 = go_copy (take 4 out) (bytes_of_string (sprintf_04x total));
                 tl4 = go_copy (drop 4 out) data
             in Inr (hd4 @ tl4))"

text \<open>An \<open>io.Writer\<close>: writing bytes may fail, and then a part of them may have been written.\<close>

type_synonym 'w writer = "bytes \<Rightarrow> 'w \<Rightarrow> pkt_error option \<times> 'w"

definition encode_line :: "'w writer \<Rightarrow> bytes \<Rightarrow> 'w \<Rightarrow> pkt_error option \<times> 'w" where
  "encode_line wr data w =
     (let total = length data + 4 in
      if MaxPktLen < total then (Some ErrPacketTooLarge, w)
      else if total = 0 then (Some ErrEmptyPacket, w)
      else let prefix = sprintf_04x total in
        case wr (bytes_of_string prefix) w of
          (Some e, w1) \<Rightarrow> (Some e, w1)
        | (None, w1) \<Rightarrow> wr data w1)"


section \<open>Decoding one packet\<close>

definition decode :: "bytes \<Rightarrow> pkt_error + packet" where
  "decode data =
     (if length data < 4 then Inl ErrIncomplete
      else case parse_uint (string_of_bytes (take 4 data)) 16 16 of
        None \<Rightarrow> Inl ErrInvalidCharacter
      | Some rawLen \<Rightarrow>
          if rawLen = 0 then Inr \<lparr>ptype = Flush, payload = [], consumed = 4\<rparr>
          else if rawLen = 1 then Inr \<lparr>ptype = Delimiter, payload = [], consumed = 4\<rparr>
          else if rawLen = 2 then Inr \<lparr>ptype = ResponseEnd, payload = [], consumed = 4\<rparr>
          else if rawLen = 3 then Inl ErrInvalidLength
          else if rawLen = 4 then Inl ErrEmptyPacket
          else if length data < rawLen then Inl ErrIncomplete
          else Inr \<lparr>ptype = Data, payload = drop 4 (take rawLen data), consumed = rawLen\<rparr>)"

section \<open>The stream iterator\<close>

text \<open>
  The \<open>io.Reader\<close> is the bytes it will still deliver and the error it gives after
  them (\<open>IO_EOF\<close> for a reader that ends cleanly). \<open>io.ReadFull\<close> of \<open>n\<close> bytes fails
  with that error when nothing was read, and turns \<open>io.EOF\<close> into
  \<open>io.ErrUnexpectedEOF\<close> when something was; the bytes it did read are gone from the
  reader and are in the buffer.
\<close>

record reader =
  pending :: bytes
  final_err :: pkt_error

definition read_full :: "reader \<Rightarrow> nat \<Rightarrow> bytes \<times> pkt_error option \<times> reader" where
  "read_full r n =
     (let got = take n (pending r); r' = r\<lparr>pending := drop n (pending r)\<rparr> in
      if n \<le> length (pending r) then (got, None, r')
      else if got = [] then (got, Some (final_err r), r')
      else if final_err r = IO_EOF then (got, Some IO_UnexpectedEOF, r')
      else (got, Some (final_err r), r'))"

record pkt_line_stream =
  src :: reader
  buf :: bytes

definition new_packet_iterator :: "reader \<Rightarrow> pkt_line_stream" where
  "new_packet_iterator r = \<lparr>src = r, buf = replicate MaxPktLen 0\<rparr>"

text \<open>Writing \<open>got\<close> at offset \<open>lo\<close> of the buffer.\<close>

definition store_at :: "nat \<Rightarrow> bytes \<Rightarrow> bytes \<Rightarrow> bytes" where
  "store_at lo got b = take lo b @ got @ drop (lo + length got) b"

record stream_packet =
  sp_type :: packet_type
  sp_lo :: nat
  sp_hi :: nat
  sp_consumed :: nat

text \<open>The bytes a returned packet's \<open>Payload\<close> shows when the stream's buffer is as in \<open>it\<close>.\<close>

definition view :: "pkt_line_stream \<Rightarrow> stream_packet \<Rightarrow> bytes" where
  "view it p = drop (sp_lo p) (take (sp_hi p) (buf it))"

datatype next_result =
    End
  | Got stream_packet
  | Failed pkt_error
  | Panicked

text \<open>
  \<open>Next\<close> from its \<open>switch\<close> on: \<open>k\<close> is \<open>rawPktLen\<close>, the number of prefix bytes
  read, and \<open>n\<close> is the parsed length.
\<close>

definition next_switch :: "pkt_line_stream \<Rightarrow> nat \<Rightarrow> nat \<Rightarrow> next_result \<times> pkt_line_stream" where
  "next_switch it k n =
     (if n = 0 then (Got \<lparr>sp_type = Flush, sp_lo = 0, sp_hi = 0, sp_consumed = 4\<rparr>, it)
      else if n = 1 then (Got \<lparr>sp_type = Delimiter, sp_lo = 0, sp_hi = 0, sp_consumed = 4\<rparr>, it)
      else if n = 2 then (Got \<lparr>sp_type = ResponseEnd, sp_lo = 0, sp_hi = 0, sp_consumed = 4\<rparr>, it)
      else if n = 3 then (Failed ErrInvalidLength, it)
      else if n = 4 then (Failed ErrEmptyPacket, it)
      else if length (buf it) < n then (Panicked, it)
      else let (got, err, r) = read_full (src it) (n - 4);
               it' = it\<lparr>src := r, buf := store_at 4 got (buf it)\<rparr>
           in case err of
                Some e \<Rightarrow> (Failed e, it')
              | None \<Rightarrow> (Got \<lparr>sp_type = Data, sp_lo = 4, sp_hi = n, sp_consumed = k\<rparr>, it'))"

definition next_packet :: "pkt_line_stream \<Rightarrow> next_result \<times> pkt_line_stream" where
  "next_packet it =
     (let (got, err, r1) = read_full (src it) 4;
          it1 = it\<lparr>src := r1, buf := store_at 0 got (buf it)\<rparr>
      in if err = Some IO_EOF \<and> length got = 0 then (End, it1)
         else case err of
           Some e \<Rightarrow> (Failed e, it1)
         | None \<Rightarrow>
           (case parse_uint (string_of_bytes (take 4 (buf it1))) 16 16 of
              None \<Rightarrow> (Failed ErrInvalidLength, it1)
            | Some n \<Rightarrow> next_switch it1 (length got) n))"





section \<open>Correctness of the one-packet codec\<close>

lemma encode_cases:
  "encode data =
     (if data = [] then Inl ErrEmptyPacket
      else if 65516 < length data then Inl ErrPacketTooLarge
      else Inr (bytes_of_string (sprintf_04x (length data + 4)) @ data))"
  by (auto simp: encode_def MaxPktLen_def Let_def length_sprintf_04x)

lemma parse_prefix [codec_simps]:
  "n < 65536 \<Longrightarrow>
   parse_uint (string_of_bytes (take 4 (bytes_of_string (sprintf_04x n) @ rest))) 16 16 = Some n"
  by (simp add: length_sprintf_04x parse_sprintf_04x)

lemma decode_of_encode:
  assumes "encode data = Inr wire"
  shows "decode (wire @ rest) = Inr \<lparr>ptype = Data, payload = data, consumed = length wire\<rparr>"
proof -
  let ?n = "length data + 4"
  from assms have w: "wire = bytes_of_string (sprintf_04x ?n) @ data"
    and n: "5 \<le> ?n" "?n < 65536"
    by (auto simp: encode_cases Suc_le_eq split: if_splits)
  have "parse_uint (string_of_bytes (take 4 (wire @ rest))) 16 16 = Some ?n"
    using n parse_prefix [of ?n "data @ rest"] by (simp add: w)
  with n show ?thesis
    by (auto simp: decode_def w length_sprintf_04x)
qed

text \<open>
  C38: \<open>Encode\<close> refuses exactly the empty payload and the payloads that do not fit a packet of
  \<open>MaxPktLen\<close> bytes; otherwise \<open>Decode\<close> of its output, whatever follows it, gives the payload
  back and consumes exactly that output.
\<close>

theorem pktline_roundtrip:
  "case encode data of
     Inl e \<Rightarrow> (data = [] \<and> e = ErrEmptyPacket) \<or> (MaxPktLen < length data + 4 \<and> e = ErrPacketTooLarge)
   | Inr wire \<Rightarrow> length wire = length data + 4 \<and> length wire \<le> MaxPktLen \<and>
       decode (wire @ rest) = Inr \<lparr>ptype = Data, payload = data, consumed = length wire\<rparr>"
proof (cases "encode data")
  case (Inl e)
  then show ?thesis by (auto simp: encode_cases MaxPktLen_def split: if_splits)
next
  case (Inr wire)
  then have "length wire = length data + 4" "length wire \<le> MaxPktLen"
    by (auto simp: encode_cases MaxPktLen_def length_sprintf_04x split: if_splits)
  with Inr decode_of_encode [OF Inr, of rest] show ?thesis by simp
qed

lemma decode_sound:
  assumes "decode data = Inr p"
  shows "4 \<le> consumed p" "consumed p \<le> length data"
    "payload p = (if ptype p = Data then drop 4 (take (consumed p) data) else [])"
    "ptype p = Data \<longleftrightarrow> 4 < consumed p"
  using assms by (auto simp: decode_def split: if_splits option.splits)


definition mem_write :: "bytes writer" where
  "mem_write bs w = (None, w @ bs)"


section \<open>The stream iterator\<close>

definition stream_ok :: "pkt_line_stream \<Rightarrow> bool" where
  "stream_ok it \<longleftrightarrow> length (buf it) = MaxPktLen"

lemma length_store_at: "lo + length got \<le> length b \<Longrightarrow> length (store_at lo got b) = length b"
  by (simp add: store_at_def)

lemma read_full_ok:
  "n \<le> length (pending r) \<Longrightarrow>
   read_full r n = (take n (pending r), None, r\<lparr>pending := drop n (pending r)\<rparr>)"
  by (simp add: read_full_def Let_def)

lemma length_read_full: "read_full r n = (got, e, r') \<Longrightarrow> length got \<le> n"
  by (auto simp: read_full_def Let_def split: if_splits)

lemma stream_ok_new: "stream_ok (new_packet_iterator r)"
  by (simp add: stream_ok_def new_packet_iterator_def)

lemma stream_ok_next:
  assumes ok: "stream_ok it" and nx: "next_packet it = (res, it')"
  shows "stream_ok it'"
proof -
  obtain got err r1 where rf: "read_full (src it) 4 = (got, err, r1)" by (metis prod_cases3)
  let ?b1 = "store_at 0 got (buf it)"
  have l1: "length ?b1 = MaxPktLen"
    using ok length_read_full [OF rf] by (simp add: length_store_at stream_ok_def MaxPktLen_def)
  have l2: "length (store_at 4 got2 ?b1) = MaxPktLen"
    if "read_full r1 (n - 4) = (got2, e2, r2)" "n \<le> MaxPktLen" "4 < n" for n got2 e2 r2
    using length_read_full [OF that(1)] that(2,3) l1 by (simp add: length_store_at)
  show ?thesis
    using nx l1 l2 unfolding next_packet_def next_switch_def rf Let_def stream_ok_def
    by (auto simp: MaxPktLen_def split: if_splits option.splits prod.splits)
qed


definition prefix_len :: "bytes \<Rightarrow> nat option" where
  "prefix_len d = (if length d < 4 then None else parse_uint (string_of_bytes (take 4 d)) 16 16)"

lemma prefix_len_bound: "prefix_len d = Some n \<Longrightarrow> n < 65536"
  using parse_uint_bound [of _ 16 16] by (auto simp: prefix_len_def split: if_splits)

lemma decode_prefix:
  "decode d =
     (case prefix_len d of
        None \<Rightarrow> Inl (if length d < 4 then ErrIncomplete else ErrInvalidCharacter)
      | Some n \<Rightarrow>
          if n = 0 then Inr \<lparr>ptype = Flush, payload = [], consumed = 4\<rparr>
          else if n = 1 then Inr \<lparr>ptype = Delimiter, payload = [], consumed = 4\<rparr>
          else if n = 2 then Inr \<lparr>ptype = ResponseEnd, payload = [], consumed = 4\<rparr>
          else if n = 3 then Inl ErrInvalidLength
          else if n = 4 then Inl ErrEmptyPacket
          else if length d < n then Inl ErrIncomplete
          else Inr \<lparr>ptype = Data, payload = drop 4 (take n d), consumed = n\<rparr>)"
  by (simp add: decode_def prefix_len_def)

lemma next_short:
  "length (pending (src it)) < 4 \<Longrightarrow> next_packet it = (r, it') \<Longrightarrow>
   r = (if pending (src it) = [] then (if final_err (src it) = IO_EOF then End else Failed (final_err (src it)))
        else Failed (if final_err (src it) = IO_EOF then IO_UnexpectedEOF else final_err (src it)))"
  by (auto simp: next_packet_def read_full_def Let_def split: if_splits)

text \<open>What \<open>Next\<close> does once the four prefix bytes are there.\<close>

definition after_prefix :: "pkt_line_stream \<Rightarrow> pkt_line_stream" where
  "after_prefix it =
     it\<lparr>src := (src it)\<lparr>pending := drop 4 (pending (src it))\<rparr>,
        buf := take 4 (pending (src it)) @ drop 4 (buf it)\<rparr>"

lemma next_long:
  assumes l: "4 \<le> length (pending (src it))"
  shows "next_packet it =
     (case prefix_len (pending (src it)) of
        None \<Rightarrow> (Failed ErrInvalidLength, after_prefix it)
      | Some n \<Rightarrow> next_switch (after_prefix it) 4 n)"
proof -
  have st: "store_at 0 (take 4 (pending (src it))) (buf it) = take 4 (pending (src it)) @ drop 4 (buf it)"
    using l by (simp add: store_at_def)
  have l4: "min (length (pending (src it))) 4 = 4" using l by simp
  show ?thesis
    using l unfolding next_packet_def read_full_ok [OF l] Let_def after_prefix_def
    by (simp add: st l4 prefix_len_def split: option.split)
qed

lemma stream_ok_after_prefix:
  "stream_ok it \<Longrightarrow> 4 \<le> length (pending (src it)) \<Longrightarrow> stream_ok (after_prefix it)"
  by (simp add: stream_ok_def after_prefix_def MaxPktLen_def)

lemma pending_after_prefix [simp]:
  "pending (src (after_prefix it)) = drop 4 (pending (src it))"
  "final_err (src (after_prefix it)) = final_err (src it)"
  by (simp_all add: after_prefix_def)

text \<open>The body of a data packet: what lands in the buffer is the payload.\<close>

lemma next_switch_data:
  assumes ok: "stream_ok it" and n: "5 \<le> n" "n \<le> MaxPktLen"
    and l: "n - 4 \<le> length (pending (src it))"
  obtains it' where
    "next_switch it k n = (Got \<lparr>sp_type = Data, sp_lo = 4, sp_hi = n, sp_consumed = k\<rparr>, it')"
    "pending (src it') = drop (n - 4) (pending (src it))"
    "final_err (src it') = final_err (src it)"
    "view it' \<lparr>sp_type = Data, sp_lo = 4, sp_hi = n, sp_consumed = k\<rparr> = take (n - 4) (pending (src it))"
proof -
  let ?d = "pending (src it)"
  let ?it' = "it\<lparr>src := (src it)\<lparr>pending := drop (n - 4) ?d\<rparr>,
                 buf := store_at 4 (take (n - 4) ?d) (buf it)\<rparr>"
  have b: "length (buf it) = MaxPktLen" using ok by (simp add: stream_ok_def)
  have "drop 4 (take n (store_at 4 (take (n - 4) ?d) (buf it))) = take (n - 4) ?d"
    using n l b by (simp add: store_at_def MaxPktLen_def drop_take)
  moreover have "next_switch it k n =
      (Got \<lparr>sp_type = Data, sp_lo = 4, sp_hi = n, sp_consumed = k\<rparr>, ?it')"
    using n b by (simp add: next_switch_def read_full_ok [OF l])
  ultimately show thesis by (intro that [of ?it']) (simp_all add: view_def)
qed


lemma next_of_decode:
  assumes ok: "stream_ok it" and d: "decode (pending (src it)) = Inr p" and m: "consumed p \<le> MaxPktLen"
  obtains sp it' where "next_packet it = (Got sp, it')" "sp_type sp = ptype p" "sp_consumed sp = 4"
    "view it' sp = payload p" "pending (src it') = drop (consumed p) (pending (src it))"
    "final_err (src it') = final_err (src it)"
proof -
  let ?d = "pending (src it)"
  obtain n where n: "prefix_len ?d = Some n"
    using d by (auto simp: decode_prefix split: option.splits)
  then have l: "4 \<le> length ?d" by (auto simp: prefix_len_def split: if_splits)
  note nx = next_long [OF l, unfolded n option.case]
  show thesis
  proof (cases "n \<le> 4")
    case True
    with d n nx have "\<exists>sp. next_packet it = (Got sp, after_prefix it) \<and> sp_type sp = ptype p \<and>
        sp_consumed sp = 4 \<and> view (after_prefix it) sp = payload p \<and> consumed p = 4"
      by (auto simp: decode_prefix next_switch_def view_def split: if_splits)
    then show thesis by (elim exE conjE) (rule that [of _ "after_prefix it"], simp_all)
  next
    case False
    then have p: "p = \<lparr>ptype = Data, payload = drop 4 (take n ?d), consumed = n\<rparr>" and ln: "n \<le> length ?d"
      using d n by (auto simp: decode_prefix split: if_splits)
    have "n - 4 \<le> length (pending (src (after_prefix it)))" using ln by simp
    with next_switch_data [OF stream_ok_after_prefix [OF ok l], of n 4] False m
    obtain it' where "next_switch (after_prefix it) 4 n =
          (Got \<lparr>sp_type = Data, sp_lo = 4, sp_hi = n, sp_consumed = 4\<rparr>, it')"
        "pending (src it') = drop (n - 4) (drop 4 ?d)" "final_err (src it') = final_err (src it)"
        "view it' \<lparr>sp_type = Data, sp_lo = 4, sp_hi = n, sp_consumed = 4\<rparr> = take (n - 4) (drop 4 ?d)"
      by (auto simp: p)
    with False show thesis
      by (intro that [of _ it']) (simp_all add: nx p drop_take)
  qed
qed

lemma decode_of_next:
  assumes ok: "stream_ok it" and nx: "next_packet it = (Got sp, it')"
  shows "\<exists>p. decode (pending (src it)) = Inr p \<and> consumed p \<le> MaxPktLen"
proof -
  let ?d = "pending (src it)"
  have l: "4 \<le> length ?d" using next_short [OF _ nx] by (auto simp: not_less [symmetric] split: if_splits)
  note nl = next_long [OF l] nx
  obtain n where n: "prefix_len ?d = Some n" using nl by (cases "prefix_len ?d") simp_all
  show ?thesis
  proof (cases "n \<le> 4")
    case True
    with nl n show ?thesis
      by (auto simp: decode_prefix next_switch_def MaxPktLen_def split: if_splits)
  next
    case False
    have b: "length (buf (after_prefix it)) = MaxPktLen"
      using stream_ok_after_prefix [OF ok l] by (simp add: stream_ok_def)
    have "n \<le> length ?d \<and> n \<le> MaxPktLen"
      using nl n False b
      by (auto simp: next_switch_def read_full_def Let_def split: if_splits option.splits)
    with False n show ?thesis by (simp add: decode_prefix)
  qed
qed

lemma next_gotE:
  assumes ok: "stream_ok it" and nx: "next_packet it = (Got sp, it')"
  obtains p where "decode (pending (src it)) = Inr p" "consumed p \<le> MaxPktLen"
    "sp_type sp = ptype p" "view it' sp = payload p"
    "pending (src it') = drop (consumed p) (pending (src it))" "sp_consumed sp = 4"
proof -
  obtain p where p: "decode (pending (src it)) = Inr p" "consumed p \<le> MaxPktLen"
    using decode_of_next [OF ok nx] by blast
  from next_of_decode [OF ok p] obtain sp2 it2 where "next_packet it = (Got sp2, it2)"
    "sp_type sp2 = ptype p" "sp_consumed sp2 = 4" "view it2 sp2 = payload p"
    "pending (src it2) = drop (consumed p) (pending (src it))" by blast
  with nx p show thesis by (intro that) simp_all
qed


lemma decode_sample:
  "decode (bytes_of_string ''0005'' @ b # rest) = Inr \<lparr>ptype = Data, payload = [b], consumed = 5\<rparr>"
proof -
  have "parse_uint ''0005'' 16 16 = Some 5" by (simp add: parse_uint_def digit_val_def)
  then show ?thesis by (simp add: decode_def)
qed

lemma next_sample:
  assumes "stream_ok it" "pending (src it) = bytes_of_string ''0005'' @ b # rest"
  shows "\<exists>sp it'. next_packet it = (Got sp, it') \<and> sp_type sp = Data \<and> view it' sp = [b] \<and>
     pending (src it') = rest"
proof -
  let ?p = "\<lparr>ptype = Data, payload = [b], consumed = 5\<rparr>"
  have "decode (pending (src it)) = Inr ?p" "consumed ?p \<le> MaxPktLen"
    using decode_sample [of b rest] by (simp_all add: assms(2) MaxPktLen_def)
  from next_of_decode [OF assms(1) this] obtain sp it' where "next_packet it = (Got sp, it')"
    "sp_type sp = Data" "view it' sp = [b]" "pending (src it') = drop 5 (pending (src it))"
    by (metis packet.select_convs)
  then show ?thesis using assms(2) by simp
qed


text \<open>
  \<open>Next\<close> panics (a slice beyond its buffer) exactly on a length prefix greater than
  \<open>MaxPktLen\<close>, \<open>fff1\<close> to \<open>ffff\<close>.
\<close>

theorem next_panics_iff:
  assumes "stream_ok it"
  shows "fst (next_packet it) = Panicked \<longleftrightarrow>
     (\<exists>n. prefix_len (pending (src it)) = Some n \<and> MaxPktLen < n)"
proof (cases "length (pending (src it)) < 4")
  case True
  then have "fst (next_packet it) \<noteq> Panicked"
    using next_short [OF True] by (metis next_result.distinct prod.collapse)
  with True show ?thesis by (simp add: prefix_len_def)
next
  case False
  then have l: "4 \<le> length (pending (src it))" by simp
  have "length (buf (after_prefix it)) = MaxPktLen"
    using stream_ok_after_prefix [OF assms l] by (simp add: stream_ok_def)
  then show ?thesis
    by (auto simp: next_long [OF l] next_switch_def Let_def MaxPktLen_def split: option.splits prod.splits)
qed

theorem next_panics_iff_witness:
  "fst (next_packet (new_packet_iterator \<lparr>pending = bytes_of_string ''fff1'', final_err = IO_EOF\<rparr>)) = Panicked"
proof -
  have "prefix_len (bytes_of_string ''fff1'') = Some 65521"
    by (simp add: prefix_len_def parse_uint_def digit_val_def)
  then show ?thesis
    using next_panics_iff [OF stream_ok_new, of "\<lparr>pending = bytes_of_string ''fff1'', final_err = IO_EOF\<rparr>"]
    by (simp add: new_packet_iterator_def MaxPktLen_def)
qed

section \<open>A stream of packets\<close>


definition frame :: "bytes option \<Rightarrow> bytes" where
  "frame x = (case x of None \<Rightarrow> bytes_of_string ''0000''
     | Some d \<Rightarrow> bytes_of_string (sprintf_04x (length d + 4)) @ d)"

lemma frame_simps [simp]:
  "frame None = bytes_of_string ''0000''"
  "frame (Some d) = bytes_of_string (sprintf_04x (length d + 4)) @ d"
  by (simp_all only: frame_def option.case)







section \<open>The returned payload is a view of the shared buffer\<close>

lemma next_buf:
  assumes ok: "stream_ok it" and nx: "next_packet it = (Got sp, it')"
    and d: "decode (pending (src it)) = Inr p"
  shows "buf it' = store_at 4 (payload p) (store_at 0 (take 4 (pending (src it))) (buf it))
    \<and> (if ptype p = Data then sp_lo sp = 4 \<and> sp_hi sp = length (payload p) + 4
       else sp_lo sp = 0 \<and> sp_hi sp = 0)"
proof -
  let ?d = "pending (src it)"
  have l: "4 \<le> length ?d" using next_short [OF _ nx] by (auto simp: not_less [symmetric] split: if_splits)
  have st: "store_at 0 (take 4 ?d) (buf it) = buf (after_prefix it)"
    using l by (simp add: store_at_def after_prefix_def)
  have b: "length (buf (after_prefix it)) = MaxPktLen"
    using stream_ok_after_prefix [OF ok l] by (simp add: stream_ok_def)
  obtain n where n: "prefix_len ?d = Some n"
    using d by (auto simp: decode_prefix split: option.splits)
  have m: "consumed p \<le> MaxPktLen" using decode_of_next [OF ok nx] d by simp
  note nl = nx [unfolded next_long [OF l] n option.case]
  show ?thesis
  proof (cases "n \<le> 4")
    case True
    then have "store_at 4 [] (buf (after_prefix it)) = buf (after_prefix it)"
      by (simp add: store_at_def)
    with True nl d n show ?thesis
      unfolding st by (auto simp: decode_prefix next_switch_def split: if_splits)
  next
    case False
    then have p: "p = \<lparr>ptype = Data, payload = drop 4 (take n ?d), consumed = n\<rparr>" and ln: "n \<le> length ?d"
      using d n by (auto simp: decode_prefix split: if_splits)
    have le: "n - 4 \<le> length (pending (src (after_prefix it)))" using ln by simp
    have nM: "\<not> MaxPktLen < n" using m by (simp add: p)
    have "it' = after_prefix it\<lparr>src := (src (after_prefix it))\<lparr>pending := drop (n - 4) (drop 4 ?d)\<rparr>,
              buf := store_at 4 (take (n - 4) (drop 4 ?d)) (buf (after_prefix it))\<rparr>
        \<and> sp = \<lparr>sp_type = Data, sp_lo = 4, sp_hi = n, sp_consumed = 4\<rparr>"
      using nl False nM b by (simp add: next_switch_def read_full_ok [OF le])
    with ln False show ?thesis unfolding st by (simp add: p drop_take)
  qed
qed

text \<open>
  The payload of a packet is a view of the iterator's buffer: after the next packet is read it
  shows the next payload written over its beginning.
\<close>

theorem next_overwrites_payload:
  assumes ok: "stream_ok it"
    and n1: "next_packet it = (Got p1, it1)" and t1: "sp_type p1 = Data"
    and n2: "next_packet it1 = (Got p2, it2)"
  shows "view it2 p1 = go_copy (view it1 p1) (view it2 p2)"
proof -
  have ok1: "stream_ok it1" using stream_ok_next [OF ok n1] .
  obtain d1 where d1: "decode (pending (src it)) = Inr d1" "sp_type p1 = ptype d1"
      and v1: "view it1 p1 = payload d1"
    using next_gotE [OF ok n1] by metis
  obtain d2 where d2: "decode (pending (src it1)) = Inr d2" and v2: "view it2 p2 = payload d2"
    using next_gotE [OF ok1 n2] by metis
  have hi: "sp_lo p1 = 4" "sp_hi p1 = length (payload d1) + 4"
    using next_buf [OF ok n1 d1(1)] d1(2) t1 by auto
  have b1: "length (buf it1) = MaxPktLen" using ok1 by (simp add: stream_ok_def)
  have b2: "buf it2 = store_at 4 (payload d2) (store_at 0 (take 4 (pending (src it1))) (buf it1))"
    using next_buf [OF ok1 n2 d2] by (rule conjunct1)
  have l: "length (take 4 (pending (src it1))) = 4" using decode_sound(1,2) [OF d2] by simp
  let ?n = "length (payload d1)" and ?m = "length (payload d2)"
  have dr: "drop 4 (buf it2) = payload d2 @ drop (?m + 4) (buf it1)"
    unfolding b2 using l b1 by (simp add: store_at_def MaxPktLen_def)
  have "view it2 p1 = take ?n (drop 4 (buf it2))"
    by (simp add: view_def hi drop_take)
  also have "\<dots> = take ?n (payload d2) @ take (?n - ?m) (drop (?m + 4) (buf it1))"
    by (simp add: dr)
  also have "\<dots> = take ?n (payload d2) @ drop ?m (view it1 p1)"
    by (simp add: view_def hi drop_take add.commute)
  also have "\<dots> = go_copy (view it1 p1) (payload d2)"
    using v1 by (simp add: go_copy_def)
  finally show ?thesis by (simp add: v2)
qed

theorem next_overwrites_payload_witness:
  "\<exists>it1 it2 p1 p2. next_packet it1 = (Got p2, it2) \<and> view it1 p1 = [1] \<and> view it2 p1 = [2]"
proof -
  let ?it = "new_packet_iterator \<lparr>pending = bytes_of_string ''0005'' @ 1 # bytes_of_string ''0005'' @ [2], final_err = IO_EOF\<rparr>"
  have "pending (src ?it) = bytes_of_string ''0005'' @ 1 # bytes_of_string ''0005'' @ [2]"
    by (simp add: new_packet_iterator_def)
  from next_sample [OF stream_ok_new this] obtain p1 it1 where n1: "next_packet ?it = (Got p1, it1)"
    "sp_type p1 = Data" "view it1 p1 = [1]" "pending (src it1) = bytes_of_string ''0005'' @ [2]" by blast
  from next_sample [OF stream_ok_next [OF stream_ok_new n1(1)] n1(4)] obtain p2 it2 where
    n2: "next_packet it1 = (Got p2, it2)" "view it2 p2 = [2]" by blast
  from next_overwrites_payload [OF stream_ok_new n1(1,2) n2(1)] n1(3) n2 show ?thesis
    by (auto simp: go_copy_def)
qed

text \<open>
  The guard of \<open>EncodeLine\<close> against an empty payload never fires: it writes the prefix
  \<open>0004\<close>, which \<open>Decode\<close> refuses.
\<close>

theorem encode_line_empty_rejected:
  "encode_line mem_write [] w = (None, w @ bytes_of_string ''0004'')
     \<and> decode (bytes_of_string ''0004'' @ rest) = Inl ErrEmptyPacket"
proof -
  have s: "sprintf_04x 4 = ''0004''"
    by (simp add: sprintf_04x_digits hex_digit_def char_of_eq_iff)
  have "prefix_len (bytes_of_string (sprintf_04x 4) @ rest) = Some 4"
    using parse_prefix [of 4 rest] by (simp add: prefix_len_def length_sprintf_04x)
  then have "decode (bytes_of_string ''0004'' @ rest) = Inl ErrEmptyPacket"
    unfolding s by (simp add: decode_prefix)
  with s show ?thesis by (simp add: encode_line_def mem_write_def MaxPktLen_def)
qed

end
