(* ===== verification/Encodings.thy ===== *)
theory Encodings
  imports Prelude
begin

text \<open>
  The Go standard library's \<open>encoding/hex\<close> and \<open>encoding/base64\<close>, as far as
  \<^verbatim>\<open>pkg/multibase\<close>, \<^verbatim>\<open>pkg/crypto\<close> and the token generator of
  \<^verbatim>\<open>internal/modules/session\<close> use them. No caller looks at the kind of a decoding
  error, so a failed decoding is \<open>None\<close>.

  \<open>base64\<close> decoding follows \<open>decodeQuantum\<close>: carriage returns and newlines are skipped
  at every position, four characters at a time are converted, the last group may be
  short (raw encodings) or padded, and the bits of the last character beyond the last
  byte are not checked (the encodings used are not strict).
\<close>

section \<open>Hexadecimal\<close>

definition hex_byte :: "nat \<Rightarrow> nat \<Rightarrow> u8" where
  "hex_byte a b = of_nat (16 * a + b)"

fun hex_encode :: "bytes \<Rightarrow> string" where
  "hex_encode [] = []"
| "hex_encode (b # bs) = hex_digit (unat b div 16) # hex_digit (unat b mod 16) # hex_encode bs"

fun hex_decode :: "string \<Rightarrow> bytes option" where
  "hex_decode [] = Some []"
| "hex_decode [c] = None"
| "hex_decode (p # q # rest) =
     (case (hex_val p, hex_val q) of
        (Some a, Some b) \<Rightarrow> map_option (\<lambda>bs. hex_byte a b # bs) (hex_decode rest)
      | _ \<Rightarrow> None)"

lemma unat_less_256 [simp]: "unat (b :: u8) < 256"
  using unsigned_less [of b, where ?'a = nat] by simp

lemma hex_decode_encode [simp, codec_simps]: "hex_decode (hex_encode bs) = Some bs"
proof (induction bs)
  case (Cons b bs)
  have "unat b div 16 < 16" using unat_less_256 [of b] by (simp add: less_mult_imp_div_less)
  moreover have "hex_byte (unat b div 16) (unat b mod 16) = b"
    by (simp add: hex_byte_def)
  ultimately show ?case using Cons.IH by simp
qed simp

lemma length_hex_encode [simp]: "length (hex_encode bs) = 2 * length bs"
  by (induction bs) simp_all

lemma length_hex_decode: "hex_decode s = Some bs \<Longrightarrow> length s = 2 * length bs"
  by (induction s arbitrary: bs rule: hex_decode.induct) (auto split: option.splits)

lemma hex_decode_iff:
  "(\<exists>bs. hex_decode s = Some bs) \<longleftrightarrow> even (length s) \<and> (\<forall>c \<in> set s. hex_val c \<noteq> None)"
  by (induction s rule: hex_decode.induct) (auto split: option.splits)

lemma hex_encode_inj: "hex_encode a = hex_encode b \<Longrightarrow> a = b"
  by (metis hex_decode_encode option.inject)

section \<open>Base64\<close>

record b64 =
  alphabet :: string
  padded :: bool

definition std_alphabet :: string where
  "std_alphabet = ''ABCDEFGHIJKLMNOPQRSTUVWXYZabcdefghijklmnopqrstuvwxyz0123456789+/''"

definition url_alphabet :: string where
  "url_alphabet = ''ABCDEFGHIJKLMNOPQRSTUVWXYZabcdefghijklmnopqrstuvwxyz0123456789-_''"

definition StdEncoding :: b64 where
  "StdEncoding = \<lparr>alphabet = std_alphabet, padded = True\<rparr>"

definition RawStdEncoding :: b64 where
  "RawStdEncoding = \<lparr>alphabet = std_alphabet, padded = False\<rparr>"

definition RawURLEncoding :: b64 where
  "RawURLEncoding = \<lparr>alphabet = url_alphabet, padded = False\<rparr>"

text \<open>The first index of a character, as a decoding table gives it.\<close>

fun find_idx :: "string \<Rightarrow> char \<Rightarrow> nat option" where
  "find_idx [] c = None"
| "find_idx (x # xs) c = (if x = c then Some 0 else map_option Suc (find_idx xs c))"

lemma find_idx_nth: "distinct xs \<Longrightarrow> i < length xs \<Longrightarrow> find_idx xs (xs ! i) = Some i"
  by (induction xs arbitrary: i) (auto simp: less_Suc_eq_0_disj nth_Cons')

lemma find_idx_Some: "find_idx xs c = Some i \<Longrightarrow> i < length xs \<and> xs ! i = c"
  by (induction xs arbitrary: i) (auto split: if_splits)

lemma find_idx_None: "find_idx xs c = None \<longleftrightarrow> c \<notin> set xs"
  by (induction xs) auto

definition b64_val :: "b64 \<Rightarrow> char \<Rightarrow> nat option" where
  "b64_val e c = find_idx (alphabet e) c"

definition b64_char :: "b64 \<Rightarrow> nat \<Rightarrow> char" where
  "b64_char e i = alphabet e ! i"

abbreviation pad_char :: char where
  "pad_char \<equiv> CHR ''=''"

text \<open>The bytes of four six-bit values; \<open>n\<close> of them are kept.\<close>

definition b64_bytes :: "nat \<Rightarrow> nat \<Rightarrow> nat \<Rightarrow> nat \<Rightarrow> nat \<Rightarrow> bytes" where
  "b64_bytes n a b c d =
     (let v = a * 262144 + b * 4096 + c * 64 + d in
      take n [of_nat (v div 65536), of_nat (v div 256), of_nat v])"

fun b64_quanta :: "b64 \<Rightarrow> string \<Rightarrow> bytes option" where
  "b64_quanta e [] = Some []"
| "b64_quanta e [p] = None"
| "b64_quanta e [p, q] =
     (if padded e then None
      else case (b64_val e p, b64_val e q) of
        (Some a, Some b) \<Rightarrow> Some (b64_bytes 1 a b 0 0)
      | _ \<Rightarrow> None)"
| "b64_quanta e [p, q, r] =
     (if padded e then None
      else case (b64_val e p, b64_val e q, b64_val e r) of
        (Some a, Some b, Some c) \<Rightarrow> Some (b64_bytes 2 a b c 0)
      | _ \<Rightarrow> None)"
| "b64_quanta e (p # q # r # s # rest) =
     (case (b64_val e p, b64_val e q) of
        (Some a, Some b) \<Rightarrow>
          (case b64_val e r of
             Some c \<Rightarrow>
               (case b64_val e s of
                  Some d \<Rightarrow> map_option (\<lambda>bs. b64_bytes 3 a b c d @ bs) (b64_quanta e rest)
                | None \<Rightarrow>
                    if padded e \<and> s = pad_char \<and> rest = [] then Some (b64_bytes 2 a b c 0)
                    else None)
           | None \<Rightarrow>
               if padded e \<and> r = pad_char \<and> s = pad_char \<and> rest = []
               then Some (b64_bytes 1 a b 0 0) else None)
      | _ \<Rightarrow> None)"

definition is_newline :: "char \<Rightarrow> bool" where
  "is_newline c \<longleftrightarrow> of_char c = (10 :: nat) \<or> of_char c = (13 :: nat)"

definition b64_decode :: "b64 \<Rightarrow> string \<Rightarrow> bytes option" where
  "b64_decode e s = b64_quanta e (filter (\<lambda>c. \<not> is_newline c) s)"

fun b64_encode :: "b64 \<Rightarrow> bytes \<Rightarrow> string" where
  "b64_encode e [] = []"
| "b64_encode e [x] =
     (let v = unat x * 65536 in
      map (b64_char e) [v div 262144, v div 4096 mod 64] @ (if padded e then ''=='' else []))"
| "b64_encode e [x, y] =
     (let v = unat x * 65536 + unat y * 256 in
      map (b64_char e) [v div 262144, v div 4096 mod 64, v div 64 mod 64]
        @ (if padded e then ''='' else []))"
| "b64_encode e (x # y # z # rest) =
     (let v = unat x * 65536 + unat y * 256 + unat z in
      map (b64_char e) [v div 262144, v div 4096 mod 64, v div 64 mod 64, v mod 64]
        @ b64_encode e rest)"

definition b64_ok :: "b64 \<Rightarrow> bool" where
  "b64_ok e \<longleftrightarrow> distinct (alphabet e) \<and> length (alphabet e) = 64 \<and>
     pad_char \<notin> set (alphabet e) \<and> list_all (\<lambda>c. \<not> is_newline c) (alphabet e)"

lemma b64_ok_encodings [simp]:
  "b64_ok StdEncoding" "b64_ok RawStdEncoding" "b64_ok RawURLEncoding"
  by (simp_all add: b64_ok_def StdEncoding_def RawStdEncoding_def RawURLEncoding_def
      std_alphabet_def url_alphabet_def is_newline_def)

lemma b64_val_char [simp]: "b64_ok e \<Longrightarrow> i < 64 \<Longrightarrow> b64_val e (b64_char e i) = Some i"
  by (simp add: b64_ok_def b64_val_def b64_char_def find_idx_nth)

lemma b64_val_pad [simp]: "b64_ok e \<Longrightarrow> b64_val e pad_char = None"
  by (simp add: b64_ok_def b64_val_def find_idx_None)

lemma b64_char_not_newline: "b64_ok e \<Longrightarrow> i < 64 \<Longrightarrow> \<not> is_newline (b64_char e i)"
  by (simp add: b64_ok_def b64_char_def list_all_length)

lemma b64_regroup:
  fixes v :: nat
  assumes "v < 16777216"
  shows "v div 262144 * 262144 + v div 4096 mod 64 * 4096 + v div 64 mod 64 * 64 + v mod 64 = v"
proof -
  have "v div 64 div 64 = v div 4096" "v div 4096 div 64 = v div 262144"
    by (simp_all add: div_mult2_eq [symmetric])
  then show ?thesis
    using div_mult_mod_eq [of "v div 4096" 64] div_mult_mod_eq [of "v div 64" 64] div_mult_mod_eq [of v 64]
    by linarith
qed


lemma b64_bytes_value:
  fixes x y z :: u8
  defines "v \<equiv> unat x * 65536 + unat y * 256 + unat z"
  shows "v < 16777216" "[of_nat (v div 65536), of_nat (v div 256), of_nat v] = [x, y, z]"
proof -
  have z: "(256 :: u8) = 0" "(65536 :: u8) = 0" by simp_all
  have zero: "x * 256 = 0" "y * 256 = 0" "x * 65536 = 0"
    by (simp_all only: z mult_zero_right)
  have b: "unat x < 256" "unat y < 256" "unat z < 256" by simp_all
  then show "v < 16777216" unfolding v_def by linarith
  have "v div 65536 = unat x" "v div 256 = unat x * 256 + unat y"
    using b unfolding v_def by linarith+
  moreover have "(of_nat (unat x * 256 + unat y) :: u8) = y"
    using zero by (simp add: mult.commute)
  moreover have "(of_nat v :: u8) = z"
    using zero by (simp add: v_def mult.commute)
  ultimately show "[of_nat (v div 65536), of_nat (v div 256), of_nat v] = [x, y, z]" by simp
qed

lemma b64_bytes_regroup:
  assumes "v < 16777216"
  shows "b64_bytes n (v div 262144) (v div 4096 mod 64) (v div 64 mod 64) (v mod 64)
       = take n [of_nat (v div 65536), of_nat (v div 256), of_nat v]"
  by (simp add: b64_bytes_def b64_regroup [OF assms])

text \<open>One, two and three bytes at the end or the front of the input, for the value \<open>v\<close> of their group.\<close>

lemma b64_group3:
  assumes "b64_ok e" "v < 16777216"
  shows "b64_quanta e (map (b64_char e) [v div 262144, v div 4096 mod 64, v div 64 mod 64, v mod 64] @ rest)
       = map_option (\<lambda>bs. [of_nat (v div 65536), of_nat (v div 256), of_nat v] @ bs) (b64_quanta e rest)"
  using assms b64_bytes_regroup [of v 3]
  by (cases "b64_quanta e rest") (simp_all add: less_mult_imp_div_less)

lemma b64_group2:
  assumes "b64_ok e" "v < 16777216" "v mod 64 = 0"
  shows "b64_quanta e (map (b64_char e) [v div 262144, v div 4096 mod 64, v div 64 mod 64]
            @ (if padded e then [pad_char] else []))
       = Some [of_nat (v div 65536), of_nat (v div 256)]"
  using assms b64_bytes_regroup [of v 2] by (simp add: less_mult_imp_div_less)

lemma b64_group1:
  assumes "b64_ok e" "v < 16777216" "v div 64 mod 64 = 0" "v mod 64 = 0"
  shows "b64_quanta e (map (b64_char e) [v div 262144, v div 4096 mod 64]
            @ (if padded e then [pad_char, pad_char] else []))
       = Some [of_nat (v div 65536)]"
  using assms b64_bytes_regroup [of v 1] by (simp add: less_mult_imp_div_less)

lemma b64_group_newline:
  "b64_ok e \<Longrightarrow> list_all (\<lambda>i. i < 64) is \<Longrightarrow>
   filter (\<lambda>c. \<not> is_newline c) (map (b64_char e) is @ rest)
     = map (b64_char e) is @ filter (\<lambda>c. \<not> is_newline c) rest"
  by (induction "is") (simp_all add: b64_char_not_newline)

lemma pad_not_newline [simp]: "\<not> is_newline pad_char"
  by (simp add: is_newline_def)

lemma b64_quanta_encode: "b64_ok e \<Longrightarrow> b64_quanta e (b64_encode e bs) = Some bs"
proof (induction e bs rule: b64_encode.induct)
  case (2 e x)
  have v: "unat x * 65536 < 16777216" using b64_bytes_value(1) [of x 0 0] by simp
  have "unat x * 65536 div 64 = unat x * 1024" by linarith
  moreover have "64 dvd unat x * 1024" "64 dvd unat x * 65536" by (simp_all add: dvd_mult)
  ultimately have m: "unat x * 65536 div 64 mod 64 = 0" "unat x * 65536 mod 64 = 0" by simp_all
  have x: "(of_nat (unat x * 65536 div 65536) :: u8) = x" by simp
  show ?case using b64_group1 [OF 2 v m] unfolding b64_encode.simps Let_def x .
next
  case (3 e x y)
  have v: "unat x * 65536 + unat y * 256 < 16777216" using b64_bytes_value(1) [of x y 0] by simp
  have "64 dvd unat x * 65536 + unat y * 256" by (simp add: dvd_mult)
  then have m: "(unat x * 65536 + unat y * 256) mod 64 = 0" by (rule dvd_imp_mod_0)
  have x: "(of_nat ((unat x * 65536 + unat y * 256) div 65536) :: u8) = x"
    and y: "(of_nat ((unat x * 65536 + unat y * 256) div 256) :: u8) = y"
    using b64_bytes_value(2) [of x y 0] by (simp_all only: list.inject unsigned_0 add_0_right)
  show ?case using b64_group2 [OF 3 v m] unfolding b64_encode.simps Let_def x y .
next
  case (4 e x y z rest)
  show ?case
    unfolding b64_encode.simps Let_def b64_group3 [OF 4(2) b64_bytes_value(1)] 4(1) [OF refl 4(2)]
      b64_bytes_value(2)
    by simp
qed simp

lemma b64_encode_no_newline:
  "b64_ok e \<Longrightarrow> filter (\<lambda>c. \<not> is_newline c) (b64_encode e bs) = b64_encode e bs"
proof (induction e bs rule: b64_encode.induct)
  case (2 e x)
  have "unat x * 65536 div 262144 < 64" using unat_less_256 [of x] by linarith
  then show ?case unfolding b64_encode.simps Let_def using 2 by (subst b64_group_newline) simp_all
next
  case (3 e x y)
  have "(unat x * 65536 + unat y * 256) div 262144 < 64"
    using unat_less_256 [of x] unat_less_256 [of y] by linarith
  then show ?case unfolding b64_encode.simps Let_def using 3 by (subst b64_group_newline) simp_all
next
  case (4 e x y z rest)
  have "(unat x * 65536 + unat y * 256 + unat z) div 262144 < 64"
    using b64_bytes_value(1) [of x y z] by linarith
  then show ?case unfolding b64_encode.simps Let_def using 4 by (subst b64_group_newline) simp_all
qed simp

lemma b64_decode_encode [simp, codec_simps]: "b64_ok e \<Longrightarrow> b64_decode e (b64_encode e bs) = Some bs"
  by (simp add: b64_decode_def b64_encode_no_newline b64_quanta_encode)

end
