(* ===== verification/Runes.thy ===== *)
theory Runes
  imports Prelude
begin

text \<open>
  UTF-8 as Go's \<open>for _, c := range s\<close> and \<open>utf8.DecodeRuneInString\<close> see it: the runes of a
  byte string, with \<open>U+FFFD\<close> (width 1) for every byte that starts no valid sequence.
  \<open>utf8_ok\<close> are the texts without such a byte, the ones PostgreSQL stores in a text column.
\<close>

section \<open>Runes of a string\<close>

definition cont :: "nat \<Rightarrow> nat \<Rightarrow> char \<Rightarrow> bool" where
  "cont lo hi c \<longleftrightarrow> lo \<le> of_char c \<and> of_char c \<le> hi"

text \<open>The first rune and its width in bytes, as \<open>utf8.DecodeRuneInString\<close> gives them.\<close>

definition decode_rune :: "char \<Rightarrow> string \<Rightarrow> nat \<times> nat" where
  "decode_rune c cs =
     (let b0 = of_char c :: nat; bad = (65533, 1) in
      if b0 < 128 then (b0, 1)
      else if 194 \<le> b0 \<and> b0 \<le> 223 then
        (case cs of
           c1 # _ \<Rightarrow> if cont 128 191 c1 then ((b0 - 192) * 64 + (of_char c1 - 128), 2) else bad
         | _ \<Rightarrow> bad)
      else if 224 \<le> b0 \<and> b0 \<le> 239 then
        (let lo = (if b0 = 224 then 160 else 128); hi = (if b0 = 237 then 159 else 191) in
         case cs of
           c1 # c2 # _ \<Rightarrow>
             if cont lo hi c1 \<and> cont 128 191 c2
             then ((b0 - 224) * 4096 + (of_char c1 - 128) * 64 + (of_char c2 - 128), 3) else bad
         | _ \<Rightarrow> bad)
      else if 240 \<le> b0 \<and> b0 \<le> 244 then
        (let lo = (if b0 = 240 then 144 else 128); hi = (if b0 = 244 then 143 else 191) in
         case cs of
           c1 # c2 # c3 # _ \<Rightarrow>
             if cont lo hi c1 \<and> cont 128 191 c2 \<and> cont 128 191 c3
             then ((b0 - 240) * 262144 + (of_char c1 - 128) * 4096 + (of_char c2 - 128) * 64
                     + (of_char c3 - 128), 4) else bad
         | _ \<Rightarrow> bad)
      else bad)"

lemma decode_rune_width: "decode_rune c cs = (r, w) \<Longrightarrow> 1 \<le> w"
  by (auto simp: decode_rune_def Let_def split: if_splits list.splits)

function runes :: "string \<Rightarrow> nat list" where
  "runes [] = []"
| "runes (c # cs) = (case decode_rune c cs of (r, w) \<Rightarrow> r # runes (drop (w - 1) cs))"
  by pat_completeness auto
termination
  by (relation "measure length") auto

lemma runes_ascii: "\<forall>c \<in> set s. of_char c < (128 :: nat) \<Longrightarrow> runes s = map of_char s"
  by (induction s) (simp_all add: decode_rune_def Let_def)

function utf8_ok :: "string \<Rightarrow> bool" where
  "utf8_ok [] = True"
| "utf8_ok (c # cs) =
     (case decode_rune c cs of (r, w) \<Rightarrow> \<not> (r = 65533 \<and> w = 1) \<and> utf8_ok (drop (w - 1) cs))"
  by pat_completeness auto
termination
  by (relation "measure length") auto

lemma utf8_ok_ascii: "\<forall>c \<in> set s. of_char c < (128 :: nat) \<Longrightarrow> utf8_ok s"
  by (induction s) (simp_all add: decode_rune_def Let_def)

end
