(* ===== verification/Multibase.thy ===== *)
theory Multibase
  imports Encodings Runes
begin

text \<open>
  \<^verbatim>\<open>pkg/multibase/multibase.go\<close>: base58btc, the multibase prefixes and the multicodec
  key prefixes. \<open>math/big\<close> integers are natural numbers (they are never negative here):
  \<open>Bytes\<close> is the big-endian form without leading zeros and \<open>SetBytes\<close> its inverse.
  A Go \<open>for _, c := range s\<close> walks the \<^const>\<open>runes\<close> of the text; \<open>byte(c)\<close> then keeps
  the low eight bits of a rune.
\<close>

section \<open>Base58\<close>

definition base58Alphabet :: string where
  "base58Alphabet = ''123456789ABCDEFGHJKLMNPQRSTUVWXYZabcdefghijkmnopqrstuvwxyz''"

fun index_from :: "int \<Rightarrow> string \<Rightarrow> char \<Rightarrow> int" where
  "index_from i [] c = -1"
| "index_from i (x # xs) c = (if x = c then i else index_from (i + 1) xs c)"

definition indexOf :: "string \<Rightarrow> char \<Rightarrow> int" where
  "indexOf alpha c = index_from 0 alpha c"

datatype mb_error =
    ErrInvalidInput
  | ErrUnsupportedEncoding
  | ErrInvalidBase58Char
  | ErrUnsupportedKeyType
  | ErrInvalidKeyLength

text \<open>\<open>big.Int\<close>: \<open>Bytes\<close> and \<open>SetBytes\<close>.\<close>

fun big_bytes :: "nat \<Rightarrow> bytes" where
  "big_bytes n = (if n = 0 then [] else big_bytes (n div 256) @ [of_nat (n mod 256)])"

declare big_bytes.simps [simp del]

definition big_set_bytes :: "bytes \<Rightarrow> nat" where
  "big_set_bytes bs = foldl (\<lambda>acc b. acc * 256 + unat b) 0 bs"

text \<open>\<open>byte(c)\<close> of a rune: the conversion truncates.\<close>

definition byte_of_rune :: "nat \<Rightarrow> char" where
  "byte_of_rune r = char_of r"

definition rune_1 :: nat where
  "rune_1 = 49"

definition leading_ones :: "nat list \<Rightarrow> nat" where
  "leading_ones rs = length (takeWhile (\<lambda>c. c = rune_1) rs)"

fun base58_value :: "nat \<Rightarrow> nat list \<Rightarrow> mb_error + nat" where
  "base58_value acc [] = Inr acc"
| "base58_value acc (c # cs) =
     (let idx = indexOf base58Alphabet (byte_of_rune c) in
      if idx < 0 then Inl ErrInvalidBase58Char
      else base58_value (acc * 58 + nat idx) cs)"

definition base58_decode :: "string \<Rightarrow> mb_error + bytes" where
  "base58_decode encoded =
     (if encoded = [] then Inr []
      else case base58_value 0 (runes encoded) of
        Inl e \<Rightarrow> Inl e
      | Inr n \<Rightarrow> Inr (replicate (leading_ones (runes encoded)) 0 @ big_bytes n))"

text \<open>The division loop appends the digits with the least significant first.\<close>

fun base58_digits :: "nat \<Rightarrow> string" where
  "base58_digits n = (if n = 0 then [] else base58Alphabet ! (n mod 58) # base58_digits (n div 58))"

declare base58_digits.simps [simp del]

definition base58_encode :: "bytes \<Rightarrow> string" where
  "base58_encode data =
     (if data = [] then []
      else let zeros = length (takeWhile (\<lambda>b. b = 0) data)
           in rev (base58_digits (big_set_bytes data) @ replicate zeros (CHR ''1'')))"

section \<open>Multibase\<close>

datatype encoding = Base58btc | HexLower | HexUpper | Base64URL | Base64Std | Base64StdNoPad

record decode_result =
  dr_data :: bytes
  dr_encoding :: encoding

definition or_invalid :: "bytes option \<Rightarrow> encoding \<Rightarrow> mb_error + decode_result" where
  "or_invalid r enc =
     (case r of None \<Rightarrow> Inl ErrInvalidInput | Some d \<Rightarrow> Inr \<lparr>dr_data = d, dr_encoding = enc\<rparr>)"

fun mb_decode :: "string \<Rightarrow> mb_error + decode_result" where
  "mb_decode [] = Inl ErrInvalidInput"
| "mb_decode (prefix # payload) =
     (if prefix = CHR ''z'' then
        (case base58_decode payload of
           Inl e \<Rightarrow> Inl e
         | Inr d \<Rightarrow> Inr \<lparr>dr_data = d, dr_encoding = Base58btc\<rparr>)
      else if prefix = CHR ''f'' then or_invalid (hex_decode payload) HexLower
      else if prefix = CHR ''F'' then or_invalid (hex_decode payload) HexUpper
      else if prefix = CHR ''u'' then or_invalid (b64_decode RawURLEncoding payload) Base64URL
      else if prefix = CHR ''m'' then or_invalid (b64_decode StdEncoding payload) Base64Std
      else if prefix = CHR ''M'' then or_invalid (b64_decode RawStdEncoding payload) Base64StdNoPad
      else Inl ErrUnsupportedEncoding)"

section \<open>Multicodec keys\<close>

datatype key_type = Ed25519Pub | Ed25519Priv | Secp256k1Pub | P256Pub | Unknown

definition extract_ed25519_pub_key :: "bytes \<Rightarrow> mb_error + bytes" where
  "extract_ed25519_pub_key mc =
     (if length mc < 2 \<or> mc ! 0 \<noteq> 0xed \<or> mc ! 1 \<noteq> 0x01 then Inl ErrUnsupportedKeyType
      else let payload = drop 2 mc in
        if length payload \<noteq> 32 then Inl ErrInvalidKeyLength
        else Inr (go_copy (replicate 32 0) payload))"

definition extract_key_type :: "bytes \<Rightarrow> mb_error + key_type" where
  "extract_key_type d =
     (if length d < 2 then Inl ErrInvalidInput
      else let b0 = d ! 0; b1 = d ! 1 in
        if b0 = 0xed \<and> b1 = 0x01 then Inr Ed25519Pub
        else if b0 = 0x80 \<and> b1 = 0x26 then Inr Ed25519Priv
        else if b0 = 0xe7 \<and> b1 = 0x01 then Inr Secp256k1Pub
        else if b0 = 0x80 \<and> b1 = 0x24 then Inr P256Pub
        else Inr Unknown)"

definition decode_ed25519_pub_key :: "string \<Rightarrow> mb_error + bytes" where
  "decode_ed25519_pub_key s =
     (case mb_decode s of
        Inl e \<Rightarrow> Inl e
      | Inr result \<Rightarrow> extract_ed25519_pub_key (dr_data result))"


section \<open>The digit alphabet\<close>

lemma index_from_find:
  "index_from k xs c = (case find_idx xs c of None \<Rightarrow> -1 | Some i \<Rightarrow> k + int i)"
  by (induction xs arbitrary: k) (auto split: option.splits)

lemma indexOf_find: "indexOf xs c = (case find_idx xs c of None \<Rightarrow> -1 | Some i \<Rightarrow> int i)"
  by (simp add: indexOf_def index_from_find split: option.split)

lemma alphabet58: "distinct base58Alphabet" "length base58Alphabet = 58"
  "list_all (\<lambda>c. of_char c < (128 :: nat)) base58Alphabet" "base58Alphabet ! 0 = CHR ''1''"
  by (simp_all add: base58Alphabet_def)

lemma indexOf_digit [simp]: "i < 58 \<Longrightarrow> indexOf base58Alphabet (base58Alphabet ! i) = int i"
  by (simp add: indexOf_find find_idx_nth alphabet58)

lemma indexOf_nonneg:
  "\<not> indexOf base58Alphabet c < 0 \<Longrightarrow>
   nat (indexOf base58Alphabet c) < 58 \<and> base58Alphabet ! nat (indexOf base58Alphabet c) = c"
  using find_idx_Some [of base58Alphabet c] by (auto simp: indexOf_find alphabet58 split: option.splits)

lemma byte_of_rune_char [simp]: "byte_of_rune (of_char c) = c"
  by (simp add: byte_of_rune_def)


lemma rune_1_char: "rune_1 = of_char (CHR ''1'')"
  by (simp add: rune_1_def)


section \<open>Positional values\<close>

lemma base58_value_append:
  "base58_value acc (xs @ ys) =
     (case base58_value acc xs of Inl e \<Rightarrow> Inl e | Inr a \<Rightarrow> base58_value a ys)"
  by (induction xs arbitrary: acc) (simp_all add: Let_def)

lemma base58_value_ones: "base58_value 0 (replicate z rune_1 @ rs) = base58_value 0 rs"
proof (induction z)
  case (Suc z)
  have "indexOf base58Alphabet (byte_of_rune rune_1) = 0"
    using indexOf_digit [of 0] unfolding rune_1_char byte_of_rune_char alphabet58(4) by simp
  with Suc show ?case by simp
qed simp


lemma big_set_bytes_snoc: "big_set_bytes (bs @ [b]) = big_set_bytes bs * 256 + unat b"
  by (simp add: big_set_bytes_def)

lemma big_bytes_eq_Nil [simp]: "big_bytes n = [] \<longleftrightarrow> n = 0"
  by (simp add: big_bytes.simps [of n])

lemma big_bytes_snoc:
  "big_bytes (m * 256 + unat b) = (if m = 0 \<and> b = 0 then [] else big_bytes m @ [b])"
proof -
  have "(m * 256 + unat b) div 256 = m" "(m * 256 + unat b) mod 256 = unat b" by simp_all
  moreover have "m * 256 + unat b = 0 \<longleftrightarrow> m = 0 \<and> b = 0" by (simp add: unat_eq_zero)
  ultimately show ?thesis by (simp only: big_bytes.simps [of "m * 256 + unat b"] of_nat_unat ucast_id)
qed

lemma big_bytes_set_bytes: "big_bytes (big_set_bytes bs) = dropWhile (\<lambda>b. b = 0) bs"
proof (induction bs rule: rev_induct)
  case Nil
  then show ?case by (simp add: big_set_bytes_def)
next
  case (snoc b bs)
  then show ?case
    unfolding big_set_bytes_snoc big_bytes_snoc
    by (auto simp: dropWhile_append simp flip: big_bytes_eq_Nil)
qed

lemma big_set_bytes_big_bytes: "big_set_bytes (big_bytes n) = n"
proof (induction n rule: big_bytes.induct)
  case (1 n)
  then show ?case
    by (cases "n = 0")
       (simp_all add: big_bytes.simps [of n] big_bytes.simps [of 0] big_set_bytes_snoc big_set_bytes_def
         unat_of_nat take_bit_eq_mod)
qed

lemma takeWhile_dropWhile_zeros:
  "replicate (length (takeWhile (\<lambda>b. b = z) bs)) z @ dropWhile (\<lambda>b. b = z) bs = bs"
  by (induction bs) auto

lemma takeWhile_replicate:
  "bs = [] \<or> hd bs \<noteq> z \<Longrightarrow> takeWhile (\<lambda>b. b = z) (replicate k z @ bs) = replicate k z"
  by (induction k) (cases bs; simp)+




section \<open>Round trips\<close>

lemma base58_encode_shape:
  "base58_encode data =
     replicate (length (takeWhile (\<lambda>b. b = 0) data)) (CHR ''1'') @ rev (base58_digits (big_set_bytes data))"
  by (simp add: base58_encode_def big_set_bytes_def base58_digits.simps [of 0] Let_def)


lemma leading_ones_shape:
  assumes "t = [] \<or> hd t \<noteq> CHR ''1''"
  shows "leading_ones (map of_char (replicate k (CHR ''1'') @ t)) = k"
proof -
  have "map of_char t = [] \<or> hd (map of_char t) \<noteq> rune_1"
    unfolding rune_1_char using assms by (cases t) (simp_all del: of_char_Char)
  then show ?thesis
    unfolding leading_ones_def map_append map_replicate rune_1_char [symmetric]
    by (simp add: takeWhile_replicate)
qed



text \<open>Conversely an accepted ASCII text is the encoding of what it decodes to.\<close>

lemma base58_value_unique:
  "base58_value 0 (map of_char t) = Inr n \<Longrightarrow> t = [] \<or> hd t \<noteq> CHR ''1'' \<Longrightarrow> rev (base58_digits n) = t"
proof (induction t arbitrary: n rule: rev_induct)
  case Nil
  then show ?case by (simp add: base58_digits.simps [of 0])
next
  case (snoc c t)
  from snoc.prems(1) obtain m where m: "base58_value 0 (map of_char t) = Inr m"
    and i: "\<not> indexOf base58Alphabet c < 0" and n: "n = m * 58 + nat (indexOf base58Alphabet c)"
    by (auto simp: base58_value_append Let_def split: sum.splits if_splits)
  have t: "t = [] \<or> hd t \<noteq> CHR ''1''" using snoc.prems(2) by (cases t) auto
  let ?i = "nat (indexOf base58Alphabet c)"
  have c: "?i < 58" "base58Alphabet ! ?i = c" using indexOf_nonneg [OF i] by auto
  have rt: "rev (base58_digits m) = t" using snoc.IH [OF m t] .
  have "n \<noteq> 0"
  proof
    assume "n = 0"
    then have "m = 0" "?i = 0" using n by simp_all
    then have "t = []" "c = CHR ''1''" using rt c alphabet58(4) by (auto simp: base58_digits.simps [of 0])
    with snoc.prems(2) show False by simp
  qed
  moreover have "n div 58 = m" "n mod 58 = ?i" using c n by simp_all
  ultimately show ?case using rt c by (simp add: base58_digits.simps [of n])
qed

text \<open>
  A text of ASCII characters that \<open>Base58Decode\<close> accepts is the one \<open>Base58Encode\<close> makes of the
  result: no two such texts stand for the same bytes.
\<close>

theorem base58_encode_decode:
  assumes a: "\<forall>c \<in> set s. of_char c < (128 :: nat)" and d: "base58_decode s = Inr d"
  shows "base58_encode d = s"
proof (cases "s = []")
  case True
  with d show ?thesis by (simp add: base58_decode_def base58_encode_def)
next
  case False
  define k where "k = length (takeWhile (\<lambda>c. c = CHR ''1'') s)"
  define t where "t = dropWhile (\<lambda>c. c = CHR ''1'') s"
  have s: "s = replicate k (CHR ''1'') @ t" by (simp add: k_def t_def takeWhile_dropWhile_zeros)
  have t: "t = [] \<or> hd t \<noteq> CHR ''1''" using hd_dropWhile [of "\<lambda>c. c = CHR ''1''" s] by (auto simp: t_def)
  obtain n where n: "base58_value 0 (map of_char s) = Inr n"
    and dn: "d = replicate (leading_ones (map of_char s)) 0 @ big_bytes n"
    using d False by (auto simp: base58_decode_def runes_ascii [OF a] split: sum.splits)
  have lo: "leading_ones (map of_char s) = k" unfolding s by (rule leading_ones_shape [OF t])
  have "base58_value 0 (map of_char t) = Inr n"
    using n base58_value_ones by (simp add: s rune_1_char)
  from base58_value_unique [OF this t] have rt: "rev (base58_digits n) = t" .
  have h: "big_bytes n = [] \<or> hd (big_bytes n) \<noteq> 0"
    using big_bytes_set_bytes [of "big_bytes n"] hd_dropWhile [of "\<lambda>b. b = 0" "big_bytes n"]
    by (auto simp: big_set_bytes_big_bytes)
  have "big_set_bytes d = n"
  proof -
    have "foldl (\<lambda>acc b. acc * 256 + unat b) 0 (replicate j (0 :: u8)) = 0" for j
      by (induction j) simp_all
    then show ?thesis
      using big_set_bytes_big_bytes [of n] by (simp add: dn big_set_bytes_def)
  qed
  moreover have "takeWhile (\<lambda>b. b = 0) d = replicate k 0"
    unfolding dn lo by (rule takeWhile_replicate [OF h])
  ultimately show ?thesis by (simp add: base58_encode_shape rt s)
qed

theorem base58_encode_decode_witness: "base58_encode [97] = ''2g''"
proof (rule base58_encode_decode)
  have r: "runes ''2g'' = [50, 103]" by (subst runes_ascii) simp_all
  have b: "byte_of_rune 50 = CHR ''2''" "byte_of_rune 103 = CHR ''g''"
    by (simp_all add: byte_of_rune_def char_of_eq_iff)
  have "big_bytes 97 = [97]" by (simp add: big_bytes.simps [of 97] big_bytes.simps [of 0])
  moreover have "indexOf base58Alphabet (CHR ''2'') = 1" "indexOf base58Alphabet (CHR ''g'') = 39"
    by (simp_all add: indexOf_def base58Alphabet_def)
  ultimately show "base58_decode ''2g'' = Inr [97]"
    unfolding base58_decode_def r by (simp add: leading_ones_def rune_1_def b)
qed simp

section \<open>Keys\<close>




lemma extract_ed25519_iff:
  "extract_ed25519_pub_key mc = Inr k \<longleftrightarrow> length k = 32 \<and> mc = [0xed, 0x01] @ k"
proof -
  have "mc = [mc ! 0, mc ! 1] @ drop 2 mc" if "\<not> length mc < 2"
    using that by (cases mc; cases "tl mc") auto
  then show ?thesis
    by (auto simp: extract_ed25519_pub_key_def Let_def split: if_splits)
qed


text \<open>
  \<open>DecodeEd25519PubKey\<close> accepts a text exactly when it decodes to the two prefix bytes
  \<open>ed 01\<close> followed by 32 bytes, and returns those.
\<close>

theorem decode_ed25519_pub_key_iff:
  "decode_ed25519_pub_key s = Inr k \<longleftrightarrow>
     length k = 32 \<and> (\<exists>enc. mb_decode s = Inr \<lparr>dr_data = [0xed, 0x01] @ k, dr_encoding = enc\<rparr>)"
proof -
  show ?thesis
  proof (cases "mb_decode s")
    case (Inl e)
    then show ?thesis by (simp add: decode_ed25519_pub_key_def)
  next
    case (Inr r)
    then show ?thesis by (cases r) (auto simp: decode_ed25519_pub_key_def extract_ed25519_iff)
  qed
qed

text \<open>
  The rune loop of \<open>Base58Decode\<close> truncates: \<open>U+0141\<close> (two bytes, \<open>C5 81\<close>) is read as the digit \<open>A\<close>, so
  a text outside the alphabet is accepted.
\<close>

theorem base58_accepts_non_alphabet:
  "base58_decode [CHR 0xC5, CHR 0x81] = base58_decode ''A'' \<and> (\<exists>d. base58_decode ''A'' = Inr d)
     \<and> CHR 0xC5 \<notin> set base58Alphabet"
proof -
  have r: "runes [CHR 0xC5, CHR 0x81] = [0x141]" "runes ''A'' = [0x41]"
    by (simp_all add: decode_rune_def cont_def Let_def)
  have b: "byte_of_rune 0x141 = CHR ''A''" "byte_of_rune 0x41 = CHR ''A''"
    by (simp_all add: byte_of_rune_def char_of_eq_iff)
  have i: "indexOf base58Alphabet (CHR ''A'') = 9" by (simp add: indexOf_def base58Alphabet_def)
  have "leading_ones [0x141] = 0" "leading_ones [0x41] = 0" by (simp_all add: leading_ones_def rune_1_def)
  then have "base58_decode [CHR 0xC5, CHR 0x81] = Inr (big_bytes 9)" "base58_decode ''A'' = Inr (big_bytes 9)"
    unfolding base58_decode_def r by (simp_all add: b i)
  moreover have "CHR 0xC5 \<notin> set base58Alphabet" by (simp add: base58Alphabet_def)
  ultimately show ?thesis by simp
qed

end
