(* ===== verification/Ed25519.thy ===== *)
theory Ed25519
  imports Encodings
begin

text \<open>
  \<^verbatim>\<open>pkg/crypto/ed25519.go\<close>: the text forms of signatures and public keys and the copying
  of key material into fixed arrays. A Go array \<open>[n]byte\<close> is a byte list of length \<open>n\<close>.
  The curve arithmetic of \<open>crypto/ed25519\<close> is a parameter of the functions that call it.
\<close>

definition SignatureSize :: nat where "SignatureSize = 64"
definition PublicKeySize :: nat where "PublicKeySize = 32"
definition SecretKeySize :: nat where "SecretKeySize = 64"

datatype ed_error = ErrInvalidHexLength | ErrInvalidHexChar | ErrInvalidBase64

record key_pair =
  PublicKey :: bytes
  SecretKey :: bytes

definition key_pair_of :: "bytes \<Rightarrow> bytes \<Rightarrow> key_pair" where
  "key_pair_of pub priv =
     \<lparr>PublicKey = go_copy (replicate PublicKeySize 0) pub,
      SecretKey = go_copy (replicate SecretKeySize 0) priv\<rparr>"

text \<open>\<open>gen\<close> is \<open>ed25519.GenerateKey(rand.Reader)\<close> on the state of the random source.\<close>

definition generate_key_pair ::
  "('r \<Rightarrow> ('e + bytes \<times> bytes) \<times> 'r) \<Rightarrow> 'r \<Rightarrow> ('e + key_pair) \<times> 'r" where
  "generate_key_pair gen r =
     (case gen r of
        (Inl e, r') \<Rightarrow> (Inl e, r')
      | (Inr (pub, priv), r') \<Rightarrow> (Inr (key_pair_of pub priv), r'))"

definition key_pair_from_seed :: "(bytes \<Rightarrow> bytes) \<Rightarrow> (bytes \<Rightarrow> bytes) \<Rightarrow> bytes \<Rightarrow> key_pair" where
  "key_pair_from_seed new_key_from_seed public seed =
     (let priv = new_key_from_seed seed; pub = public priv in key_pair_of pub priv)"

definition ed_sign :: "(bytes \<Rightarrow> bytes \<Rightarrow> bytes) \<Rightarrow> bytes \<Rightarrow> bytes \<Rightarrow> bytes" where
  "ed_sign sign message secretKey =
     (let sig = sign secretKey message in go_copy (replicate SignatureSize 0) sig)"

definition ed_verify :: "(bytes \<Rightarrow> bytes \<Rightarrow> bytes \<Rightarrow> bool) \<Rightarrow> bytes \<Rightarrow> bytes \<Rightarrow> bytes \<Rightarrow> bool" where
  "ed_verify verify message signature publicKey = verify publicKey message signature"

definition signature_to_hex :: "bytes \<Rightarrow> string" where
  "signature_to_hex sig = hex_encode sig"

definition signature_from_hex :: "string \<Rightarrow> ed_error + bytes" where
  "signature_from_hex h =
     (if length h \<noteq> 128 then Inl ErrInvalidHexLength
      else case hex_decode h of
        None \<Rightarrow> Inl ErrInvalidHexChar
      | Some b \<Rightarrow> Inr (go_copy (replicate SignatureSize 0) b))"

definition signature_to_base64 :: "bytes \<Rightarrow> string" where
  "signature_to_base64 sig = b64_encode StdEncoding sig"

definition signature_from_base64 :: "string \<Rightarrow> ed_error + bytes" where
  "signature_from_base64 encoded =
     (case b64_decode StdEncoding encoded of
        None \<Rightarrow> Inl ErrInvalidBase64
      | Some b \<Rightarrow>
          if length b \<noteq> SignatureSize then Inl ErrInvalidBase64
          else Inr (go_copy (replicate SignatureSize 0) b))"

definition public_key_to_hex :: "bytes \<Rightarrow> string" where
  "public_key_to_hex key = hex_encode key"

definition public_key_from_hex :: "string \<Rightarrow> ed_error + bytes" where
  "public_key_from_hex h =
     (if length h \<noteq> 64 then Inl ErrInvalidHexLength
      else case hex_decode h of
        None \<Rightarrow> Inl ErrInvalidHexChar
      | Some b \<Rightarrow> Inr (go_copy (replicate PublicKeySize 0) b))"

lemma length_hex_decode_iff:
  "hex_decode s = Some b \<Longrightarrow> length s = 2 * n \<longleftrightarrow> length b = n"
  using length_hex_decode [of s b] by auto

lemma signature_from_hex_iff:
  "signature_from_hex h = Inr sig \<longleftrightarrow> hex_decode h = Some sig \<and> length sig = SignatureSize"
  using length_hex_decode_iff [of h _ 64]
  by (auto simp: signature_from_hex_def SignatureSize_def split: option.splits)

lemma public_key_from_hex_iff:
  "public_key_from_hex h = Inr key \<longleftrightarrow> hex_decode h = Some key \<and> length key = PublicKeySize"
  using length_hex_decode_iff [of h _ 32]
  by (auto simp: public_key_from_hex_def PublicKeySize_def split: option.splits)

lemma signature_from_base64_iff:
  "signature_from_base64 s = Inr sig \<longleftrightarrow>
     b64_decode StdEncoding s = Some sig \<and> length sig = SignatureSize"
  by (auto simp: signature_from_base64_def SignatureSize_def split: option.splits)

text \<open>
  The hexadecimal and base64 forms of a signature and the hexadecimal form of a public key
  read back as the same bytes, and the hexadecimal forms have 128 and 64 characters.
\<close>

theorem signature_text_roundtrip:
  assumes "length sig = SignatureSize" "length key = PublicKeySize"
  shows "signature_from_hex (signature_to_hex sig) = Inr sig
    \<and> signature_from_base64 (signature_to_base64 sig) = Inr sig
    \<and> public_key_from_hex (public_key_to_hex key) = Inr key
    \<and> length (signature_to_hex sig) = 128 \<and> length (public_key_to_hex key) = 64"
  using assms
  by (simp add: signature_from_hex_iff signature_from_base64_iff public_key_from_hex_iff
      signature_to_hex_def signature_to_base64_def public_key_to_hex_def SignatureSize_def PublicKeySize_def)

theorem signature_text_roundtrip_witness:
  "signature_from_hex (signature_to_hex (replicate 64 7)) = Inr (replicate 64 7)"
  using signature_text_roundtrip [of "replicate 64 7" "replicate 32 9"]
  by (simp add: SignatureSize_def PublicKeySize_def)

end
