(* ===== verification/GoStrings.thy ===== *)
theory GoStrings
  imports Runes
begin

text \<open>
  Functions of \<open>strings\<close>, \<open>unicode\<close>, \<open>unicode/utf8\<close> and \<open>strconv\<close> that the HTTP layer and the
  configuration use, on byte strings.
\<close>

section \<open>Prefixes and suffixes\<close>

text \<open>\<open>strings.CutPrefix\<close> and \<open>strings.CutSuffix\<close>: \<open>None\<close> when not found.\<close>

definition cut_prefix :: "string \<Rightarrow> string \<Rightarrow> string option" where
  "cut_prefix p s = (if take (length p) s = p then Some (drop (length p) s) else None)"

definition cut_suffix :: "string \<Rightarrow> string \<Rightarrow> string option" where
  "cut_suffix p s = map_option rev (cut_prefix (rev p) (rev s))"

definition has_prefix :: "string \<Rightarrow> string \<Rightarrow> bool" where
  "has_prefix p s \<longleftrightarrow> cut_prefix p s \<noteq> None"

definition has_suffix :: "string \<Rightarrow> string \<Rightarrow> bool" where
  "has_suffix p s \<longleftrightarrow> cut_suffix p s \<noteq> None"

lemma cut_prefix_Some: "cut_prefix p s = Some t \<longleftrightarrow> s = p @ t"
proof -
  have "take (length p) s = p \<Longrightarrow> s = p @ drop (length p) s" by (metis append_take_drop_id)
  then show ?thesis by (auto simp: cut_prefix_def)
qed

lemma cut_suffix_Some: "cut_suffix p s = Some t \<longleftrightarrow> s = t @ p"
proof -
  have "cut_suffix p s = Some t \<longleftrightarrow> cut_prefix (rev p) (rev s) = Some (rev t)"
    by (auto simp: cut_suffix_def)
  also have "\<dots> \<longleftrightarrow> s = t @ p" by (simp add: cut_prefix_Some flip: rev_append)
  finally show ?thesis .
qed

lemma has_prefix_iff: "has_prefix p s \<longleftrightarrow> (\<exists>t. s = p @ t)"
  unfolding has_prefix_def using cut_prefix_Some by (metis not_None_eq)

lemma has_suffix_iff: "has_suffix p s \<longleftrightarrow> (\<exists>t. s = t @ p)"
  unfolding has_suffix_def using cut_suffix_Some by (metis not_None_eq)

section \<open>Runes with their bytes\<close>

text \<open>The runes of a string, each with the bytes that encode it (one byte for an invalid one).\<close>

function rune_chunks :: "string \<Rightarrow> (nat \<times> string) list" where
  "rune_chunks [] = []"
| "rune_chunks (c # cs) =
     (case decode_rune c cs of (r, w) \<Rightarrow> (r, c # take (w - 1) cs) # rune_chunks (drop (w - 1) cs))"
  by pat_completeness auto
termination
  by (relation "measure length") auto

definition chunk_text :: "(nat \<times> string) list \<Rightarrow> string" where
  "chunk_text xs = concat (map snd xs)"

lemma chunk_text_simps [simp]:
  "chunk_text [] = []" "chunk_text (x # xs) = snd x @ chunk_text xs" "chunk_text (xs @ ys) = chunk_text xs @ chunk_text ys"
  by (simp_all add: chunk_text_def)

lemma chunk_text_rune_chunks [simp]: "chunk_text (rune_chunks s) = s"
  by (induction s rule: rune_chunks.induct) (auto split: prod.splits)

lemma map_fst_rune_chunks: "map fst (rune_chunks s) = runes s"
  by (induction s rule: rune_chunks.induct) (auto split: prod.splits)

text \<open>A rune is decoded from its own bytes, and fewer bytes after it change nothing.\<close>

lemma decode_rune_take:
  assumes "decode_rune c cs = (r, w)" "w - 1 \<le> n"
  shows "decode_rune c (take n cs) = (r, w)"
proof -
  obtain x y z zs where cs: "cs = [] \<or> cs = [x] \<or> cs = [x, y] \<or> cs = x # y # z # zs"
    by (metis list.exhaust)
  obtain m where n: "n = 0 \<or> n = Suc 0 \<or> n = Suc (Suc 0) \<or> n = Suc (Suc (Suc m))"
    by (metis old.nat.exhaust)
  define b where "b = (of_char c :: nat)"
  consider "b < 128" | "194 \<le> b" "b \<le> 223" | "224 \<le> b" "b \<le> 239" | "240 \<le> b" "b \<le> 244"
    | "128 \<le> b" "b < 194 \<or> 244 < b" by linarith
  then show ?thesis
  proof cases
    case 1
    with assms show ?thesis by (simp add: decode_rune_def Let_def flip: b_def)
  next
    case 2
    with assms cs n show ?thesis by (elim disjE) (simp_all add: decode_rune_def Let_def flip: b_def split: if_splits)
  next
    case 3
    with assms cs n show ?thesis by (elim disjE) (simp_all add: decode_rune_def Let_def flip: b_def split: if_splits)
  next
    case 4
    with assms cs n show ?thesis by (elim disjE) (auto simp: decode_rune_def Let_def simp flip: b_def split: if_splits)
  next
    case 5
    with assms show ?thesis by (auto simp add: decode_rune_def Let_def simp flip: b_def)
  qed
qed

lemma decode_rune_bound: "decode_rune c cs = (r, w) \<Longrightarrow> w - 1 \<le> length cs"
  by (auto simp: decode_rune_def Let_def split: if_splits list.splits)

lemma rune_chunks_prefix: "rune_chunks s = xs @ ys \<Longrightarrow> rune_chunks (chunk_text xs) = xs"
proof (induction s arbitrary: xs rule: rune_chunks.induct)
  case (2 c cs)
  obtain r w where d: "decode_rune c cs = (r, w)" by (cases "decode_rune c cs")
  show ?case
  proof (cases xs)
    case (Cons x zs)
    let ?t = "drop (w - 1) cs"
    from 2(2) Cons d have x: "x = (r, c # take (w - 1) cs)" and zs: "rune_chunks ?t = zs @ ys" by auto
    from "2.IH" [OF d [symmetric] zs] have ih: "rune_chunks (chunk_text zs) = zs" .
    have "?t = chunk_text zs @ chunk_text ys" using zs chunk_text_rune_chunks [of ?t] by simp
    then have cs: "cs = take (w - 1) cs @ chunk_text zs @ chunk_text ys" by (metis append_take_drop_id)
    have len: "length (take (w - 1) cs) = w - 1" using decode_rune_bound [OF d] by simp
    have "take (w - 1) cs @ chunk_text zs = take (w - 1 + length (chunk_text zs)) cs"
      using cs len by (metis append.assoc append_eq_conv_conj length_append)
    moreover have "decode_rune c (take (w - 1 + length (chunk_text zs)) cs) = (r, w)"
      using decode_rune_take [OF d] by simp
    ultimately have "decode_rune c (take (w - 1) cs @ chunk_text zs) = (r, w)" by simp
    then show ?thesis using Cons x ih len by simp
  qed simp
qed simp

lemma rune_chunks_suffix: "rune_chunks s = xs @ ys \<Longrightarrow> rune_chunks (chunk_text ys) = ys"
proof (induction s arbitrary: xs rule: rune_chunks.induct)
  case (2 c cs)
  obtain r w where d: "decode_rune c cs = (r, w)" by (cases "decode_rune c cs")
  show ?case
  proof (cases xs)
    case Nil
    with 2(2) have "ys = rune_chunks (c # cs)" by simp
    then show ?thesis by (simp only: chunk_text_rune_chunks)
  next
    case (Cons x zs)
    with 2(2) d have "rune_chunks (drop (w - 1) cs) = zs @ ys" by auto
    with "2.IH" [OF d [symmetric]] show ?thesis by blast
  qed
qed simp

section \<open>\<open>strings.TrimSpace\<close>\<close>

definition is_space :: "nat \<Rightarrow> bool" where
  "is_space r \<longleftrightarrow> r \<in> {9, 10, 11, 12, 13, 32, 133, 160, 5760, 8232, 8233, 8239, 8287, 12288} \<or> 8192 \<le> r \<and> r \<le> 8202"

definition trim_chunks :: "(nat \<times> string) list \<Rightarrow> (nat \<times> string) list" where
  "trim_chunks xs = rev (dropWhile (is_space \<circ> fst) (rev (dropWhile (is_space \<circ> fst) xs)))"

definition TrimSpace :: "string \<Rightarrow> string" where
  "TrimSpace s = chunk_text (trim_chunks (rune_chunks s))"

lemma trim_chunks_infix: "\<exists>a b. xs = a @ trim_chunks xs @ b"
proof -
  let ?p = "is_space \<circ> fst" and ?t = "dropWhile (is_space \<circ> fst) xs"
  have "?t = trim_chunks xs @ rev (takeWhile ?p (rev ?t))"
    unfolding trim_chunks_def by (metis rev_append rev_rev_ident takeWhile_dropWhile_id)
  then have "xs = takeWhile ?p xs @ trim_chunks xs @ rev (takeWhile ?p (rev ?t))"
    by (metis takeWhile_dropWhile_id)
  then show ?thesis by blast
qed

lemma trim_chunks_idem [simp]: "trim_chunks (trim_chunks xs) = trim_chunks xs"
proof -
  let ?p = "is_space \<circ> fst" and ?t = "dropWhile (is_space \<circ> fst) xs"
  have t: "dropWhile ?p ?t = ?t" by (metis dropWhile_idem comp_apply)
  have "dropWhile ?p (trim_chunks xs) = trim_chunks xs"
  proof (cases "trim_chunks xs")
    case (Cons y ys)
    have "?t = trim_chunks xs @ rev (takeWhile ?p (rev ?t))"
      unfolding trim_chunks_def by (metis rev_append rev_rev_ident takeWhile_dropWhile_id)
    then have "?t = y # ys @ rev (takeWhile ?p (rev ?t))" using Cons by simp
    then have "hd ?t = y" "?t \<noteq> []" by (metis list.sel(1), metis list.distinct(1))
    then have "\<not> ?p y" using hd_dropWhile [of ?p xs] by metis
    with Cons show ?thesis by simp
  qed simp
  then show ?thesis by (simp add: trim_chunks_def [of "trim_chunks xs"]) (simp add: trim_chunks_def)
qed

lemma rune_chunks_TrimSpace: "rune_chunks (TrimSpace s) = trim_chunks (rune_chunks s)"
proof -
  obtain a b where ab: "rune_chunks s = a @ trim_chunks (rune_chunks s) @ b" using trim_chunks_infix by blast
  from rune_chunks_suffix [OF ab] have "rune_chunks (chunk_text (trim_chunks (rune_chunks s) @ b)) =
      trim_chunks (rune_chunks s) @ b" .
  from rune_chunks_prefix [OF this] show ?thesis by (simp add: TrimSpace_def)
qed

lemma TrimSpace_infix: "\<exists>a b. s = a @ TrimSpace s @ b"
proof -
  obtain a b where "rune_chunks s = a @ trim_chunks (rune_chunks s) @ b" using trim_chunks_infix by blast
  then have "chunk_text (rune_chunks s) = chunk_text (a @ trim_chunks (rune_chunks s) @ b)" by metis
  then show ?thesis by (auto simp: TrimSpace_def)
qed

lemma length_TrimSpace: "length (TrimSpace s) \<le> length s"
  using TrimSpace_infix [of s] by (metis le_add1 le_add2 le_trans length_append)

lemma TrimSpace_idem [simp]: "TrimSpace (TrimSpace s) = TrimSpace s"
  unfolding TrimSpace_def [of "TrimSpace s"] rune_chunks_TrimSpace by (simp add: TrimSpace_def)

text \<open>On ASCII text it is trimming of bytes.\<close>

definition ascii_space :: "char \<Rightarrow> bool" where
  "ascii_space c \<longleftrightarrow> of_char c \<in> {9, 10, 11, 12, 13, 32 :: nat}"

lemma rune_chunks_ascii: "\<forall>c \<in> set s. of_char c < (128 :: nat) \<Longrightarrow> rune_chunks s = map (\<lambda>c. (of_char c, [c])) s"
  by (induction s) (simp_all add: decode_rune_def Let_def)

section \<open>Encoding of runes\<close>

definition is_surrogate :: "nat \<Rightarrow> bool" where
  "is_surrogate r \<longleftrightarrow> 55296 \<le> r \<and> r < 57344"

definition utf8_encode :: "nat \<Rightarrow> string" where
  "utf8_encode r0 =
     (let r = (if is_surrogate r0 \<or> 1114111 < r0 then 65533 else r0) in
      if r < 128 then [char_of r]
      else if r < 2048 then [char_of (192 + r div 64), char_of (128 + r mod 64)]
      else if r < 65536 then [char_of (224 + r div 4096), char_of (128 + r div 64 mod 64), char_of (128 + r mod 64)]
      else [char_of (240 + r div 262144), char_of (128 + r div 4096 mod 64),
            char_of (128 + r div 64 mod 64), char_of (128 + r mod 64)])"

section \<open>Numbers\<close>

definition is_digit :: "char \<Rightarrow> bool" where
  "is_digit c \<longleftrightarrow> 48 \<le> (of_char c :: nat) \<and> (of_char c :: nat) \<le> 57"

text \<open>\<open>strconv.Itoa\<close> and \<open>fmt\<close>'s \<open>%d\<close>.\<close>

fun nat_text :: "nat \<Rightarrow> string" where
  "nat_text n = (if n < 10 then [char_of (48 + n)] else nat_text (n div 10) @ [char_of (48 + n mod 10)])"

declare nat_text.simps [simp del]

definition Itoa :: "int \<Rightarrow> string" where
  "Itoa i = (if i < 0 then CHR ''-'' # nat_text (nat (- i)) else nat_text (nat i))"

text \<open>\<open>strconv.Atoi\<close> for a 64-bit \<open>int\<close>: an optional sign and decimal digits, within range.\<close>

definition Atoi :: "string \<Rightarrow> int option" where
  "Atoi s =
     (let (neg, d) = (case s of [] \<Rightarrow> (False, []) | c # cs \<Rightarrow>
             if c = CHR ''-'' then (True, cs) else if c = CHR ''+'' then (False, cs) else (False, s)) in
      case parse_uint d 10 64 of
        None \<Rightarrow> None
      | Some n \<Rightarrow> if (if neg then n \<le> 2 ^ 63 else n < 2 ^ 63) then Some (if neg then - int n else int n) else None)"

lemma digit_val_decimal: "n < 10 \<Longrightarrow> digit_val (char_of (48 + n)) = Some n"
  by (simp add: digit_val_def of_char_mod_256 Let_def)

lemma parse_uint_loop_append:
  "parse_uint_loop b m acc (s @ t) =
     (case parse_uint_loop b m acc s of None \<Rightarrow> None | Some a \<Rightarrow> parse_uint_loop b m a t)"
  by (induction s arbitrary: acc) (auto split: option.splits)

lemma parse_nat_text: "n \<le> m \<Longrightarrow> parse_uint_loop 10 m 0 (nat_text n) = Some n"
proof (induction n rule: nat_text.induct)
  case (1 n)
  show ?case
  proof (cases "n < 10")
    case True
    with 1 show ?thesis by (simp add: nat_text.simps [of n] digit_val_decimal)
  next
    case False
    have "n div 10 \<le> m" using 1(2) div_le_dividend [of n 10] by linarith
    with 1(1) [OF False] have "parse_uint_loop 10 m 0 (nat_text (n div 10)) = Some (n div 10)" by simp
    moreover have "n div 10 * 10 + n mod 10 = n" by simp
    moreover have "n mod 10 < 10" by simp
    ultimately show ?thesis
      using False 1(2) by (simp add: nat_text.simps [of n] parse_uint_loop_append digit_val_decimal)
  qed
qed

lemma nat_text_hd: "nat_text n \<noteq> [] \<and> digit_val (hd (nat_text n)) \<noteq> None"
proof (induction n rule: nat_text.induct)
  case (1 n)
  then show ?case
    by (cases "n < 10") (auto simp: nat_text.simps [of n] digit_val_decimal hd_append)
qed

lemma Atoi_Itoa:
  assumes "- (2 ^ 63) \<le> i" "i < 2 ^ 63"
  shows "Atoi (Itoa i) = Some i"
proof (cases "i < 0")
  case True
  have n: "nat (- i) \<le> 2 ^ 63" using assms by (simp add: nat_le_iff)
  then have "nat (- i) \<le> 2 ^ 64 - 1" by (rule le_trans) simp
  then have "parse_uint (nat_text (nat (- i))) 10 64 = Some (nat (- i))"
    using nat_text_hd [of "nat (- i)"] by (simp add: parse_uint_def parse_nat_text)
  with True n show ?thesis by (simp add: Itoa_def Atoi_def)
next
  case False
  then have n: "nat i < 2 ^ 63" using assms by (simp add: nat_less_iff)
  then have "nat i \<le> 2 ^ 64 - 1" by simp
  then have p: "parse_uint (nat_text (nat i)) 10 64 = Some (nat i)"
    using nat_text_hd [of "nat i"] by (simp add: parse_uint_def parse_nat_text)
  have sgn: "digit_val (CHR ''-'') = None" "digit_val (CHR ''+'') = None"
    by (simp_all add: digit_val_def Let_def)
  have "hd (nat_text (nat i)) \<noteq> CHR ''-''" "hd (nat_text (nat i)) \<noteq> CHR ''+''"
    using nat_text_hd [of "nat i"] sgn by metis+
  with False n p nat_text_hd [of "nat i"] show ?thesis
    by (auto simp: Itoa_def Atoi_def neq_Nil_conv)
qed

end
