(* ===== verification/Json.thy ===== *)
theory Json
  imports GoStrings
begin

text \<open>
  \<open>encoding/json\<close> as the HTTP handlers use it: \<open>Decoder.Decode\<close> of a request body limited by
  \<open>http.MaxBytesReader\<close> into a structure with string and boolean fields, and \<open>Encoder.Encode\<close> of the
  responses. A number is kept as its text; no handler reads one.
\<close>

section \<open>Values and their text\<close>

datatype json = JNull | JBool bool | JNum string | JStr string | JArr "json list" | JObj "(string \<times> json) list"

definition is_ws :: "char \<Rightarrow> bool" where
  "is_ws c \<longleftrightarrow> of_char c \<in> {32, 9, 10, 13 :: nat}"

definition skip_ws :: "string \<Rightarrow> string" where
  "skip_ws s = dropWhile is_ws s"

lemma length_skip_ws: "length (skip_ws s) \<le> length s"
  by (simp add: skip_ws_def length_dropWhile_le)

abbreviation quote :: char where "quote \<equiv> CHR 0x22"
abbreviation backslash :: char where "backslash \<equiv> CHR 0x5C"

text \<open>The four digits of a \<open>\u\<close> escape and what follows them.\<close>

fun hex4 :: "string \<Rightarrow> (nat \<times> string) option" where
  "hex4 (a # b # c # d # rest) =
     (case (hex_val a, hex_val b, hex_val c, hex_val d) of
        (Some x, Some y, Some z, Some u) \<Rightarrow> Some (((x * 16 + y) * 16 + z) * 16 + u, rest)
      | _ \<Rightarrow> None)"
| "hex4 _ = None"

lemma hex4_length: "hex4 s = Some (r, t) \<Longrightarrow> length s = length t + 4"
  by (cases s rule: hex4.cases) (auto split: option.splits)

text \<open>A low surrogate escaped right after a high one, and the rune the two stand for.\<close>

definition surrogate_pair :: "nat \<Rightarrow> string \<Rightarrow> (nat \<times> string) option" where
  "surrogate_pair r s =
     (case s of
        b # u # t \<Rightarrow>
          if b = backslash \<and> u = CHR ''u'' then
            (case hex4 t of
               Some (r2, rest) \<Rightarrow>
                 if 55296 \<le> r \<and> r < 56320 \<and> 56320 \<le> r2 \<and> r2 < 57344
                 then Some (65536 + (r - 55296) * 1024 + (r2 - 56320), rest) else None
             | None \<Rightarrow> None)
          else None
      | _ \<Rightarrow> None)"

lemma surrogate_pair_length: "surrogate_pair r s = Some (r', t) \<Longrightarrow> length t < length s"
  by (auto simp: surrogate_pair_def split: list.splits if_splits option.splits dest!: hex4_length)

definition escape_value :: "char \<Rightarrow> string option" where
  "escape_value c =
     (if c = quote \<or> c = backslash \<or> c = CHR ''/'' then Some [c]
      else if c = CHR ''b'' then Some [CHR 0x08] else if c = CHR ''f'' then Some [CHR 0x0C]
      else if c = CHR ''n'' then Some [CHR 0x0A] else if c = CHR ''r'' then Some [CHR 0x0D]
      else if c = CHR ''t'' then Some [CHR 0x09] else None)"

definition emit :: "string \<Rightarrow> (string \<times> string) option \<Rightarrow> (string \<times> string) option" where
  "emit x r = (case r of None \<Rightarrow> None | Some (t, rest) \<Rightarrow> Some (x @ t, rest))"

text \<open>The text of a string literal after its opening quote, and what follows the closing one.\<close>

function json_chars :: "string \<Rightarrow> (string \<times> string) option" where
  "json_chars [] = None"
| "json_chars (c # cs) =
     (if c = quote then Some ([], cs)
      else if c = backslash then
        (case cs of
           [] \<Rightarrow> None
         | e # es \<Rightarrow>
             if e = CHR ''u'' then
               (case hex4 es of
                  None \<Rightarrow> None
                | Some (r, rest) \<Rightarrow>
                    (case surrogate_pair r rest of
                       Some (r', rest') \<Rightarrow> emit (utf8_encode r') (json_chars rest')
                     | None \<Rightarrow> emit (utf8_encode r) (json_chars rest)))
             else (case escape_value e of None \<Rightarrow> None | Some x \<Rightarrow> emit x (json_chars es)))
      else if of_char c < (32 :: nat) then None
      else if of_char c < (128 :: nat) then emit [c] (json_chars cs)
      else (case decode_rune c cs of (r, w) \<Rightarrow> emit (utf8_encode r) (json_chars (drop (w - 1) cs))))"
  by pat_completeness auto
termination
  by (relation "measure length") (auto dest!: hex4_length surrogate_pair_length)

lemma emit_Some: "emit x r = Some (t, rest) \<longleftrightarrow> (\<exists>t'. r = Some (t', rest) \<and> t = x @ t')"
  by (auto simp: emit_def split: option.splits)

lemma json_chars_length: "json_chars s = Some (t, rest) \<Longrightarrow> length rest < length s"
proof (induction "length s" arbitrary: s t rest rule: less_induct)
  case less
  have ih: "json_chars u = Some (t', rest) \<Longrightarrow> length u < length s \<longrightarrow> length rest < length u" for u t'
    using less.hyps [of u t' rest] by simp
  show ?case
  proof (cases s)
    case (Cons c cs)
    with less.prems show ?thesis
      by (auto simp: emit_Some split: if_splits list.splits option.splits prod.splits
          dest!: hex4_length surrogate_pair_length ih)
  qed (use less.prems in simp)
qed

text \<open>Numbers: the longest prefix of the form the grammar has, \<open>None\<close> when there is none.\<close>

definition digits1 :: "string \<Rightarrow> (string \<times> string) option" where
  "digits1 s = (if takeWhile is_digit s = [] then None else Some (takeWhile is_digit s, dropWhile is_digit s))"

definition number_int :: "string \<Rightarrow> (string \<times> string) option" where
  "number_int s = (case s of [] \<Rightarrow> None | c # cs \<Rightarrow> if c = CHR ''0'' then Some ([c], cs) else digits1 s)"

definition number_frac :: "string \<Rightarrow> (string \<times> string) option" where
  "number_frac s = (case s of c # cs \<Rightarrow> if c = CHR ''.'' then emit [c] (digits1 cs) else Some ([], s) | [] \<Rightarrow> Some ([], s))"

definition number_exp :: "string \<Rightarrow> (string \<times> string) option" where
  "number_exp s =
     (case s of
        c # cs \<Rightarrow>
          if c = CHR ''e'' \<or> c = CHR ''E'' then
            (case cs of
               d # ds \<Rightarrow> if d = CHR ''+'' \<or> d = CHR ''-'' then emit [c, d] (digits1 ds) else emit [c] (digits1 cs)
             | [] \<Rightarrow> None)
          else Some ([], s)
      | [] \<Rightarrow> Some ([], s))"

definition number_rest :: "string \<Rightarrow> (string \<times> string) option" where
  "number_rest s =
     (case number_int s of None \<Rightarrow> None | Some (i, s1) \<Rightarrow>
     (case number_frac s1 of None \<Rightarrow> None | Some (f, s2) \<Rightarrow>
     (case number_exp s2 of None \<Rightarrow> None | Some (e, s3) \<Rightarrow> Some (i @ f @ e, s3))))"

definition json_number :: "string \<Rightarrow> (string \<times> string) option" where
  "json_number s =
     (case s of [] \<Rightarrow> None | c # cs \<Rightarrow> if c = CHR ''-'' then emit [c] (number_rest cs) else number_rest s)"

lemma digits1_length: "digits1 s = Some (d, t) \<Longrightarrow> length t < length s"
proof -
  assume "digits1 s = Some (d, t)"
  then have "takeWhile is_digit s \<noteq> []" "t = dropWhile is_digit s" by (auto simp: digits1_def split: if_splits)
  then show ?thesis
    by (metis append_Nil length_append length_greater_0_conv less_add_same_cancel2 takeWhile_dropWhile_id)
qed

lemma number_rest_length: "number_rest s = Some (d, t) \<Longrightarrow> length t < length s"
proof -
  have i: "number_int s = Some (d, t) \<Longrightarrow> length t < length s" for s d t
    by (auto simp: number_int_def split: list.splits if_splits dest: digits1_length)
  have f: "number_frac s = Some (d, t) \<Longrightarrow> length t \<le> length s" for s d t
    by (auto simp: number_frac_def emit_Some split: list.splits if_splits dest: digits1_length)
  have e: "number_exp s = Some (d, t) \<Longrightarrow> length t \<le> length s" for s d t
    by (auto simp: number_exp_def emit_Some split: list.splits if_splits dest!: digits1_length)
  assume "number_rest s = Some (d, t)"
  then show ?thesis by (auto simp: number_rest_def split: option.splits dest!: i f e)
qed

lemma json_number_length: "json_number s = Some (d, t) \<Longrightarrow> length t < length s"
  by (auto simp: json_number_def emit_Some split: list.splits if_splits dest: number_rest_length)

text \<open>
  A value, the members of an object after its opening brace and the elements of an array. Every
  call but the first of an array is on a shorter text than its caller's, so twice the length of the
  text is enough fuel; that more makes no difference is shown below.
\<close>

definition literal :: "string \<Rightarrow> json \<Rightarrow> string \<Rightarrow> (json \<times> string) option" where
  "literal name v s = map_option (Pair v) (cut_prefix name s)"

fun json_value :: "nat \<Rightarrow> string \<Rightarrow> (json \<times> string) option"
  and json_members :: "nat \<Rightarrow> string \<Rightarrow> ((string \<times> json) list \<times> string) option"
  and json_elements :: "nat \<Rightarrow> string \<Rightarrow> (json list \<times> string) option" where
  "json_value 0 s = None"
| "json_value (Suc k) s =
     (case skip_ws s of
        [] \<Rightarrow> None
      | c # cs \<Rightarrow>
          if c = CHR ''{'' then
            (case skip_ws cs of
               [] \<Rightarrow> None
             | d # ds \<Rightarrow>
                 if d = CHR ''}'' then Some (JObj [], ds)
                 else (case json_members k (d # ds) of None \<Rightarrow> None | Some (ms, r) \<Rightarrow> Some (JObj ms, r)))
          else if c = CHR ''['' then
            (case skip_ws cs of
               [] \<Rightarrow> None
             | d # ds \<Rightarrow>
                 if d = CHR '']'' then Some (JArr [], ds)
                 else (case json_elements k (d # ds) of None \<Rightarrow> None | Some (vs, r) \<Rightarrow> Some (JArr vs, r)))
          else if c = quote then (case json_chars cs of None \<Rightarrow> None | Some (t, r) \<Rightarrow> Some (JStr t, r))
          else if c = CHR ''t'' then literal ''true'' (JBool True) (c # cs)
          else if c = CHR ''f'' then literal ''false'' (JBool False) (c # cs)
          else if c = CHR ''n'' then literal ''null'' JNull (c # cs)
          else (case json_number (c # cs) of None \<Rightarrow> None | Some (t, r) \<Rightarrow> Some (JNum t, r)))"
| "json_members 0 s = None"
| "json_members (Suc k) s =
     (case skip_ws s of
        [] \<Rightarrow> None
      | c # cs \<Rightarrow>
          if c \<noteq> quote then None else
     (case json_chars cs of
        None \<Rightarrow> None
      | Some (key, r) \<Rightarrow>
     (case skip_ws r of
        [] \<Rightarrow> None
      | d # ds \<Rightarrow>
          if d \<noteq> CHR '':'' then None else
     (case json_value k ds of
        None \<Rightarrow> None
      | Some (v, r2) \<Rightarrow>
     (case skip_ws r2 of
        [] \<Rightarrow> None
      | e # es \<Rightarrow>
          if e = CHR ''}'' then Some ([(key, v)], es)
          else if e = CHR '','' then
            (case json_members k es of None \<Rightarrow> None | Some (ms, r3) \<Rightarrow> Some ((key, v) # ms, r3))
          else None)))))"
| "json_elements 0 s = None"
| "json_elements (Suc k) s =
     (case json_value k s of
        None \<Rightarrow> None
      | Some (v, r) \<Rightarrow>
     (case skip_ws r of
        [] \<Rightarrow> None
      | e # es \<Rightarrow>
          if e = CHR '']'' then Some ([v], es)
          else if e = CHR '','' then
            (case json_elements k es of None \<Rightarrow> None | Some (vs, r3) \<Rightarrow> Some (v # vs, r3))
          else None))"

lemma skip_ws_Cons: "skip_ws s = c # cs \<Longrightarrow> length cs < length s"
  using length_skip_ws [of s] by simp

lemma literal_length: "literal name v s = Some (v', r) \<Longrightarrow> name \<noteq> [] \<Longrightarrow> length r < length s"
  by (auto simp: literal_def cut_prefix_Some)

lemma json_length:
  "json_value k s = Some (v, r) \<Longrightarrow> length r < length s"
  "json_members k s = Some (ms, r) \<Longrightarrow> length r < length s"
  "json_elements k s = Some (vs, r) \<Longrightarrow> length r < length s"
proof (induction k arbitrary: s v ms vs r)
  case (Suc k)
  {
    case 1
    then show ?case
      by (auto split: list.splits if_splits option.splits
          dest!: skip_ws_Cons Suc.IH(2,3) json_chars_length literal_length json_number_length)
  next
    case 2
    then show ?case
      by (auto split: list.splits if_splits option.splits dest!: skip_ws_Cons Suc.IH(1,2) json_chars_length)
  next
    case 3
    then show ?case
      by (auto split: list.splits if_splits option.splits dest!: skip_ws_Cons Suc.IH(1,3))
  }
qed simp_all

text \<open>Twice the length of the text is enough fuel.\<close>

lemma json_empty: "json_value n [] = None" "json_members n [] = None"
  by (cases n; simp add: skip_ws_def)+

lemma json_fuel:
  "2 * length s \<le> k \<Longrightarrow> 2 * length s \<le> k' \<Longrightarrow> json_value k s = json_value k' s"
  "2 * length s \<le> k \<Longrightarrow> 2 * length s \<le> k' \<Longrightarrow> json_members k s = json_members k' s"
  "2 * length s < k \<Longrightarrow> 2 * length s < k' \<Longrightarrow> json_elements k s = json_elements k' s"
proof (induction k arbitrary: s k')
  case 0
  {
    case 1
    then show ?case using json_empty by simp
  next
    case 2
    then show ?case using json_empty by simp
  next
    case 3
    then show ?case by simp
  }
next
  case (Suc k)
  {
    case 1
    show ?case
    proof (cases k')
      case (Suc j)
      have "json_members k (d # ds) = json_members j (d # ds) \<and> json_elements k (d # ds) = json_elements j (d # ds)"
        if "skip_ws s = c # cs" "skip_ws cs = d # ds" for c cs d ds
        using 1 Suc skip_ws_Cons [OF that(1)] length_skip_ws [of cs] that(2)
        by (intro conjI Suc.IH(2,3)) simp_all
      then show ?thesis by (auto simp: Suc split: list.splits)
    qed (use 1 json_empty in simp)
  next
    case 2
    show ?case
    proof (cases k')
      case (Suc j)
      have v: "json_value k ds = json_value j ds"
        if "skip_ws s = c # cs" "json_chars cs = Some (t, r)" "skip_ws r = d # ds" for c cs t r d ds
        using 2 Suc skip_ws_Cons [OF that(1)] json_chars_length [OF that(2)] skip_ws_Cons [OF that(3)]
        by (intro Suc.IH(1)) simp_all
      have m: "json_members k es = json_members j es"
        if "skip_ws s = c # cs" "json_chars cs = Some (t, r)" "skip_ws r = d # ds" "json_value j ds = Some (x, r2)"
          "skip_ws r2 = e # es" for c cs t r d ds x r2 e es
        using 2 Suc skip_ws_Cons [OF that(1)] json_chars_length [OF that(2)] skip_ws_Cons [OF that(3)]
          json_length(1) [OF that(4)] skip_ws_Cons [OF that(5)]
        by (intro Suc.IH(2)) simp_all
      show ?thesis by (auto simp: Suc v m split: list.splits option.splits)
    qed (use 2 json_empty in simp)
  next
    case 3
    show ?case
    proof (cases k')
      case (Suc j)
      have v: "json_value k s = json_value j s" using 3 Suc by (intro Suc.IH(1)) simp_all
      have "json_elements k es = json_elements j es" if "json_value j s = Some (x, r)" "skip_ws r = e # es" for x r e es
        using 3 Suc json_length(1) [OF that(1)] skip_ws_Cons [OF that(2)] by (intro Suc.IH(3)) simp_all
      then show ?thesis by (auto simp: Suc v split: list.splits option.splits)
    qed (use 3 in simp)
  }
qed

definition json_parse :: "string \<Rightarrow> (json \<times> string) option" where
  "json_parse s = json_value (2 * length s) s"

section \<open>Decoding a request body\<close>

text \<open>
  The fields of a structure with their names in JSON. A member sets the field of its name, or else
  the one whose name differs in case only; \<open>null\<close> sets nothing, a value of another type is an error
  and an unknown member is skipped.
\<close>

datatype field_type = FString | FBool

type_synonym fields = "(string \<times> field_type) list"

text \<open>The case folding \<open>encoding/json\<close> uses, for names in ASCII letters: \<open>U+017F\<close> is an \<open>s\<close>, \<open>U+212A\<close> a \<open>k\<close>.\<close>

definition fold_rune :: "nat \<Rightarrow> nat" where
  "fold_rune r = (if 97 \<le> r \<and> r \<le> 122 then r - 32 else if r = 383 then 83 else if r = 8490 then 75 else r)"

definition fold_name :: "string \<Rightarrow> nat list" where
  "fold_name s = map fold_rune (runes s)"

definition field_for :: "fields \<Rightarrow> string \<Rightarrow> (string \<times> field_type) option" where
  "field_for fs key =
     (case find (\<lambda>f. fst f = key) fs of Some f \<Rightarrow> Some f | None \<Rightarrow> find (\<lambda>f. fold_name (fst f) = fold_name key) fs)"

type_synonym decoded = "string \<rightharpoonup> json"

text \<open>The fields set so far, and whether some value had the wrong type.\<close>

definition set_field :: "fields \<Rightarrow> decoded \<times> bool \<Rightarrow> string \<times> json \<Rightarrow> decoded \<times> bool" where
  "set_field fs st m =
     (case (st, m) of ((d, bad), (key, v)) \<Rightarrow>
        (case field_for fs key of
           None \<Rightarrow> (d, bad)
         | Some (f, ty) \<Rightarrow>
             (case v of
                JNull \<Rightarrow> (d, bad)
              | JStr _ \<Rightarrow> if ty = FString then (d(f \<mapsto> v), bad) else (d, True)
              | JBool _ \<Rightarrow> if ty = FBool then (d(f \<mapsto> v), bad) else (d, True)
              | _ \<Rightarrow> (d, True))))"

definition decode_value :: "fields \<Rightarrow> json \<Rightarrow> decoded option" where
  "decode_value fs v =
     (case v of
        JObj ms \<Rightarrow> (case foldl (set_field fs) (Map.empty, False) ms of (d, bad) \<Rightarrow> if bad then None else Some d)
      | JNull \<Rightarrow> Some Map.empty
      | _ \<Rightarrow> None)"

text \<open>
  \<open>json.NewDecoder(http.MaxBytesReader(w, body, limit)).Decode(&req)\<close>: the first value of the body,
  which has to end within the limit; what follows it is not read. A \<open>null\<close> only ends where the next
  byte or the end of the body is seen.
\<close>

definition decode_body :: "nat \<Rightarrow> fields \<Rightarrow> string \<Rightarrow> decoded option" where
  "decode_body limit fs body =
     (case json_parse (take limit body) of
        None \<Rightarrow> None
      | Some (v, rest) \<Rightarrow> if v = JNull \<and> rest = [] \<and> limit < length body then None else decode_value fs v)"

definition str_field :: "decoded \<Rightarrow> string \<Rightarrow> string" where
  "str_field d f = (case d f of Some (JStr s) \<Rightarrow> s | _ \<Rightarrow> [])"

definition bool_field :: "decoded \<Rightarrow> string \<Rightarrow> bool" where
  "bool_field d f = (case d f of Some (JBool b) \<Rightarrow> b | _ \<Rightarrow> False)"

section \<open>Encoding a response\<close>

definition escape_rune :: "nat \<times> string \<Rightarrow> string" where
  "escape_rune x =
     (case x of (r, bs) \<Rightarrow>
      if r < 128 then
        (if bs = [quote] \<or> bs = [backslash] then backslash # bs
         else if r = 8 then backslash # ''b'' else if r = 12 then backslash # ''f''
         else if r = 10 then backslash # ''n'' else if r = 13 then backslash # ''r''
         else if r = 9 then backslash # ''t''
         else if r < 32 \<or> r \<in> {60, 62, 38} then backslash # ''u00'' @ [hex_digit (r div 16), hex_digit (r mod 16)]
         else bs)
      else if r = 65533 \<and> length bs = 1 then backslash # ''ufffd''
      else if r = 8232 then backslash # ''u2028'' else if r = 8233 then backslash # ''u2029''
      else bs)"

definition json_quote :: "string \<Rightarrow> string" where
  "json_quote s = quote # concat (map escape_rune (rune_chunks s)) @ [quote]"

fun json_text :: "json \<Rightarrow> string" and members_text :: "(string \<times> json) list \<Rightarrow> string"
  and elements_text :: "json list \<Rightarrow> string" where
  "json_text JNull = ''null''"
| "json_text (JBool b) = (if b then ''true'' else ''false'')"
| "json_text (JNum t) = t"
| "json_text (JStr s) = json_quote s"
| "json_text (JArr vs) = ''['' @ elements_text vs @ '']''"
| "json_text (JObj ms) = ''{'' @ members_text ms @ ''}''"
| "members_text [] = []"
| "members_text [(key, v)] = json_quote key @ '':'' @ json_text v"
| "members_text ((key, v) # m # ms) = json_quote key @ '':'' @ json_text v @ '','' @ members_text (m # ms)"
| "elements_text [] = []"
| "elements_text [v] = json_text v"
| "elements_text (v # u # vs) = json_text v @ '','' @ elements_text (u # vs)"

section \<open>What is encoded is decoded\<close>

lemma sextet [simp]: "y < 64 \<Longrightarrow> (x * 64 + y) div 64 = (x :: nat)" "y < 64 \<Longrightarrow> (x * 64 + y) mod 64 = y"
  by simp_all

lemma utf8_encode_2:
  assumes "2 \<le> x" "x < 32" "y < 64"
  shows "utf8_encode (x * 64 + y) = [char_of (192 + x), char_of (128 + y)]"
proof -
  have "128 \<le> x * 64 + y" "x * 64 + y < 2048" using assms by linarith+
  with sextet [OF assms(3), of x] show ?thesis by (simp add: utf8_encode_def is_surrogate_def Let_def)
qed

lemma utf8_encode_3:
  assumes "x < 16" "y < 64" "z < 64" "x = 0 \<Longrightarrow> 32 \<le> y" "x = 13 \<Longrightarrow> y < 32"
  shows "utf8_encode (x * 4096 + y * 64 + z) = [char_of (224 + x), char_of (128 + y), char_of (128 + z)]"
proof -
  define r where "r = x * 4096 + y * 64 + z"
  have "r = (x * 64 + y) * 64 + z" by (simp add: r_def algebra_simps)
  then have r: "r mod 64 = z" "r div 64 = x * 64 + y" using sextet [OF assms(3)] by metis+
  moreover have "r div 4096 = r div 64 div 64" by (simp add: div_mult2_eq [symmetric])
  ultimately have "r div 4096 = x" "r div 64 mod 64 = y" using sextet [OF assms(2), of x] by simp_all
  moreover have "2048 \<le> r" "r < 65536" using assms by (cases "x = 0"; simp add: r_def)+
  moreover have "\<not> is_surrogate r"
  proof (cases x "13 :: nat" rule: linorder_cases)
    case equal
    then show ?thesis using assms by (simp add: is_surrogate_def r_def)
  qed (use assms in \<open>auto simp: is_surrogate_def r_def\<close>)
  ultimately show ?thesis using r(1) by (simp add: utf8_encode_def Let_def flip: r_def)
qed

lemma utf8_encode_4:
  assumes "x < 5" "y < 64" "z < 64" "u < 64" "x = 0 \<Longrightarrow> 16 \<le> y" "x = 4 \<Longrightarrow> y < 16"
  shows "utf8_encode (x * 262144 + y * 4096 + z * 64 + u) =
    [char_of (240 + x), char_of (128 + y), char_of (128 + z), char_of (128 + u)]"
proof -
  define r where "r = x * 262144 + y * 4096 + z * 64 + u"
  have "r = ((x * 64 + y) * 64 + z) * 64 + u" by (simp add: r_def algebra_simps)
  then have r: "r mod 64 = u" "r div 64 = (x * 64 + y) * 64 + z" using sextet [OF assms(4)] by metis+
  then have r2: "r div 64 mod 64 = z" "r div 64 div 64 = x * 64 + y" using sextet [OF assms(3), of "x * 64 + y"] by simp_all
  have "r div 4096 = r div 64 div 64" "r div 262144 = r div 64 div 64 div 64" by (simp_all add: div_mult2_eq [symmetric])
  then have "r div 4096 mod 64 = y" "r div 262144 = x" using r2(2) sextet [OF assms(2), of x] by simp_all
  moreover have "65536 \<le> r" using assms by (cases "x = 0") (simp_all add: r_def)
  moreover have "r \<le> 1114111" using assms by (cases "x = 4") (simp_all add: r_def)
  ultimately show ?thesis using r(1) r2(1) by (simp add: utf8_encode_def is_surrogate_def Let_def flip: r_def)
qed

lemma cont_char: "cont lo hi c \<Longrightarrow> 128 \<le> lo \<Longrightarrow> char_of (128 + (of_char c - 128 :: nat)) = c"
  by (simp add: cont_def)

lemma decode_rune_2_4:
  assumes "decode_rune c cs = (r, w)" "128 \<le> (of_char c :: nat)" "\<not> (r = 65533 \<and> w = 1)"
  obtains c1 ds where "cs = c1 # ds" "w = 2" "194 \<le> (of_char c :: nat)" "(of_char c :: nat) \<le> 223" "cont 128 191 c1"
      "r = (of_char c - 192) * 64 + (of_char c1 - 128)"
  | c1 c2 ds where "cs = c1 # c2 # ds" "w = 3" "224 \<le> (of_char c :: nat)" "(of_char c :: nat) \<le> 239"
      "cont (if (of_char c :: nat) = 224 then 160 else 128) (if (of_char c :: nat) = 237 then 159 else 191) c1" "cont 128 191 c2"
      "r = (of_char c - 224) * 4096 + (of_char c1 - 128) * 64 + (of_char c2 - 128)"
  | c1 c2 c3 ds where "cs = c1 # c2 # c3 # ds" "w = 4" "240 \<le> (of_char c :: nat)" "(of_char c :: nat) \<le> 244"
      "cont (if (of_char c :: nat) = 240 then 144 else 128) (if (of_char c :: nat) = 244 then 143 else 191) c1"
      "cont 128 191 c2" "cont 128 191 c3"
      "r = (of_char c - 240) * 262144 + (of_char c1 - 128) * 4096 + (of_char c2 - 128) * 64 + (of_char c3 - 128)"
proof -
  define b where "b = (of_char c :: nat)"
  consider "194 \<le> b" "b \<le> 223" | "224 \<le> b" "b \<le> 239" | "240 \<le> b" "b \<le> 244" | "b < 194 \<or> 244 < b" by linarith
  then show thesis
  proof cases
    case 1
    then have "decode_rune c cs = (case cs of
           c1 # _ \<Rightarrow> if cont 128 191 c1 then ((b - 192) * 64 + (of_char c1 - 128), 2) else (65533, 1)
         | _ \<Rightarrow> (65533, 1))"
      by (simp only: decode_rune_def Let_def b_def [symmetric]) simp
    with assms have "\<exists>c1 ds. cs = c1 # ds \<and> w = 2 \<and> cont 128 191 c1 \<and> r = (b - 192) * 64 + (of_char c1 - 128)"
      by (auto split: list.splits if_splits)
    with 1 that(1) show ?thesis by (auto simp: b_def)
  next
    case 2
    let ?lo = "if b = 224 then 160 else 128" and ?hi = "if b = 237 then 159 else 191"
    from 2 have "decode_rune c cs = (case cs of
           c1 # c2 # _ \<Rightarrow> if cont ?lo ?hi c1 \<and> cont 128 191 c2
             then ((b - 224) * 4096 + (of_char c1 - 128) * 64 + (of_char c2 - 128), 3) else (65533, 1)
         | _ \<Rightarrow> (65533, 1))"
      by (simp only: decode_rune_def Let_def b_def [symmetric]) simp
    with assms have "\<exists>c1 c2 ds. cs = c1 # c2 # ds \<and> w = 3 \<and> cont ?lo ?hi c1 \<and> cont 128 191 c2 \<and>
        r = (b - 224) * 4096 + (of_char c1 - 128) * 64 + (of_char c2 - 128)"
      by (auto split: list.splits if_split_asm)
    with 2 that(2) show ?thesis by (auto simp only: b_def)
  next
    case 3
    let ?lo = "if b = 240 then 144 else 128" and ?hi = "if b = 244 then 143 else 191"
    from 3 have "decode_rune c cs = (case cs of
           c1 # c2 # c3 # _ \<Rightarrow> if cont ?lo ?hi c1 \<and> cont 128 191 c2 \<and> cont 128 191 c3
             then ((b - 240) * 262144 + (of_char c1 - 128) * 4096 + (of_char c2 - 128) * 64 + (of_char c3 - 128), 4)
             else (65533, 1)
         | _ \<Rightarrow> (65533, 1))"
      by (simp only: decode_rune_def Let_def b_def [symmetric]) simp
    with assms have "\<exists>c1 c2 c3 ds. cs = c1 # c2 # c3 # ds \<and> w = 4 \<and> cont ?lo ?hi c1 \<and> cont 128 191 c2 \<and> cont 128 191 c3 \<and>
        r = (b - 240) * 262144 + (of_char c1 - 128) * 4096 + (of_char c2 - 128) * 64 + (of_char c3 - 128)"
      by (auto split: list.splits if_split_asm)
    with 3 that(3) show ?thesis by (auto simp only: b_def)
  next
    case 4
    with assms show ?thesis by (auto simp: decode_rune_def Let_def simp flip: b_def)
  qed
qed

text \<open>A valid sequence of bytes is the encoding of its rune, and is read whatever follows it.\<close>

lemma utf8_encode_decode:
  assumes "decode_rune c cs = (r, w)" "128 \<le> (of_char c :: nat)" "\<not> (r = 65533 \<and> w = 1)"
  shows "utf8_encode r = c # take (w - 1) cs" and "decode_rune c (take (w - 1) cs @ t) = (r, w)"
proof -
  have *: "utf8_encode r = c # take (w - 1) cs \<and> decode_rune c (take (w - 1) cs @ t) = (r, w)"
    using assms
  proof (cases rule: decode_rune_2_4)
    case (1 c1 ds)
    then have "utf8_encode r = [char_of (192 + (of_char c - 192 :: nat)), char_of (128 + (of_char c1 - 128 :: nat))]"
      unfolding 1(6) by (intro utf8_encode_2) (auto simp: cont_def)
    with 1 cont_char [OF 1(5)] show ?thesis by (simp add: decode_rune_def Let_def)
  next
    case (2 c1 c2 ds)
    then have c1: "cont 128 191 c1" by (auto simp: cont_def split: if_splits)
    have "utf8_encode r = [char_of (224 + (of_char c - 224 :: nat)), char_of (128 + (of_char c1 - 128 :: nat)),
        char_of (128 + (of_char c2 - 128 :: nat))]"
      unfolding 2(7) using 2 c1 by (intro utf8_encode_3) (auto simp: cont_def split: if_splits)
    with 2 cont_char [OF c1] cont_char [OF 2(6)] show ?thesis by (simp add: decode_rune_def Let_def)
  next
    case (3 c1 c2 c3 ds)
    then have c1: "cont 128 191 c1" by (auto simp: cont_def split: if_splits)
    have "utf8_encode r = [char_of (240 + (of_char c - 240 :: nat)), char_of (128 + (of_char c1 - 128 :: nat)),
        char_of (128 + (of_char c2 - 128 :: nat)), char_of (128 + (of_char c3 - 128 :: nat))]"
      unfolding 3(8) using 3 c1 by (intro utf8_encode_4) (auto simp: cont_def split: if_splits)
    with 3 cont_char [OF c1] cont_char [OF 3(6)] cont_char [OF 3(7)] show ?thesis
      by (simp add: decode_rune_def Let_def)
  qed
  from * show "utf8_encode r = c # take (w - 1) cs" "decode_rune c (take (w - 1) cs @ t) = (r, w)" by simp_all
qed

lemma json_chars_ascii:
  assumes "of_char c < (128 :: nat)"
  shows "json_chars (escape_rune (of_char c, [c]) @ t) = emit [c] (json_chars t)"
proof -
  define n where "n = (of_char c :: nat)"
  have code: "n = k \<Longrightarrow> of_char d = k \<Longrightarrow> c = d" for k d using of_char_eq_iff [of c d] n_def by metis
  consider "n = 34 \<or> n = 92" | "n \<in> {8, 9, 10, 12, 13}" | "n < 32 \<or> n \<in> {60, 62, 38}" "n \<notin> {8, 9, 10, 12, 13}"
    | "32 \<le> n" "n \<notin> {34, 92, 60, 62, 38}" by fastforce
  then show ?thesis
  proof cases
    case 1
    then have "c = quote \<or> c = backslash" using code [of 34 quote] code [of 92 backslash] by auto
    then show ?thesis by (auto simp: escape_rune_def escape_value_def)
  next
    case 2
    then have "c = CHR 0x08 \<or> c = CHR 0x09 \<or> c = CHR 0x0A \<or> c = CHR 0x0C \<or> c = CHR 0x0D"
      using code [of 8 "CHR 0x08"] code [of 9 "CHR 0x09"] code [of 10 "CHR 0x0A"] code [of 12 "CHR 0x0C"]
        code [of 13 "CHR 0x0D"] by auto
    then show ?thesis by (elim disjE) (simp_all add: escape_rune_def escape_value_def)
  next
    case 3
    have q: "c \<noteq> quote" "c \<noteq> backslash" using 3 n_def by auto
    have lt: "n div 16 < 16" "n mod 16 < 16" using assms n_def by auto
    have "hex_val (CHR ''0'') = Some 0" by (simp add: hex_val_def digit_val_def)
    then have "hex4 (CHR ''0'' # CHR ''0'' # hex_digit (n div 16) # hex_digit (n mod 16) # t) = Some (n div 16 * 16 + n mod 16, t)"
      using lt by simp
    then have h: "hex4 (CHR ''0'' # CHR ''0'' # hex_digit (n div 16) # hex_digit (n mod 16) # t) = Some (n, t)" by simp
    have "surrogate_pair n t = None"
      using assms n_def by (auto simp: surrogate_pair_def split: list.splits option.splits)
    moreover have "utf8_encode n = [c]" using assms n_def by (simp add: utf8_encode_def is_surrogate_def Let_def)
    ultimately show ?thesis using 3 assms h q by (auto simp: escape_rune_def simp flip: n_def)
  next
    case 4
    have "c \<noteq> quote" "c \<noteq> backslash" using 4 n_def by auto
    with 4 assms show ?thesis by (simp add: escape_rune_def flip: n_def)
  qed
qed

lemma json_chars_rune:
  assumes "decode_rune c cs = (r, w)" "128 \<le> (of_char c :: nat)" "\<not> (r = 65533 \<and> w = 1)"
  shows "json_chars (escape_rune (r, c # take (w - 1) cs) @ t) = emit (c # take (w - 1) cs) (json_chars t)"
proof -
  note e = utf8_encode_decode [OF assms]
  have r: "128 \<le> r"
  proof (rule ccontr)
    assume "\<not> 128 \<le> r"
    then have "utf8_encode r = [char_of r]" by (simp add: utf8_encode_def is_surrogate_def Let_def)
    with e(1) have "c = char_of r" by simp
    with \<open>\<not> 128 \<le> r\<close> assms(2) show False by (simp add: of_char_mod_256)
  qed
  have w: "2 \<le> w" using assms by (auto simp: decode_rune_def Let_def split: if_splits list.splits)
  consider "r = 8232" | "r = 8233" | "r \<noteq> 8232" "r \<noteq> 8233" by blast
  then show ?thesis
  proof cases
    case 1
    have "surrogate_pair 8232 t = None" by (auto simp: surrogate_pair_def split: list.splits option.splits)
    with 1 e(1) show ?thesis by (simp add: escape_rune_def hex_val_def digit_val_def)
  next
    case 2
    have "surrogate_pair 8233 t = None" by (auto simp: surrogate_pair_def split: list.splits option.splits)
    with 2 e(1) show ?thesis by (simp add: escape_rune_def hex_val_def digit_val_def)
  next
    case 3
    have q: "c \<noteq> quote" "c \<noteq> backslash" using assms(2) by auto
    have "escape_rune (r, c # take (w - 1) cs) = c # take (w - 1) cs"
      using 3 r w decode_rune_bound [OF assms(1)] by (auto simp: escape_rune_def min_def)
    moreover have "drop (w - 1) (take (w - 1) cs @ t) = t" using decode_rune_bound [OF assms(1)] by simp
    ultimately show ?thesis using e(2) [of t] assms(2) q e(1) by simp
  qed
qed

lemma json_chars_escaped:
  "utf8_ok s \<Longrightarrow> json_chars (concat (map escape_rune (rune_chunks s)) @ quote # rest) = Some (s, rest)"
proof (induction s rule: rune_chunks.induct)
  case (2 c cs)
  obtain r w where d: "decode_rune c cs = (r, w)" by (cases "decode_rune c cs")
  from "2.prems" d have ok: "\<not> (r = 65533 \<and> w = 1)" "utf8_ok (drop (w - 1) cs)" by auto
  let ?t = "concat (map escape_rune (rune_chunks (drop (w - 1) cs))) @ quote # rest"
  have ih: "json_chars ?t = Some (drop (w - 1) cs, rest)" using "2.IH" d ok(2) by simp
  have "json_chars (escape_rune (r, c # take (w - 1) cs) @ ?t) = emit (c # take (w - 1) cs) (json_chars ?t)"
  proof (cases "of_char c < (128 :: nat)")
    case True
    then have "r = of_char c" "w = 1" using d by (simp_all add: decode_rune_def)
    with json_chars_ascii [OF True] show ?thesis by simp
  next
    case False
    then show ?thesis using json_chars_rune [OF d _ ok(1)] by simp
  qed
  then show ?case using d ih by (simp add: emit_def)
qed simp

text \<open>The values of a response: valid UTF-8 and no numbers.\<close>

fun json_ok :: "json \<Rightarrow> bool" and members_ok :: "(string \<times> json) list \<Rightarrow> bool" and elements_ok :: "json list \<Rightarrow> bool" where
  "json_ok JNull = True"
| "json_ok (JBool b) = True"
| "json_ok (JNum t) = False"
| "json_ok (JStr s) = utf8_ok s"
| "json_ok (JArr vs) = elements_ok vs"
| "json_ok (JObj ms) = members_ok ms"
| "members_ok [] = True"
| "members_ok ((key, v) # ms) = (utf8_ok key \<and> json_ok v \<and> members_ok ms)"
| "elements_ok [] = True"
| "elements_ok (v # vs) = (json_ok v \<and> elements_ok vs)"

lemma skip_ws_non [simp]: "\<not> is_ws c \<Longrightarrow> skip_ws (c # s) = c # s"
  by (simp add: skip_ws_def)

lemma json_text_start:
  "json_ok v \<Longrightarrow> \<exists>c s. json_text v = c # s \<and> \<not> is_ws c \<and> c \<noteq> CHR '']'' \<and> c \<noteq> CHR ''}''"
  by (cases v) (auto simp: json_quote_def is_ws_def)

lemma members_text_start:
  "ms \<noteq> [] \<Longrightarrow> \<exists>s. members_text ms = quote # s"
  by (cases ms rule: members_text.cases) (auto simp: json_quote_def)

lemma elements_text_start:
  "elements_ok vs \<Longrightarrow> vs \<noteq> [] \<Longrightarrow> \<exists>c s. elements_text vs = c # s \<and> \<not> is_ws c \<and> c \<noteq> CHR '']''"
  by (cases vs rule: elements_text.cases) (auto dest: json_text_start)

lemma json_roundtrip:
  "json_ok v \<Longrightarrow> 2 * length (json_text v @ rest) \<le> k \<Longrightarrow> json_value k (json_text v @ rest) = Some (v, rest)"
  "members_ok ms \<Longrightarrow> ms \<noteq> [] \<Longrightarrow> 2 * length (members_text ms @ CHR ''}'' # rest) \<le> k \<Longrightarrow>
     json_members k (members_text ms @ CHR ''}'' # rest) = Some (ms, rest)"
  "elements_ok vs \<Longrightarrow> vs \<noteq> [] \<Longrightarrow> 2 * length (elements_text vs @ CHR '']'' # rest) < k \<Longrightarrow>
     json_elements k (elements_text vs @ CHR '']'' # rest) = Some (vs, rest)"
proof (induction v and ms and vs arbitrary: k rest and k rest and k rest rule: json_text_members_text_elements_text.induct)
  case 1
  then show ?case by (cases k) (simp_all add: literal_def cut_prefix_def is_ws_def)
next
  case (2 b)
  then show ?case by (cases k; cases b) (simp_all add: literal_def cut_prefix_def is_ws_def)
next
  case (4 s)
  then show ?case by (cases k) (simp_all add: json_quote_def json_chars_escaped is_ws_def)
next
  case (5 vs)
  show ?case
  proof (cases "vs = []")
    case True
    with 5 show ?thesis by (cases k) (simp_all add: is_ws_def)
  next
    case False
    obtain c s where c: "elements_text vs = c # s" "\<not> is_ws c" "c \<noteq> CHR '']''"
      using elements_text_start [OF _ False] 5 by auto
    obtain j where j: "k = Suc j" using 5 by (cases k) simp_all
    have "json_elements j (elements_text vs @ CHR '']'' # rest) = Some (vs, rest)"
      using 5 False j by (intro "5.IH") simp_all
    with c j show ?thesis by (simp add: is_ws_def)
  qed
next
  case (6 ms)
  show ?case
  proof (cases "ms = []")
    case True
    with 6 show ?thesis by (cases k) (simp_all add: is_ws_def)
  next
    case False
    obtain s where c: "members_text ms = quote # s" using members_text_start [OF False] by auto
    obtain j where j: "k = Suc j" using 6 by (cases k) simp_all
    have "json_members j (members_text ms @ CHR ''}'' # rest) = Some (ms, rest)"
      using 6 False j by (intro "6.IH") simp_all
    with c j show ?thesis by (simp add: is_ws_def)
  qed
next
  case (8 key v)
  then obtain j where j: "k = Suc j" by (cases k) simp_all
  have "json_value j (json_text v @ CHR ''}'' # rest) = Some (v, CHR ''}'' # rest)"
    using 8 j by (intro "8.IH") simp_all
  with 8 j show ?case by (simp add: json_quote_def json_chars_escaped is_ws_def)
next
  case (9 key v m ms)
  then obtain j where j: "k = Suc j" by (cases k) simp_all
  let ?r = "members_text (m # ms) @ CHR ''}'' # rest"
  have "json_value j (json_text v @ CHR '','' # ?r) = Some (v, CHR '','' # ?r)"
    using 9 j by (intro "9.IH") simp_all
  moreover have "json_members j ?r = Some (m # ms, rest)"
    using 9 j by (intro "9.IH") simp_all
  ultimately show ?case using 9 j by (simp add: json_quote_def json_chars_escaped is_ws_def)
next
  case (11 v)
  then obtain j where j: "k = Suc j" by (cases k) simp_all
  have "json_value j (json_text v @ CHR '']'' # rest) = Some (v, CHR '']'' # rest)"
    using 11 j by (intro "11.IH") simp_all
  with j show ?case by (simp add: is_ws_def)
next
  case (12 v u vs)
  then obtain j where j: "k = Suc j" by (cases k) simp_all
  let ?r = "elements_text (u # vs) @ CHR '']'' # rest"
  have "json_value j (json_text v @ CHR '','' # ?r) = Some (v, CHR '','' # ?r)"
    using 12 j by (intro "12.IH") simp_all
  moreover have "json_elements j ?r = Some (u # vs, rest)"
    using 12 j by (intro "12.IH") simp_all
  ultimately show ?case using j by (simp add: is_ws_def)
qed simp_all

text \<open>A body that is the text of a value decodes as that value, if it is within the limit.\<close>

lemma decode_body_text:
  assumes "json_ok v" "length (json_text v) \<le> limit"
  shows "decode_body limit fs (json_text v) = decode_value fs v"
proof -
  have "json_parse (json_text v) = Some (v, [])" using json_roundtrip(1) [OF assms(1), of "[]"] by (simp add: json_parse_def)
  with assms(2) show ?thesis by (simp add: decode_body_def)
qed

lemma length_json_quote: "length (json_quote s) \<le> 6 * length s + 2"
proof -
  have e: "length (escape_rune x) \<le> 6 * length (snd x)" if "snd x \<noteq> []" for x
  proof -
    have "1 \<le> length (snd x)" using that by (cases "snd x") simp_all
    then show ?thesis by (auto simp: escape_rune_def split: prod.splits)
  qed
  have ne: "x \<in> set (rune_chunks u) \<Longrightarrow> snd x \<noteq> []" for x u
    by (induction u rule: rune_chunks.induct) (auto split: prod.splits)
  have "(\<forall>x \<in> set xs. snd x \<noteq> []) \<Longrightarrow> length (concat (map escape_rune xs)) \<le> 6 * length (chunk_text xs)" for xs
    by (induction xs) (auto dest: e)
  from this [of "rune_chunks s"] ne show ?thesis by (simp add: json_quote_def)
qed

text \<open>A bound on the length of a text that is easy to evaluate.\<close>

fun json_size :: "json \<Rightarrow> nat" and members_size :: "(string \<times> json) list \<Rightarrow> nat" where
  "json_size (JStr s) = 6 * length s + 2"
| "json_size (JBool b) = 5"
| "json_size (JObj ms) = members_size ms + 2"
| "json_size v = length (json_text v)"
| "members_size [] = 0"
| "members_size ((k, v) # ms) = 6 * length k + 4 + json_size v + members_size ms"

lemma json_size_bound: "length (json_text v) \<le> json_size v" "length (members_text ms) \<le> members_size ms"
proof (induction v and ms rule: json_size_members_size.induct)
  case (6 k v ms)
  then show ?case using length_json_quote [of k] by (cases ms) auto
qed (use length_json_quote in simp_all)

text \<open>
  Decoding undoes encoding: the text of every response value (valid UTF-8, no numbers) parses
  back to that value, and exactly what follows the text is left over.
\<close>

theorem json_text_roundtrip:
  assumes "json_ok v"
  shows "json_parse (json_text v @ rest) = Some (v, rest)"
  using json_roundtrip(1) [OF assms] by (simp add: json_parse_def)

theorem json_text_roundtrip_witness:
  "json_parse (json_text (JObj [(''error'', JStr ''a<b''), (''ok'', JArr [JBool True, JNull])]) @ ''x'') =
     Some (JObj [(''error'', JStr ''a<b''), (''ok'', JArr [JBool True, JNull])], ''x'')"
  by (rule json_text_roundtrip) (simp add: decode_rune_def Let_def)

end
