(* ===== verification/GoErrors.thy ===== *)
theory GoErrors
  imports Prelude
begin

text \<open>
  Go error values. A sentinel is one of the package-level \<open>errors.New\<close> variables the code
  compares with; an error of a third-party package or of the standard library that nobody
  compares with is \<open>Opaque\<close>; \<open>Wrap\<close> is \<open>fmt.Errorf("...: %w", err)\<close>. \<open>errors_is\<close> is
  \<open>errors.Is\<close> against a sentinel: it looks through the wrapping.

  A Go function that returns \<open>(T, error)\<close> is a value of \<open>gerror + 'a\<close>, one that returns an
  \<open>error\<close> a value of \<open>gerror option\<close>; both are paired with the next state of the world.
\<close>

datatype sentinel =
    user_ErrNotFound
  | user_ErrEmailTaken
  | user_ErrUsernameTaken
  | pgx_ErrNoRows
  | redis_Nil
  | bcrypt_ErrMismatchedHashAndPassword
  | session_ErrInvalidAccessToken
  | session_ErrInvalidRefreshToken
  | session_ErrSessionNotFound
  | organization_ErrNotFound
  | git_ErrRepoNotFound
  | git_ErrRepoAlreadyExists
  | git_ErrInvalidRepoName
  | sso_ErrProviderNotFound
  | sso_ErrInvalidState
  | tls_ErrCertNotFound
  | tls_ErrCertExpired
  | tls_ErrCertInvalid
  | tls_ErrACMEChallenge
  | http_ErrServerClosed

datatype gerror = Sentinel sentinel | Opaque string | Wrap string gerror

fun errors_is :: "gerror \<Rightarrow> sentinel \<Rightarrow> bool" where
  "errors_is (Sentinel s) t = (s = t)"
| "errors_is (Opaque m) t = False"
| "errors_is (Wrap m e) t = errors_is e t"

type_synonym ('w, 'a) go = "'w \<Rightarrow> (gerror + 'a) \<times> 'w"
type_synonym 'w go_err = "'w \<Rightarrow> gerror option \<times> 'w"

text \<open>Returning the zero value with the error, and returning the value: shared by the wrappers.\<close>

definition err_of :: "(gerror + 'a) \<Rightarrow> gerror option" where
  "err_of r = (case r of Inl e \<Rightarrow> Some e | Inr _ \<Rightarrow> None)"

lemma err_of_simps [simp]: "err_of (Inl e) = Some e" "err_of (Inr x) = None"
  by (simp_all add: err_of_def)

lemma err_of_None [simp]: "err_of r = None \<longleftrightarrow> (\<exists>x. r = Inr x)"
  by (cases r) simp_all

end
