(* ===== verification/Sqlc.thy ===== *)
theory Sqlc
  imports GoErrors "HOL-Library.Monad_Syntax"
begin

text \<open>
  \<^verbatim>\<open>internal/database/sqlc\<close>: the generated query layer. Its SQL texts are the constructors
  of \<open>stmt\<close>, in the order of the files; the \<open>DBTX\<close> interface it is given (pgx) is a record of
  operations on the state of the world \<open>'w\<close>, an argument of every query. A value on the wire
  is a \<open>pgval\<close>; scanning a row into a struct can fail (wrong column type, \<open>NULL\<close> into a Go
  \<open>string\<close> or \<open>bool\<close>).
\<close>

section \<open>\<open>pgtype\<close> values and the model structs\<close>

record pg_uuid =
  Bytes :: uuid
  UuidValid :: bool

record pg_text =
  String :: string
  TextValid :: bool

record pg_timestamptz =
  Time :: int
  TimeValid :: bool

record sqlc_user =
  su_UserID :: pg_uuid
  su_Name :: string
  su_Username :: string
  su_Password :: string
  su_Email :: string
  su_CreatedAt :: pg_timestamptz
  su_UpdatedAt :: pg_timestamptz
  su_DeletedAt :: pg_timestamptz
  su_IsDeleted :: bool
  su_IsVerified :: bool

record sqlc_organization =
  so_OrganizationID :: pg_uuid
  so_OrganizationName :: string
  so_OrganizationDescription :: pg_text

record sqlc_organization_user =
  sm_OrganizationID :: pg_uuid
  sm_UserID :: pg_uuid

record sqlc_session =
  ss_SessionID :: pg_uuid
  ss_UserID :: pg_uuid
  ss_RefreshToken :: string
  ss_CreatedAt :: pg_timestamptz

record sqlc_sso_provider =
  sv_SsoID :: pg_uuid
  sv_UserID :: pg_uuid
  sv_Name :: string
  sv_Provider :: string
  sv_Username :: pg_text
  sv_ActivatedAt :: pg_timestamptz
  sv_CreatedAt :: pg_timestamptz

record sqlc_git_repository =
  sg_ID :: pg_uuid
  sg_Name :: string
  sg_Description :: pg_text
  sg_IsPrivate :: bool
  sg_IsDeleted :: bool
  sg_CreatedAt :: pg_timestamptz
  sg_UpdatedAt :: pg_timestamptz
  sg_OwnerID :: pg_uuid
  sg_DefaultRef :: string
  sg_Head :: string

section \<open>Statements and the database interface\<close>

datatype stmt =
    addUserToOrganization
  | createOrganization
  | deleteOrganizationByID
  | getOrganizationByID
  | getOrganizationsByUserID
  | getUsersByOrganizationID
  | removeUserFromOrganization
  | createRepository
  | getRepositoryByID
  | getRepositoryByOwnerId
  | getRepositoryByRepositoryName
  | softDeleteRepository
  | updateRepository
  | createSession
  | deleteSession
  | deleteSessionsByUserID
  | getSessionByID
  | getSessionByRefreshToken
  | createSSO
  | deleteSSO
  | getSSOByProviderAndUsername
  | getSSOByUserID
  | createUser
  | getUserByEmail
  | getUserByID
  | getUserByUsername
  | softDeleteUser
  | updateUserPassword
  | verifyUser

datatype pgval =
    VUuid pg_uuid
  | VText pg_text
  | VBool bool
  | VTime pg_timestamptz

definition VStr :: "string \<Rightarrow> pgval" where
  "VStr s = VText \<lparr>String = s, TextValid = True\<rparr>"

text \<open>
  \<open>Query\<close> gives the rows it can read and the error \<open>rows.Err()\<close> reports after them.
  \<open>QueryRow\<close> is the row handed to \<open>Scan\<close>, or the error \<open>Scan\<close> returns
  (\<open>pgx.ErrNoRows\<close> when there is no row).
\<close>

record 'w dbtx =
  Exec :: "stmt \<Rightarrow> pgval list \<Rightarrow> 'w \<Rightarrow> gerror option \<times> 'w"
  Query :: "stmt \<Rightarrow> pgval list \<Rightarrow> 'w \<Rightarrow> (gerror + pgval list list \<times> gerror option) \<times> 'w"
  QueryRow :: "stmt \<Rightarrow> pgval list \<Rightarrow> 'w \<Rightarrow> (gerror + pgval list) \<times> 'w"

text \<open>A \<open>Queries\<close> is the connection it holds; a transaction \<open>pgx.Tx\<close> is a connection too.\<close>

definition sqlc_New :: "'w dbtx \<Rightarrow> 'w dbtx" where
  "sqlc_New db = db"

definition WithTx :: "'w dbtx \<Rightarrow> 'w dbtx \<Rightarrow> 'w dbtx" where
  "WithTx q tx = tx"

section \<open>Scanning\<close>

fun scan_str :: "pgval \<Rightarrow> string option" where
  "scan_str (VText t) = (if TextValid t then Some (String t) else None)"
| "scan_str _ = None"

fun scan_text :: "pgval \<Rightarrow> pg_text option" where
  "scan_text (VText t) = Some t"
| "scan_text _ = None"

fun scan_uuid :: "pgval \<Rightarrow> pg_uuid option" where
  "scan_uuid (VUuid u) = Some u"
| "scan_uuid _ = None"

fun scan_bool :: "pgval \<Rightarrow> bool option" where
  "scan_bool (VBool b) = Some b"
| "scan_bool _ = None"

fun scan_time :: "pgval \<Rightarrow> pg_timestamptz option" where
  "scan_time (VTime t) = Some t"
| "scan_time _ = None"

lemma scan_str_VStr [simp]: "scan_str (VStr s) = Some s"
  by (simp add: VStr_def)

fun scan_user :: "pgval list \<Rightarrow> sqlc_user option" where
  "scan_user [a, b, c, d, e, f, g, h, i, j] = do {
     uid \<leftarrow> scan_uuid a; nm \<leftarrow> scan_str b; un \<leftarrow> scan_str c; pw \<leftarrow> scan_str d; em \<leftarrow> scan_str e;
     ct \<leftarrow> scan_time f; ut \<leftarrow> scan_time g; dt \<leftarrow> scan_time h; del \<leftarrow> scan_bool i; ver \<leftarrow> scan_bool j;
     Some \<lparr>su_UserID = uid, su_Name = nm, su_Username = un, su_Password = pw, su_Email = em,
       su_CreatedAt = ct, su_UpdatedAt = ut, su_DeletedAt = dt, su_IsDeleted = del, su_IsVerified = ver\<rparr> }"
| "scan_user _ = None"

fun scan_organization :: "pgval list \<Rightarrow> sqlc_organization option" where
  "scan_organization [a, b, c] = do {
     oid \<leftarrow> scan_uuid a; nm \<leftarrow> scan_str b; ds \<leftarrow> scan_text c;
     Some \<lparr>so_OrganizationID = oid, so_OrganizationName = nm, so_OrganizationDescription = ds\<rparr> }"
| "scan_organization _ = None"

fun scan_session :: "pgval list \<Rightarrow> sqlc_session option" where
  "scan_session [a, b, c, d] = do {
     sid \<leftarrow> scan_uuid a; uid \<leftarrow> scan_uuid b; rt \<leftarrow> scan_str c; ct \<leftarrow> scan_time d;
     Some \<lparr>ss_SessionID = sid, ss_UserID = uid, ss_RefreshToken = rt, ss_CreatedAt = ct\<rparr> }"
| "scan_session _ = None"

fun scan_sso :: "pgval list \<Rightarrow> sqlc_sso_provider option" where
  "scan_sso [a, b, c, d, e, f, g] = do {
     sid \<leftarrow> scan_uuid a; uid \<leftarrow> scan_uuid b; nm \<leftarrow> scan_str c; pr \<leftarrow> scan_str d; un \<leftarrow> scan_text e;
     at \<leftarrow> scan_time f; ct \<leftarrow> scan_time g;
     Some \<lparr>sv_SsoID = sid, sv_UserID = uid, sv_Name = nm, sv_Provider = pr, sv_Username = un,
       sv_ActivatedAt = at, sv_CreatedAt = ct\<rparr> }"
| "scan_sso _ = None"

fun scan_repository :: "pgval list \<Rightarrow> sqlc_git_repository option" where
  "scan_repository [a, b, c, d, e, f, g, h, i, j] = do {
     rid \<leftarrow> scan_uuid a; nm \<leftarrow> scan_str b; ds \<leftarrow> scan_text c; pr \<leftarrow> scan_bool d; del \<leftarrow> scan_bool e;
     ct \<leftarrow> scan_time f; ut \<leftarrow> scan_time g; ow \<leftarrow> scan_uuid h; rf \<leftarrow> scan_str i; hd' \<leftarrow> scan_str j;
     Some \<lparr>sg_ID = rid, sg_Name = nm, sg_Description = ds, sg_IsPrivate = pr, sg_IsDeleted = del,
       sg_CreatedAt = ct, sg_UpdatedAt = ut, sg_OwnerID = ow, sg_DefaultRef = rf, sg_Head = hd'\<rparr> }"
| "scan_repository _ = None"

section \<open>The three shapes of a generated method\<close>

definition scan_error :: gerror where
  "scan_error = Opaque ''scan''"

definition query_one ::
  "'w dbtx \<Rightarrow> stmt \<Rightarrow> (pgval list \<Rightarrow> 'a option) \<Rightarrow> pgval list \<Rightarrow> ('w, 'a) go" where
  "query_one db st scan args w =
     (case QueryRow db st args w of
        (Inl e, w') \<Rightarrow> (Inl e, w')
      | (Inr row, w') \<Rightarrow> (case scan row of None \<Rightarrow> (Inl scan_error, w') | Some i \<Rightarrow> (Inr i, w')))"

text \<open>The loop over \<open>rows.Next()\<close>: the first row that does not scan ends it.\<close>

fun scan_rows :: "(pgval list \<Rightarrow> 'a option) \<Rightarrow> pgval list list \<Rightarrow> gerror + 'a list" where
  "scan_rows scan [] = Inr []"
| "scan_rows scan (row # rows) =
     (case scan row of
        None \<Rightarrow> Inl scan_error
      | Some i \<Rightarrow> (case scan_rows scan rows of Inl e \<Rightarrow> Inl e | Inr items \<Rightarrow> Inr (i # items)))"

definition query_many ::
  "'w dbtx \<Rightarrow> stmt \<Rightarrow> (pgval list \<Rightarrow> 'a option) \<Rightarrow> pgval list \<Rightarrow> ('w, 'a list) go" where
  "query_many db st scan args w =
     (case Query db st args w of
        (Inl e, w') \<Rightarrow> (Inl e, w')
      | (Inr (rows, rows_err), w') \<Rightarrow>
          (case scan_rows scan rows of
             Inl e \<Rightarrow> (Inl e, w')
           | Inr items \<Rightarrow> (case rows_err of Some e \<Rightarrow> (Inl e, w') | None \<Rightarrow> (Inr items, w'))))"

section \<open>The queries\<close>

definition AddUserToOrganization :: "'w dbtx \<Rightarrow> pg_uuid \<Rightarrow> pg_uuid \<Rightarrow> 'w go_err" where
  "AddUserToOrganization db oid uid = Exec db addUserToOrganization [VUuid oid, VUuid uid]"

definition CreateOrganization :: "'w dbtx \<Rightarrow> pg_uuid \<Rightarrow> string \<Rightarrow> pg_text \<Rightarrow> ('w, sqlc_organization) go" where
  "CreateOrganization db oid nm ds =
     query_one db createOrganization scan_organization [VUuid oid, VStr nm, VText ds]"

definition DeleteOrganizationByID :: "'w dbtx \<Rightarrow> pg_uuid \<Rightarrow> 'w go_err" where
  "DeleteOrganizationByID db oid = Exec db deleteOrganizationByID [VUuid oid]"

definition GetOrganizationByID :: "'w dbtx \<Rightarrow> pg_uuid \<Rightarrow> ('w, sqlc_organization) go" where
  "GetOrganizationByID db oid = query_one db getOrganizationByID scan_organization [VUuid oid]"

definition GetOrganizationsByUserID :: "'w dbtx \<Rightarrow> pg_uuid \<Rightarrow> ('w, sqlc_organization list) go" where
  "GetOrganizationsByUserID db uid = query_many db getOrganizationsByUserID scan_organization [VUuid uid]"

definition GetUsersByOrganizationID :: "'w dbtx \<Rightarrow> pg_uuid \<Rightarrow> ('w, sqlc_user list) go" where
  "GetUsersByOrganizationID db oid = query_many db getUsersByOrganizationID scan_user [VUuid oid]"

definition RemoveUserFromOrganization :: "'w dbtx \<Rightarrow> pg_uuid \<Rightarrow> pg_uuid \<Rightarrow> 'w go_err" where
  "RemoveUserFromOrganization db oid uid = Exec db removeUserFromOrganization [VUuid oid, VUuid uid]"

record repository_params =
  rp_ID :: pg_uuid
  rp_Name :: string
  rp_Description :: pg_text
  rp_IsPrivate :: bool
  rp_OwnerID :: pg_uuid
  rp_DefaultRef :: string

definition repository_args :: "repository_params \<Rightarrow> pgval list" where
  "repository_args arg =
     [VUuid (rp_ID arg), VStr (rp_Name arg), VText (rp_Description arg), VBool (rp_IsPrivate arg),
      VUuid (rp_OwnerID arg), VStr (rp_DefaultRef arg)]"

definition CreateRepository :: "'w dbtx \<Rightarrow> repository_params \<Rightarrow> ('w, sqlc_git_repository) go" where
  "CreateRepository db arg = query_one db createRepository scan_repository (repository_args arg)"

definition GetRepositoryByID :: "'w dbtx \<Rightarrow> pg_uuid \<Rightarrow> ('w, sqlc_git_repository) go" where
  "GetRepositoryByID db rid = query_one db getRepositoryByID scan_repository [VUuid rid]"

definition GetRepositoryByOwnerId :: "'w dbtx \<Rightarrow> pg_uuid \<Rightarrow> ('w, sqlc_git_repository list) go" where
  "GetRepositoryByOwnerId db ow = query_many db getRepositoryByOwnerId scan_repository [VUuid ow]"

definition GetRepositoryByRepositoryName :: "'w dbtx \<Rightarrow> string \<Rightarrow> ('w, sqlc_git_repository list) go" where
  "GetRepositoryByRepositoryName db nm =
     query_many db getRepositoryByRepositoryName scan_repository [VStr nm]"

definition SoftDeleteRepository :: "'w dbtx \<Rightarrow> pg_uuid \<Rightarrow> ('w, sqlc_git_repository) go" where
  "SoftDeleteRepository db rid = query_one db softDeleteRepository scan_repository [VUuid rid]"

definition UpdateRepository :: "'w dbtx \<Rightarrow> repository_params \<Rightarrow> 'w go_err" where
  "UpdateRepository db arg = Exec db updateRepository (repository_args arg)"

definition CreateSession :: "'w dbtx \<Rightarrow> pg_uuid \<Rightarrow> pg_uuid \<Rightarrow> string \<Rightarrow> ('w, sqlc_session) go" where
  "CreateSession db sid uid rt =
     query_one db createSession scan_session [VUuid sid, VUuid uid, VStr rt]"

definition DeleteSession :: "'w dbtx \<Rightarrow> pg_uuid \<Rightarrow> 'w go_err" where
  "DeleteSession db sid = Exec db deleteSession [VUuid sid]"

definition DeleteSessionsByUserID :: "'w dbtx \<Rightarrow> pg_uuid \<Rightarrow> 'w go_err" where
  "DeleteSessionsByUserID db uid = Exec db deleteSessionsByUserID [VUuid uid]"

definition GetSessionByID :: "'w dbtx \<Rightarrow> pg_uuid \<Rightarrow> ('w, sqlc_session) go" where
  "GetSessionByID db sid = query_one db getSessionByID scan_session [VUuid sid]"

definition GetSessionByRefreshToken :: "'w dbtx \<Rightarrow> string \<Rightarrow> ('w, sqlc_session) go" where
  "GetSessionByRefreshToken db rt = query_one db getSessionByRefreshToken scan_session [VStr rt]"

definition CreateSSO :: "'w dbtx \<Rightarrow> pg_uuid \<Rightarrow> pg_uuid \<Rightarrow> string \<Rightarrow> string \<Rightarrow> pg_text \<Rightarrow> ('w, sqlc_sso_provider) go" where
  "CreateSSO db sid uid nm pr un =
     query_one db createSSO scan_sso [VUuid sid, VUuid uid, VStr nm, VStr pr, VText un]"

definition DeleteSSO :: "'w dbtx \<Rightarrow> pg_uuid \<Rightarrow> 'w go_err" where
  "DeleteSSO db sid = Exec db deleteSSO [VUuid sid]"

definition GetSSOByProviderAndUsername :: "'w dbtx \<Rightarrow> string \<Rightarrow> pg_text \<Rightarrow> ('w, sqlc_sso_provider) go" where
  "GetSSOByProviderAndUsername db pr un =
     query_one db getSSOByProviderAndUsername scan_sso [VStr pr, VText un]"

definition GetSSOByUserID :: "'w dbtx \<Rightarrow> pg_uuid \<Rightarrow> ('w, sqlc_sso_provider list) go" where
  "GetSSOByUserID db uid = query_many db getSSOByUserID scan_sso [VUuid uid]"

definition CreateUser ::
  "'w dbtx \<Rightarrow> pg_uuid \<Rightarrow> string \<Rightarrow> string \<Rightarrow> string \<Rightarrow> string \<Rightarrow> ('w, sqlc_user) go" where
  "CreateUser db uid nm un pw em =
     query_one db createUser scan_user [VUuid uid, VStr nm, VStr un, VStr pw, VStr em]"

definition GetUserByEmail :: "'w dbtx \<Rightarrow> string \<Rightarrow> ('w, sqlc_user) go" where
  "GetUserByEmail db em = query_one db getUserByEmail scan_user [VStr em]"

definition GetUserByID :: "'w dbtx \<Rightarrow> pg_uuid \<Rightarrow> ('w, sqlc_user) go" where
  "GetUserByID db uid = query_one db getUserByID scan_user [VUuid uid]"

definition GetUserByUsername :: "'w dbtx \<Rightarrow> string \<Rightarrow> ('w, sqlc_user) go" where
  "GetUserByUsername db un = query_one db getUserByUsername scan_user [VStr un]"

definition SoftDeleteUser :: "'w dbtx \<Rightarrow> pg_uuid \<Rightarrow> 'w go_err" where
  "SoftDeleteUser db uid = Exec db softDeleteUser [VUuid uid]"

definition UpdateUserPassword :: "'w dbtx \<Rightarrow> pg_uuid \<Rightarrow> string \<Rightarrow> 'w go_err" where
  "UpdateUserPassword db uid pw = Exec db updateUserPassword [VUuid uid, VStr pw]"

definition VerifyUser :: "'w dbtx \<Rightarrow> pg_uuid \<Rightarrow> 'w go_err" where
  "VerifyUser db uid = Exec db verifyUser [VUuid uid]"

end
