(* ===== verification/Relational.thy ===== *)
theory Relational
  imports Sqlc Runes
begin

text \<open>
  What the SQL statements of \<^verbatim>\<open>internal/database/sqlc\<close> mean on the schema of
  \<^verbatim>\<open>migrations/versions\<close>: a table is the list of its rows in insertion order, a
  \<open>SELECT\<close> a filter, an \<open>INSERT\<close> checks the keys, \<open>NOT NULL\<close>, \<open>VARCHAR(n)\<close>, \<open>CHECK\<close> and
  foreign keys of the table and appends the row, and a statement that violates a constraint is
  an error that changes nothing. A comparison with \<open>NULL\<close> is not true.
\<close>

section \<open>Tables\<close>

record tables =
  t_users :: "sqlc_user list"
  t_organizations :: "sqlc_organization list"
  t_organization_users :: "sqlc_organization_user list"
  t_sessions :: "sqlc_session list"
  t_sso_providers :: "sqlc_sso_provider list"
  t_git_repository :: "sqlc_git_repository list"

definition empty_tables :: tables where
  "empty_tables = \<lparr>t_users = [], t_organizations = [], t_organization_users = [], t_sessions = [],
     t_sso_providers = [], t_git_repository = []\<rparr>"

definition uuid_eq :: "pg_uuid \<Rightarrow> pg_uuid \<Rightarrow> bool" where
  "uuid_eq a b \<longleftrightarrow> UuidValid a \<and> UuidValid b \<and> Bytes a = Bytes b"

definition text_eq :: "pg_text \<Rightarrow> pg_text \<Rightarrow> bool" where
  "text_eq a b \<longleftrightarrow> TextValid a \<and> TextValid b \<and> String a = String b"

definition null_time :: pg_timestamptz where
  "null_time = \<lparr>Time = 0, TimeValid = False\<rparr>"

definition at_time :: "int \<Rightarrow> pg_timestamptz" where
  "at_time n = \<lparr>Time = n, TimeValid = True\<rparr>"

text \<open>A text value fits \<open>VARCHAR(n)\<close>: valid UTF-8 without \<open>NUL\<close>, at most \<open>n\<close> characters.\<close>

definition text_ok :: "string \<Rightarrow> bool" where
  "text_ok s \<longleftrightarrow> CHR 0x00 \<notin> set s \<and> utf8_ok s"

definition varchar :: "nat \<Rightarrow> string \<Rightarrow> bool" where
  "varchar n s \<longleftrightarrow> text_ok s \<and> length (runes s) \<le> n"

definition text_ok_null :: "pg_text \<Rightarrow> bool" where
  "text_ok_null t \<longleftrightarrow> (TextValid t \<longrightarrow> text_ok (String t))"

definition varchar_null :: "nat \<Rightarrow> pg_text \<Rightarrow> bool" where
  "varchar_null n t \<longleftrightarrow> (TextValid t \<longrightarrow> varchar n (String t))"

text \<open>ASCII text always does.\<close>

definition ascii_text :: "string \<Rightarrow> bool" where
  "ascii_text s \<longleftrightarrow> list_all (\<lambda>c. c \<noteq> CHR 0x00 \<and> (of_char c :: nat) < 128) s"

lemma ascii_text_simps [simp]:
  "ascii_text []"
  "ascii_text (c # cs) \<longleftrightarrow> c \<noteq> CHR 0x00 \<and> (of_char c :: nat) < 128 \<and> ascii_text cs"
  by (simp_all add: ascii_text_def)

lemma varchar_ascii:
  assumes "ascii_text s"
  shows "text_ok s" and "length s \<le> n \<Longrightarrow> varchar n s"
  using assms by (auto simp: text_ok_def varchar_def ascii_text_def list_all_iff utf8_ok_ascii runes_ascii)

section \<open>Rows on the wire\<close>

definition row_user :: "sqlc_user \<Rightarrow> pgval list" where
  "row_user u = [VUuid (su_UserID u), VStr (su_Name u), VStr (su_Username u), VStr (su_Password u),
     VStr (su_Email u), VTime (su_CreatedAt u), VTime (su_UpdatedAt u), VTime (su_DeletedAt u),
     VBool (su_IsDeleted u), VBool (su_IsVerified u)]"

definition row_organization :: "sqlc_organization \<Rightarrow> pgval list" where
  "row_organization g = [VUuid (so_OrganizationID g), VStr (so_OrganizationName g),
     VText (so_OrganizationDescription g)]"

definition row_session :: "sqlc_session \<Rightarrow> pgval list" where
  "row_session s = [VUuid (ss_SessionID s), VUuid (ss_UserID s), VStr (ss_RefreshToken s),
     VTime (ss_CreatedAt s)]"

definition row_sso :: "sqlc_sso_provider \<Rightarrow> pgval list" where
  "row_sso s = [VUuid (sv_SsoID s), VUuid (sv_UserID s), VStr (sv_Name s), VStr (sv_Provider s),
     VText (sv_Username s), VTime (sv_ActivatedAt s), VTime (sv_CreatedAt s)]"

definition row_repository :: "sqlc_git_repository \<Rightarrow> pgval list" where
  "row_repository g = [VUuid (sg_ID g), VStr (sg_Name g), VText (sg_Description g),
     VBool (sg_IsPrivate g), VBool (sg_IsDeleted g), VTime (sg_CreatedAt g), VTime (sg_UpdatedAt g),
     VUuid (sg_OwnerID g), VStr (sg_DefaultRef g), VStr (sg_Head g)]"

lemma scan_row [simp]:
  "scan_user (row_user u) = Some u"
  "scan_organization (row_organization g) = Some g"
  "scan_session (row_session s) = Some s"
  "scan_sso (row_sso v) = Some v"
  "scan_repository (row_repository r) = Some r"
  by (simp_all add: row_user_def row_organization_def row_session_def row_sso_def row_repository_def)

section \<open>The meaning of the statements\<close>

type_synonym sql_result = "(gerror + pgval list list) \<times> tables"

definition sql_error :: gerror where
  "sql_error = Opaque ''sql''"

definition user_exists :: "tables \<Rightarrow> pg_uuid \<Rightarrow> bool" where
  "user_exists t i \<longleftrightarrow> (\<exists>u \<in> set (t_users t). uuid_eq (su_UserID u) i)"

definition organization_exists :: "tables \<Rightarrow> pg_uuid \<Rightarrow> bool" where
  "organization_exists t i \<longleftrightarrow> (\<exists>g \<in> set (t_organizations t). uuid_eq (so_OrganizationID g) i)"

definition new_user_row :: "int \<Rightarrow> pg_uuid \<Rightarrow> string \<Rightarrow> string \<Rightarrow> string \<Rightarrow> string \<Rightarrow> sqlc_user" where
  "new_user_row now i nm un pw em =
     \<lparr>su_UserID = i, su_Name = nm, su_Username = un, su_Password = pw, su_Email = em,
      su_CreatedAt = at_time now, su_UpdatedAt = at_time now, su_DeletedAt = null_time,
      su_IsDeleted = False, su_IsVerified = False\<rparr>"

definition user_insertable :: "tables \<Rightarrow> pg_uuid \<Rightarrow> string \<Rightarrow> string \<Rightarrow> string \<Rightarrow> string \<Rightarrow> bool" where
  "user_insertable t i nm un pw em \<longleftrightarrow>
     UuidValid i \<and> varchar 255 nm \<and> varchar 255 un \<and> varchar 255 pw \<and> varchar 255 em \<and>
     list_all (\<lambda>u. su_UserID u \<noteq> i \<and> su_Username u \<noteq> un \<and> su_Email u \<noteq> em) (t_users t)"

definition ins_user :: "int \<Rightarrow> pg_uuid \<Rightarrow> string \<Rightarrow> string \<Rightarrow> string \<Rightarrow> string \<Rightarrow> tables \<Rightarrow> sql_result" where
  "ins_user now i nm un pw em t =
     (let r = new_user_row now i nm un pw em in
      if user_insertable t i nm un pw em
      then (Inr [row_user r], t\<lparr>t_users := t_users t @ [r]\<rparr>) else (Inl sql_error, t))"

definition sel_users :: "(sqlc_user \<Rightarrow> bool) \<Rightarrow> tables \<Rightarrow> sql_result" where
  "sel_users p t = (Inr (map row_user (filter p (t_users t))), t)"

definition upd_users :: "pg_uuid \<Rightarrow> (sqlc_user \<Rightarrow> sqlc_user) \<Rightarrow> tables \<Rightarrow> sql_result" where
  "upd_users i f t =
     (Inr [], t\<lparr>t_users := map (\<lambda>u. if uuid_eq (su_UserID u) i then f u else u) (t_users t)\<rparr>)"

definition ins_organization :: "pg_uuid \<Rightarrow> string \<Rightarrow> pg_text \<Rightarrow> tables \<Rightarrow> sql_result" where
  "ins_organization i nm ds t =
     (let g = \<lparr>so_OrganizationID = i, so_OrganizationName = nm, so_OrganizationDescription = ds\<rparr> in
      if UuidValid i \<and> varchar 255 nm \<and> varchar_null 4000 ds \<and>
         list_all (\<lambda>g. so_OrganizationID g \<noteq> i) (t_organizations t)
      then (Inr [row_organization g], t\<lparr>t_organizations := t_organizations t @ [g]\<rparr>)
      else (Inl sql_error, t))"

definition ins_member :: "pg_uuid \<Rightarrow> pg_uuid \<Rightarrow> tables \<Rightarrow> sql_result" where
  "ins_member i j t =
     (let m = \<lparr>sm_OrganizationID = i, sm_UserID = j\<rparr> in
      if organization_exists t i \<and> user_exists t j \<and> m \<notin> set (t_organization_users t)
      then (Inr [], t\<lparr>t_organization_users := t_organization_users t @ [m]\<rparr>)
      else (Inl sql_error, t))"

definition del_member :: "pg_uuid \<Rightarrow> pg_uuid \<Rightarrow> tables \<Rightarrow> sql_result" where
  "del_member i j t =
     (Inr [], t\<lparr>t_organization_users :=
        filter (\<lambda>m. \<not> (uuid_eq (sm_OrganizationID m) i \<and> uuid_eq (sm_UserID m) j)) (t_organization_users t)\<rparr>)"

text \<open>\<open>ON DELETE CASCADE\<close> takes the memberships along.\<close>

definition del_organization :: "pg_uuid \<Rightarrow> tables \<Rightarrow> sql_result" where
  "del_organization i t =
     (Inr [], t\<lparr>t_organizations := filter (\<lambda>g. \<not> uuid_eq (so_OrganizationID g) i) (t_organizations t),
        t_organization_users :=
          filter (\<lambda>m. \<not> uuid_eq (sm_OrganizationID m) i) (t_organization_users t)\<rparr>)"

definition orgs_of_user :: "pg_uuid \<Rightarrow> tables \<Rightarrow> sqlc_organization list" where
  "orgs_of_user j t =
     concat (map (\<lambda>g. map (\<lambda>_. g)
        (filter (\<lambda>m. uuid_eq (sm_OrganizationID m) (so_OrganizationID g) \<and> uuid_eq (sm_UserID m) j)
           (t_organization_users t))) (t_organizations t))"

definition users_of_org :: "pg_uuid \<Rightarrow> tables \<Rightarrow> sqlc_user list" where
  "users_of_org i t =
     concat (map (\<lambda>u. map (\<lambda>_. u)
        (filter (\<lambda>m. uuid_eq (sm_UserID m) (su_UserID u) \<and> uuid_eq (sm_OrganizationID m) i)
           (t_organization_users t))) (filter (\<lambda>u. \<not> su_IsDeleted u) (t_users t)))"

definition ins_session :: "int \<Rightarrow> pg_uuid \<Rightarrow> pg_uuid \<Rightarrow> string \<Rightarrow> tables \<Rightarrow> sql_result" where
  "ins_session now i j rt t =
     (let s = \<lparr>ss_SessionID = i, ss_UserID = j, ss_RefreshToken = rt, ss_CreatedAt = at_time now\<rparr> in
      if UuidValid i \<and> user_exists t j \<and> varchar 255 rt \<and>
         list_all (\<lambda>s. ss_SessionID s \<noteq> i \<and> ss_RefreshToken s \<noteq> rt) (t_sessions t)
      then (Inr [row_session s], t\<lparr>t_sessions := t_sessions t @ [s]\<rparr>)
      else (Inl sql_error, t))"

definition sel_sessions :: "(sqlc_session \<Rightarrow> bool) \<Rightarrow> tables \<Rightarrow> sql_result" where
  "sel_sessions p t = (Inr (map row_session (filter p (t_sessions t))), t)"

definition del_sessions :: "(sqlc_session \<Rightarrow> bool) \<Rightarrow> tables \<Rightarrow> sql_result" where
  "del_sessions p t = (Inr [], t\<lparr>t_sessions := filter (\<lambda>s. \<not> p s) (t_sessions t)\<rparr>)"

definition sso_providers :: "string list" where
  "sso_providers = [''google'', ''local'', ''qoppatech'']"

definition ins_sso ::
  "int \<Rightarrow> pg_uuid \<Rightarrow> pg_uuid \<Rightarrow> string \<Rightarrow> string \<Rightarrow> pg_text \<Rightarrow> tables \<Rightarrow> sql_result" where
  "ins_sso now i j nm pr un t =
     (let s = \<lparr>sv_SsoID = i, sv_UserID = j, sv_Name = nm, sv_Provider = pr, sv_Username = un,
               sv_ActivatedAt = at_time now, sv_CreatedAt = at_time now\<rparr> in
      if UuidValid i \<and> user_exists t j \<and> varchar 255 nm \<and> pr \<in> set sso_providers \<and>
         varchar_null 255 un \<and> list_all (\<lambda>s. sv_SsoID s \<noteq> i) (t_sso_providers t)
      then (Inr [row_sso s], t\<lparr>t_sso_providers := t_sso_providers t @ [s]\<rparr>)
      else (Inl sql_error, t))"

definition del_sso :: "pg_uuid \<Rightarrow> tables \<Rightarrow> sql_result" where
  "del_sso i t = (Inr [], t\<lparr>t_sso_providers := filter (\<lambda>s. \<not> uuid_eq (sv_SsoID s) i) (t_sso_providers t)\<rparr>)"

definition sel_sso :: "(sqlc_sso_provider \<Rightarrow> bool) \<Rightarrow> tables \<Rightarrow> sql_result" where
  "sel_sso p t = (Inr (map row_sso (filter p (t_sso_providers t))), t)"

definition ins_repository ::
  "int \<Rightarrow> pg_uuid \<Rightarrow> string \<Rightarrow> pg_text \<Rightarrow> bool \<Rightarrow> pg_uuid \<Rightarrow> string \<Rightarrow> tables \<Rightarrow> sql_result" where
  "ins_repository now i nm ds pv ow rf t =
     (let g = \<lparr>sg_ID = i, sg_Name = nm, sg_Description = ds, sg_IsPrivate = pv, sg_IsDeleted = False,
               sg_CreatedAt = at_time now, sg_UpdatedAt = at_time now, sg_OwnerID = ow,
               sg_DefaultRef = rf, sg_Head = []\<rparr> in
      if UuidValid i \<and> varchar 100 nm \<and> varchar_null 4000 ds \<and> user_exists t ow \<and> varchar 255 rf \<and>
         list_all (\<lambda>g. sg_ID g \<noteq> i) (t_git_repository t)
      then (Inr [row_repository g], t\<lparr>t_git_repository := t_git_repository t @ [g]\<rparr>)
      else (Inl sql_error, t))"

definition sel_repositories :: "(sqlc_git_repository \<Rightarrow> bool) \<Rightarrow> tables \<Rightarrow> sql_result" where
  "sel_repositories p t = (Inr (map row_repository (filter p (t_git_repository t))), t)"

definition soft_deleted :: "int \<Rightarrow> sqlc_git_repository \<Rightarrow> sqlc_git_repository" where
  "soft_deleted now g = g\<lparr>sg_IsDeleted := True, sg_UpdatedAt := at_time now\<rparr>"

definition soft_del_repository :: "int \<Rightarrow> pg_uuid \<Rightarrow> tables \<Rightarrow> sql_result" where
  "soft_del_repository now i t =
     (Inr (map (\<lambda>g. row_repository (soft_deleted now g)) (filter (\<lambda>g. uuid_eq (sg_ID g) i) (t_git_repository t))),
      t\<lparr>t_git_repository :=
         map (\<lambda>g. if uuid_eq (sg_ID g) i then soft_deleted now g else g) (t_git_repository t)\<rparr>)"

definition upd_repository ::
  "int \<Rightarrow> pg_uuid \<Rightarrow> string \<Rightarrow> pg_text \<Rightarrow> bool \<Rightarrow> pg_uuid \<Rightarrow> string \<Rightarrow> tables \<Rightarrow> sql_result" where
  "upd_repository now i nm ds pv ow rf t =
     (if text_ok nm \<and> text_ok_null ds \<and> text_ok rf \<and>
         ((\<forall>g \<in> set (t_git_repository t). \<not> uuid_eq (sg_ID g) i) \<or>
          (varchar 100 nm \<and> varchar_null 4000 ds \<and> user_exists t ow \<and> varchar 255 rf))
      then (Inr [], t\<lparr>t_git_repository :=
         map (\<lambda>g. if uuid_eq (sg_ID g) i
                  then g\<lparr>sg_UpdatedAt := at_time now, sg_Name := nm, sg_Description := ds,
                         sg_IsPrivate := pv, sg_OwnerID := ow, sg_DefaultRef := rf\<rparr>
                  else g) (t_git_repository t)\<rparr>)
      else (Inl sql_error, t))"


section \<open>Dispatch on statement and arguments\<close>

text \<open>
  Arguments of a wrong number or type are an error, and so is a text argument the server cannot
  take (not UTF-8, or with a \<open>NUL\<close>).
\<close>

definition bad_args :: "tables \<Rightarrow> sql_result" where
  "bad_args t = (Inl sql_error, t)"

definition sql_args1 :: "pgval list \<Rightarrow> (pg_uuid \<Rightarrow> tables \<Rightarrow> sql_result) \<Rightarrow> tables \<Rightarrow> sql_result" where
  "sql_args1 args f t = (case args of [VUuid i] \<Rightarrow> f i t | _ \<Rightarrow> bad_args t)"

definition sql_args_str :: "pgval list \<Rightarrow> (string \<Rightarrow> tables \<Rightarrow> sql_result) \<Rightarrow> tables \<Rightarrow> sql_result" where
  "sql_args_str args f t =
     (case args of
        [a] \<Rightarrow> (case scan_str a of Some s \<Rightarrow> (if text_ok s then f s t else bad_args t) | None \<Rightarrow> bad_args t)
      | _ \<Rightarrow> bad_args t)"

definition sql_args2 ::
  "pgval list \<Rightarrow> (pg_uuid \<Rightarrow> pg_uuid \<Rightarrow> tables \<Rightarrow> sql_result) \<Rightarrow> tables \<Rightarrow> sql_result" where
  "sql_args2 args f t = (case args of [VUuid i, VUuid j] \<Rightarrow> f i j t | _ \<Rightarrow> bad_args t)"

definition run_opt :: "(tables \<Rightarrow> sql_result) option \<Rightarrow> tables \<Rightarrow> sql_result" where
  "run_opt f t = (case f of None \<Rightarrow> bad_args t | Some g \<Rightarrow> g t)"

definition repository_op ::
  "pgval list \<Rightarrow> (pg_uuid \<Rightarrow> string \<Rightarrow> pg_text \<Rightarrow> bool \<Rightarrow> pg_uuid \<Rightarrow> string \<Rightarrow> tables \<Rightarrow> sql_result)
     \<Rightarrow> tables \<Rightarrow> sql_result" where
  "repository_op args f = run_opt (case args of
      [a, b, c, d, e, g] \<Rightarrow> do {
        i \<leftarrow> scan_uuid a; nm \<leftarrow> scan_str b; ds \<leftarrow> scan_text c; pv \<leftarrow> scan_bool d; ow \<leftarrow> scan_uuid e;
        rf \<leftarrow> scan_str g; Some (f i nm ds pv ow rf) }
    | _ \<Rightarrow> None)"

primrec sql_sem :: "stmt \<Rightarrow> int \<Rightarrow> pgval list \<Rightarrow> tables \<Rightarrow> sql_result" where
  "sql_sem addUserToOrganization now args = sql_args2 args ins_member"
| "sql_sem createOrganization now args = run_opt (case args of
      [a, b, c] \<Rightarrow> do { i \<leftarrow> scan_uuid a; nm \<leftarrow> scan_str b; ds \<leftarrow> scan_text c; Some (ins_organization i nm ds) }
    | _ \<Rightarrow> None)"
| "sql_sem deleteOrganizationByID now args = sql_args1 args del_organization"
| "sql_sem getOrganizationByID now args = sql_args1 args
     (\<lambda>i t. (Inr (map row_organization (filter (\<lambda>g. uuid_eq (so_OrganizationID g) i) (t_organizations t))), t))"
| "sql_sem getOrganizationsByUserID now args = sql_args1 args
     (\<lambda>i t. (Inr (map row_organization (orgs_of_user i t)), t))"
| "sql_sem getUsersByOrganizationID now args = sql_args1 args
     (\<lambda>i t. (Inr (map row_user (users_of_org i t)), t))"
| "sql_sem removeUserFromOrganization now args = sql_args2 args del_member"
| "sql_sem createRepository now args = repository_op args (ins_repository now)"
| "sql_sem getRepositoryByID now args = sql_args1 args (\<lambda>i. sel_repositories (\<lambda>g. uuid_eq (sg_ID g) i))"
| "sql_sem getRepositoryByOwnerId now args =
     sql_args1 args (\<lambda>i. sel_repositories (\<lambda>g. uuid_eq (sg_OwnerID g) i))"
| "sql_sem getRepositoryByRepositoryName now args =
     sql_args_str args (\<lambda>s. sel_repositories (\<lambda>g. sg_Name g = s))"
| "sql_sem softDeleteRepository now args = sql_args1 args (soft_del_repository now)"
| "sql_sem updateRepository now args = repository_op args (upd_repository now)"
| "sql_sem createSession now args = run_opt (case args of
      [a, b, c] \<Rightarrow> do { i \<leftarrow> scan_uuid a; j \<leftarrow> scan_uuid b; rt \<leftarrow> scan_str c; Some (ins_session now i j rt) }
    | _ \<Rightarrow> None)"
| "sql_sem deleteSession now args = sql_args1 args (\<lambda>i. del_sessions (\<lambda>s. uuid_eq (ss_SessionID s) i))"
| "sql_sem deleteSessionsByUserID now args = sql_args1 args (\<lambda>i. del_sessions (\<lambda>s. uuid_eq (ss_UserID s) i))"
| "sql_sem getSessionByID now args = sql_args1 args (\<lambda>i. sel_sessions (\<lambda>s. uuid_eq (ss_SessionID s) i))"
| "sql_sem getSessionByRefreshToken now args =
     sql_args_str args (\<lambda>rt. sel_sessions (\<lambda>s. ss_RefreshToken s = rt))"
| "sql_sem createSSO now args = run_opt (case args of
      [a, b, c, d, e] \<Rightarrow> do { i \<leftarrow> scan_uuid a; j \<leftarrow> scan_uuid b; nm \<leftarrow> scan_str c; pr \<leftarrow> scan_str d;
        un \<leftarrow> scan_text e; Some (ins_sso now i j nm pr un) }
    | _ \<Rightarrow> None)"
| "sql_sem deleteSSO now args = sql_args1 args del_sso"
| "sql_sem getSSOByProviderAndUsername now args = run_opt (case args of
      [a, b] \<Rightarrow> do { pr \<leftarrow> scan_str a; un \<leftarrow> scan_text b;
        if text_ok pr \<and> text_ok_null un
        then Some (sel_sso (\<lambda>s. sv_Provider s = pr \<and> text_eq (sv_Username s) un)) else None }
    | _ \<Rightarrow> None)"
| "sql_sem getSSOByUserID now args = sql_args1 args (\<lambda>i. sel_sso (\<lambda>s. uuid_eq (sv_UserID s) i))"
| "sql_sem createUser now args = run_opt (case args of
      [a, b, c, d, e] \<Rightarrow> do { i \<leftarrow> scan_uuid a; nm \<leftarrow> scan_str b; un \<leftarrow> scan_str c; pw \<leftarrow> scan_str d;
        em \<leftarrow> scan_str e; Some (ins_user now i nm un pw em) }
    | _ \<Rightarrow> None)"
| "sql_sem getUserByEmail now args =
     sql_args_str args (\<lambda>em. sel_users (\<lambda>u. su_Email u = em \<and> \<not> su_IsDeleted u))"
| "sql_sem getUserByID now args =
     sql_args1 args (\<lambda>i. sel_users (\<lambda>u. uuid_eq (su_UserID u) i \<and> \<not> su_IsDeleted u))"
| "sql_sem getUserByUsername now args =
     sql_args_str args (\<lambda>un. sel_users (\<lambda>u. su_Username u = un \<and> \<not> su_IsDeleted u))"
| "sql_sem softDeleteUser now args = sql_args1 args
     (\<lambda>i. upd_users i (\<lambda>u. u\<lparr>su_IsDeleted := True, su_DeletedAt := at_time now, su_UpdatedAt := at_time now\<rparr>))"
| "sql_sem updateUserPassword now args = run_opt (case args of
      [a, b] \<Rightarrow> do { i \<leftarrow> scan_uuid a; pw \<leftarrow> scan_str b;
        Some (\<lambda>t. if text_ok pw \<and> (varchar 255 pw \<or> \<not> user_exists t i)
              then upd_users i (\<lambda>u. u\<lparr>su_Password := pw, su_UpdatedAt := at_time now\<rparr>) t
              else (Inl sql_error, t)) }
    | _ \<Rightarrow> None)"
| "sql_sem verifyUser now args = sql_args1 args
     (\<lambda>i. upd_users i (\<lambda>u. u\<lparr>su_IsVerified := True, su_UpdatedAt := at_time now\<rparr>))"

lemmas sql_arg_simps [simp] = sql_args1_def sql_args_str_def sql_args2_def run_opt_def repository_op_def

text \<open>A failing statement changes nothing.\<close>

lemma sql_sem_error: "sql_sem st now args t = (Inl e, t') \<Longrightarrow> t' = t"
  by (cases st)
     (auto simp: bind_eq_Some_conv bad_args_def ins_member_def ins_organization_def del_organization_def del_member_def
        ins_repository_def sel_repositories_def soft_del_repository_def upd_repository_def
        ins_session_def sel_sessions_def del_sessions_def ins_sso_def sel_sso_def del_sso_def ins_user_def
        sel_users_def upd_users_def Let_def
        split: list.splits pgval.splits option.splits if_splits)

section \<open>Key constraints as an invariant of the tables\<close>

definition unique_on :: "('a \<Rightarrow> 'k) \<Rightarrow> 'a list \<Rightarrow> bool" where
  "unique_on k xs \<longleftrightarrow> distinct (map k xs)"

lemma unique_on_simps [simp]:
  "unique_on k []"
  "unique_on k (xs @ [x]) \<longleftrightarrow> unique_on k xs \<and> list_all (\<lambda>y. k y \<noteq> k x) xs"
  by (auto simp: unique_on_def list_all_iff image_iff)

lemma unique_on_filter [simp]: "unique_on k xs \<Longrightarrow> unique_on k (filter p xs)"
  by (simp add: unique_on_def distinct_map_filter)

lemma unique_on_update [simp]:
  assumes "\<And>x. k (f x) = k x"
  shows "unique_on k (map (\<lambda>x. if p x then f x else x) xs) = unique_on k xs"
  using assms by (simp add: unique_on_def comp_def if_distrib cong: if_cong)

lemma unique_on_at_most_one:
  assumes "unique_on k xs" "\<And>x. x \<in> set xs \<Longrightarrow> p x \<Longrightarrow> k x = v"
  shows "length (filter p xs) \<le> 1"
  using assms
proof (induction xs)
  case (Cons x xs)
  have "filter p xs = []" if "p x"
    using that Cons.prems by (force simp: unique_on_def filter_empty_conv)
  with Cons show ?case by (auto simp: unique_on_def)
qed simp

definition keys_ok :: "tables \<Rightarrow> bool" where
  "keys_ok t \<longleftrightarrow>
     unique_on su_UserID (t_users t) \<and> unique_on su_Username (t_users t) \<and>
     unique_on su_Email (t_users t) \<and> unique_on so_OrganizationID (t_organizations t) \<and>
     unique_on id (t_organization_users t) \<and>
     unique_on ss_SessionID (t_sessions t) \<and> unique_on ss_RefreshToken (t_sessions t) \<and>
     unique_on sv_SsoID (t_sso_providers t) \<and> unique_on sg_ID (t_git_repository t)"

lemma keys_ok_inserts:
  assumes "keys_ok t"
  shows "keys_ok (snd (ins_user now i nm un pw em t))"
    and "keys_ok (snd (ins_organization i nm ds t))"
    and "keys_ok (snd (ins_member i j t))"
    and "keys_ok (snd (ins_session now i j rt t))"
    and "keys_ok (snd (ins_sso now i j nm pr u t))"
    and "keys_ok (snd (ins_repository now i nm ds pv ow rf t))"
  using assms
  by (auto simp: keys_ok_def ins_user_def ins_organization_def ins_member_def ins_session_def
      ins_sso_def ins_repository_def user_insertable_def new_user_row_def Let_def list_all_iff)

lemma keys_ok_deletes:
  assumes "keys_ok t"
  shows "keys_ok (snd (del_member i j t))"
    and "keys_ok (snd (del_organization i t))"
    and "keys_ok (snd (del_sessions p t))"
    and "keys_ok (snd (del_sso i t))"
  using assms by (simp_all add: del_sso_def keys_ok_def del_member_def del_organization_def del_sessions_def)

lemma keys_ok_updates:
  assumes "keys_ok t"
  shows "(\<And>u. su_UserID (f u) = su_UserID u \<and> su_Username (f u) = su_Username u \<and> su_Email (f u) = su_Email u)
      \<Longrightarrow> keys_ok (snd (upd_users i f t))"
    and "keys_ok (snd (soft_del_repository now i t))"
    and "keys_ok (snd (upd_repository now i nm ds pv ow rf t))"
  using assms by (simp_all add: keys_ok_def upd_users_def soft_del_repository_def soft_deleted_def
      upd_repository_def)

lemma sel_same [simp]:
  "snd (sel_users p t) = t" "snd (sel_sessions q t) = t" "snd (sel_sso r t) = t"
  "snd (sel_repositories s t) = t" "snd (bad_args t) = t"
  by (simp_all add: sel_users_def sel_sessions_def sel_sso_def sel_repositories_def bad_args_def)

lemma keys_ok_sql_sem:
  assumes "keys_ok t"
  shows "keys_ok (snd (sql_sem st now args t))"
  using assms
  by (cases st)
     (auto simp: keys_ok_inserts keys_ok_deletes keys_ok_updates bind_eq_Some_conv
      split: list.splits pgval.splits option.splits)

text \<open>
  The other half of the constraints: primary keys are not \<open>NULL\<close> and foreign keys refer to a
  row. Users are never removed, only marked as deleted; memberships go with their organization.
\<close>

definition refs_ok :: "tables \<Rightarrow> bool" where
  "refs_ok t \<longleftrightarrow>
     list_all (\<lambda>u. UuidValid (su_UserID u)) (t_users t) \<and>
     list_all (\<lambda>g. UuidValid (so_OrganizationID g)) (t_organizations t) \<and>
     list_all (\<lambda>m. organization_exists t (sm_OrganizationID m) \<and> user_exists t (sm_UserID m))
       (t_organization_users t) \<and>
     list_all (\<lambda>s. UuidValid (ss_SessionID s) \<and> user_exists t (ss_UserID s)) (t_sessions t) \<and>
     list_all (\<lambda>s. UuidValid (sv_SsoID s) \<and> user_exists t (sv_UserID s)) (t_sso_providers t) \<and>
     list_all (\<lambda>g. UuidValid (sg_ID g) \<and> user_exists t (sg_OwnerID g)) (t_git_repository t)"

lemma uuid_eq_valid: "uuid_eq a b \<Longrightarrow> UuidValid a \<and> UuidValid b"
  by (simp add: uuid_eq_def)

lemma uuid_eq_trans: "uuid_eq a b \<Longrightarrow> uuid_eq a c \<Longrightarrow> uuid_eq b c"
  by (simp add: uuid_eq_def)

lemma user_exists_valid: "user_exists t i \<Longrightarrow> UuidValid i"
  by (auto simp: user_exists_def uuid_eq_def)

lemma exists_update [simp]:
  "user_exists (t\<lparr>t_organizations := a\<rparr>) i = user_exists t i"
  "user_exists (t\<lparr>t_organization_users := b\<rparr>) i = user_exists t i"
  "user_exists (t\<lparr>t_sessions := c\<rparr>) i = user_exists t i"
  "user_exists (t\<lparr>t_sso_providers := d\<rparr>) i = user_exists t i"
  "user_exists (t\<lparr>t_git_repository := e\<rparr>) i = user_exists t i"
  "organization_exists (t\<lparr>t_users := f\<rparr>) i = organization_exists t i"
  "organization_exists (t\<lparr>t_organization_users := b\<rparr>) i = organization_exists t i"
  "organization_exists (t\<lparr>t_sessions := c\<rparr>) i = organization_exists t i"
  "organization_exists (t\<lparr>t_sso_providers := d\<rparr>) i = organization_exists t i"
  "organization_exists (t\<lparr>t_git_repository := e\<rparr>) i = organization_exists t i"
  "user_exists (t\<lparr>t_users := t_users t @ us\<rparr>) i \<longleftrightarrow> user_exists t i \<or> (\<exists>u \<in> set us. uuid_eq (su_UserID u) i)"
  "organization_exists (t\<lparr>t_organizations := t_organizations t @ gs\<rparr>) i \<longleftrightarrow>
     organization_exists t i \<or> (\<exists>g \<in> set gs. uuid_eq (so_OrganizationID g) i)"
  by (auto simp: user_exists_def organization_exists_def)

lemma user_exists_map [simp]:
  assumes "\<And>u. su_UserID (f u) = su_UserID u"
  shows "user_exists (t\<lparr>t_users := map (\<lambda>u. if p u then f u else u) (t_users t)\<rparr>) i = user_exists t i"
proof -
  have "su_UserID (if p u then f u else u) = su_UserID u" for u using assms by simp
  then show ?thesis by (simp add: user_exists_def del: if_image_distrib)
qed

lemma organization_exists_filter:
  assumes "organization_exists t j" "\<not> uuid_eq j i"
  shows "organization_exists (t\<lparr>t_organizations := filter (\<lambda>g. \<not> uuid_eq (so_OrganizationID g) i) (t_organizations t)\<rparr>) j"
proof -
  from assms(1) obtain g where g: "g \<in> set (t_organizations t)" "uuid_eq (so_OrganizationID g) j"
    by (auto simp: organization_exists_def)
  with assms(2) have "\<not> uuid_eq (so_OrganizationID g) i" using uuid_eq_trans by blast
  with g show ?thesis by (auto simp: organization_exists_def)
qed

lemma list_all_filter_mono: "list_all q xs \<Longrightarrow> list_all q (filter p xs)"
  by (auto simp: list_all_iff)

lemma list_all_map_if:
  "list_all q xs \<Longrightarrow> (\<And>x. q x \<Longrightarrow> p x \<Longrightarrow> q (f x)) \<Longrightarrow> list_all q (map (\<lambda>x. if p x then f x else x) xs)"
  by (auto simp: list_all_iff)

lemma list_all_weaken: "list_all p xs \<Longrightarrow> (\<And>x. p x \<Longrightarrow> q x) \<Longrightarrow> list_all q xs"
  by (auto simp: list_all_iff)

lemma refs_ok_inserts:
  assumes "refs_ok t"
  shows "refs_ok (snd (ins_user now i nm un pw em t))"
    and "refs_ok (snd (ins_organization i nm ds t))"
    and "refs_ok (snd (ins_member i j t))"
    and "refs_ok (snd (ins_session now i j rt t))"
    and "refs_ok (snd (ins_sso now i j nm pr u t))"
    and "refs_ok (snd (ins_repository now i nm ds pv ow rf t))"
  using assms
  by (auto simp: refs_ok_def ins_user_def ins_organization_def ins_member_def ins_session_def
      ins_sso_def ins_repository_def user_insertable_def new_user_row_def Let_def
      elim!: list_all_weaken)

lemma refs_ok_deletes:
  assumes "refs_ok t"
  shows "refs_ok (snd (del_member i j t))"
    and "refs_ok (snd (del_organization i t))"
    and "refs_ok (snd (del_sessions p t))"
    and "refs_ok (snd (del_sso i t))"
  using assms
  by (auto simp: refs_ok_def del_member_def del_organization_def del_sessions_def del_sso_def list_all_iff
      organization_exists_filter)

lemma refs_ok_upd_users:
  assumes "refs_ok t" "\<And>u. su_UserID (f u) = su_UserID u"
  shows "refs_ok (snd (upd_users i f t))"
  using assms by (auto simp: refs_ok_def upd_users_def list_all_iff)

lemma refs_ok_repositories:
  assumes "refs_ok t"
  shows "refs_ok (snd (soft_del_repository now i t))"
    and "refs_ok (snd (upd_repository now i nm ds pv ow rf t))"
  using assms
  by (auto simp: refs_ok_def soft_del_repository_def soft_deleted_def upd_repository_def list_all_iff)

definition schema_ok :: "tables \<Rightarrow> bool" where
  "schema_ok t \<longleftrightarrow> keys_ok t \<and> refs_ok t"

lemma schema_ok_empty: "schema_ok empty_tables"
  by (simp add: schema_ok_def keys_ok_def refs_ok_def empty_tables_def)

lemma schema_ok_sql_sem:
  assumes "schema_ok t"
  shows "schema_ok (snd (sql_sem st now args t))"
proof -
  from assms have r: "refs_ok t" and k: "keys_ok t" by (simp_all add: schema_ok_def)
  have "refs_ok (snd (sql_sem st now args t))"
    using r
    by (cases st)
       (auto simp: refs_ok_inserts refs_ok_deletes refs_ok_upd_users refs_ok_repositories
          split: list.splits pgval.splits option.splits Option.bind_splits)
  with keys_ok_sql_sem [OF k] show ?thesis by (simp add: schema_ok_def)
qed

section \<open>Statements that only read\<close>

text \<open>The statement returns the rows of a table that satisfy a condition, or refuses its arguments.\<close>

definition selects ::
  "stmt \<Rightarrow> pgval list \<Rightarrow> ('a \<Rightarrow> pgval list) \<Rightarrow> (tables \<Rightarrow> 'a list) \<Rightarrow> bool" where
  "selects st args row result \<longleftrightarrow>
     (\<forall>now t. sql_sem st now args t = (Inr (map row (result t)), t) \<or>
              (\<exists>e. sql_sem st now args t = (Inl e, t)))"

lemma selects_users:
  "selects getUserByID [VUuid i] row_user
     (\<lambda>t. filter (\<lambda>u. uuid_eq (su_UserID u) i \<and> \<not> su_IsDeleted u) (t_users t))"
  "selects getUserByEmail [VStr s] row_user (\<lambda>t. filter (\<lambda>u. su_Email u = s \<and> \<not> su_IsDeleted u) (t_users t))"
  "selects getUserByUsername [VStr s] row_user (\<lambda>t. filter (\<lambda>u. su_Username u = s \<and> \<not> su_IsDeleted u) (t_users t))"
  "selects getUsersByOrganizationID [VUuid i] row_user (users_of_org i)"
  by (simp_all add: selects_def sel_users_def bad_args_def)

lemma selects_organizations:
  "selects getOrganizationByID [VUuid i] row_organization
     (\<lambda>t. filter (\<lambda>g. uuid_eq (so_OrganizationID g) i) (t_organizations t))"
  "selects getOrganizationsByUserID [VUuid i] row_organization (orgs_of_user i)"
  by (simp_all add: selects_def)

lemma selects_sessions:
  "selects getSessionByID [VUuid i] row_session (\<lambda>t. filter (\<lambda>s. uuid_eq (ss_SessionID s) i) (t_sessions t))"
  "selects getSessionByRefreshToken [VStr r] row_session (\<lambda>t. filter (\<lambda>s. ss_RefreshToken s = r) (t_sessions t))"
  by (simp_all add: selects_def sel_sessions_def bad_args_def)

lemma selects_sso:
  "selects getSSOByProviderAndUsername [VStr pr, VText un] row_sso
     (\<lambda>t. filter (\<lambda>s. sv_Provider s = pr \<and> text_eq (sv_Username s) un) (t_sso_providers t))"
  "selects getSSOByUserID [VUuid i] row_sso (\<lambda>t. filter (\<lambda>s. uuid_eq (sv_UserID s) i) (t_sso_providers t))"
  by (simp_all add: selects_def sel_sso_def bad_args_def)

lemma selects_repositories:
  "selects getRepositoryByID [VUuid i] row_repository (\<lambda>t. filter (\<lambda>g. uuid_eq (sg_ID g) i) (t_git_repository t))"
  "selects getRepositoryByOwnerId [VUuid i] row_repository
     (\<lambda>t. filter (\<lambda>g. uuid_eq (sg_OwnerID g) i) (t_git_repository t))"
  "selects getRepositoryByRepositoryName [VStr s] row_repository
     (\<lambda>t. filter (\<lambda>g. sg_Name g = s) (t_git_repository t))"
  by (simp_all add: selects_def sel_repositories_def bad_args_def)

end
