(* ===== verification/Backend.thy ===== *)
theory Backend
  imports Relational
begin

text \<open>
  What the modules call and the repository does not contain: the Postgres pool behind
  \<open>sqlc.DBTX\<close>, the go-redis client, \<open>crypto/rand\<close>, \<^verbatim>\<open>google/uuid\<close> and \<open>bcrypt\<close>. Each is a record
  of operations on an arbitrary state of the world \<open>'w\<close>; a locale states the documented
  behaviour the code relies on, through observations of the world: the tables, the Redis keys
  with their expiry, the clock, and whether the services are \<open>up\<close>. An operation of a service
  may fail at any time with an error the code compares with nothing, and then it may or may not
  have taken effect. The last section has a world in which all of this holds.
\<close>

section \<open>Postgres\<close>

definition foreign :: "gerror \<Rightarrow> bool" where
  "foreign e \<longleftrightarrow> (\<forall>s. \<not> errors_is e s)"

lemma foreign_Opaque [simp]: "foreign (Opaque m)"
  by (simp add: foreign_def)

lemma foreign_Sentinel [simp]: "\<not> foreign (Sentinel s)"
  by (auto simp: foreign_def)

lemma foreign_Wrap [simp]: "foreign (Wrap m e) = foreign e"
  by (simp add: foreign_def)

lemma foreignD [dest]: "foreign e \<Longrightarrow> errors_is e s \<Longrightarrow> False"
  by (simp add: foreign_def)

lemma scan_rows_foreign: "scan_rows scan rows = Inl e \<Longrightarrow> foreign e"
  by (induction rows) (auto simp: scan_error_def split: option.splits sum.splits)

lemma scan_rows_map [simp]:
  assumes "\<And>x. scan (row x) = Some x"
  shows "scan_rows scan (map row xs) = Inr xs"
  using assms by (induction xs) auto

text \<open>
  What every store does with the result of a single-row query: its own error for
  \<open>pgx.ErrNoRows\<close>, any other error as it is, and the row converted to the domain type.
\<close>

definition found :: "sentinel \<Rightarrow> ('a \<Rightarrow> 'b) \<Rightarrow> (gerror + 'a) \<times> 'w \<Rightarrow> (gerror + 'b) \<times> 'w" where
  "found s conv r =
     (case r of
        (Inl e, w') \<Rightarrow> (Inl (if errors_is e pgx_ErrNoRows then Sentinel s else e), w')
      | (Inr row, w') \<Rightarrow> (Inr (conv row), w'))"

lemma snd_found [simp]: "snd (found s conv r) = snd r"
  by (simp add: found_def split: prod.splits sum.splits)

locale postgres =
  fixes db :: "'w dbtx" and tbl :: "'w \<Rightarrow> tables" and clock :: "'w \<Rightarrow> int" and up :: "'w \<Rightarrow> bool"
  assumes exec_ok: "Exec db st args w = (None, w') \<Longrightarrow>
        \<exists>rows. sql_sem st (clock w) args (tbl w) = (Inr rows, tbl w')"
    and exec_err: "Exec db st args w = (Some e, w') \<Longrightarrow>
        foreign e \<and> tbl w' \<in> {tbl w, snd (sql_sem st (clock w) args (tbl w))}"
    and exec_up: "up w \<Longrightarrow> sql_sem st (clock w) args (tbl w) = (Inr rows, t) \<Longrightarrow>
        fst (Exec db st args w) = None"
    and row_ok: "QueryRow db st args w = (Inr row, w') \<Longrightarrow>
        \<exists>rows. sql_sem st (clock w) args (tbl w) = (Inr (row # rows), tbl w')"
    and row_none: "QueryRow db st args w = (Inl e, w') \<Longrightarrow> errors_is e pgx_ErrNoRows \<Longrightarrow>
        sql_sem st (clock w) args (tbl w) = (Inr [], tbl w')"
    and row_err: "QueryRow db st args w = (Inl e, w') \<Longrightarrow> \<not> errors_is e pgx_ErrNoRows \<Longrightarrow>
        tbl w' \<in> {tbl w, snd (sql_sem st (clock w) args (tbl w))}"
    and row_foreign: "QueryRow db st args w = (Inl e, w') \<Longrightarrow> errors_is e s \<Longrightarrow> s = pgx_ErrNoRows"
    and row_up: "up w \<Longrightarrow> sql_sem st (clock w) args (tbl w) = (Inr rows, t) \<Longrightarrow>
        (case rows of [] \<Rightarrow> (\<exists>e. fst (QueryRow db st args w) = Inl e \<and> errors_is e pgx_ErrNoRows)
         | row # _ \<Rightarrow> fst (QueryRow db st args w) = Inr row)"
    and many_ok: "Query db st args w = (Inr (rows, None), w') \<Longrightarrow>
        sql_sem st (clock w) args (tbl w) = (Inr rows, tbl w')"
    and many_err: "Query db st args w = (Inl e, w') \<Longrightarrow>
        foreign e \<and> tbl w' \<in> {tbl w, snd (sql_sem st (clock w) args (tbl w))}"
    and many_late: "Query db st args w = (Inr (rows, Some e), w') \<Longrightarrow>
        foreign e \<and> tbl w' \<in> {tbl w, snd (sql_sem st (clock w) args (tbl w))}"
    and many_up: "up w \<Longrightarrow> sql_sem st (clock w) args (tbl w) = (Inr rows, t) \<Longrightarrow>
        fst (Query db st args w) = Inr (rows, None)"
    and db_up: "up w \<Longrightarrow> up (snd (Exec db st args w))"
      "up w \<Longrightarrow> up (snd (QueryRow db st args w))" "up w \<Longrightarrow> up (snd (Query db st args w))"
    and db_clock: "clock w \<le> clock (snd (Exec db st args w))"
      "clock w \<le> clock (snd (QueryRow db st args w))" "clock w \<le> clock (snd (Query db st args w))"
begin

text \<open>The constraints of the schema hold whatever the statement and whatever its outcome.\<close>

lemma schema_ok_exec: "schema_ok (tbl w) \<Longrightarrow> schema_ok (tbl (snd (Exec db st args w)))"
proof (cases "Exec db st args w")
  case (Pair r w')
  assume "schema_ok (tbl w)"
  then have "schema_ok (snd (sql_sem st (clock w) args (tbl w)))" by (rule schema_ok_sql_sem)
  with Pair \<open>schema_ok (tbl w)\<close> show ?thesis
    by (cases r) (auto dest!: exec_ok exec_err)
qed

lemma schema_ok_row: "schema_ok (tbl w) \<Longrightarrow> schema_ok (tbl (snd (QueryRow db st args w)))"
proof (cases "QueryRow db st args w")
  case (Pair r w')
  assume a: "schema_ok (tbl w)"
  then have k: "schema_ok (snd (sql_sem st (clock w) args (tbl w)))" by (rule schema_ok_sql_sem)
  show ?thesis
  proof (cases r)
    case (Inl e)
    show ?thesis
    proof (cases "errors_is e pgx_ErrNoRows")
      case True
      with Pair Inl k show ?thesis by (auto dest!: row_none)
    next
      case False
      with Pair Inl k a show ?thesis by (auto dest!: row_err)
    qed
  next
    case (Inr row)
    with Pair k show ?thesis by (auto dest!: row_ok)
  qed
qed

lemma schema_ok_many: "schema_ok (tbl w) \<Longrightarrow> schema_ok (tbl (snd (Query db st args w)))"
proof (cases "Query db st args w")
  case (Pair r w')
  assume a: "schema_ok (tbl w)"
  then have k: "schema_ok (snd (sql_sem st (clock w) args (tbl w)))" by (rule schema_ok_sql_sem)
  with Pair a show ?thesis
    by (cases r; cases "snd (projr r)") (auto dest!: many_ok many_err many_late)
qed

text \<open>The three shapes of a query method, on the tables.\<close>

lemma query_one_ok:
  assumes "query_one db st scan args w = (Inr x, w')"
  shows "\<exists>row rows. sql_sem st (clock w) args (tbl w) = (Inr (row # rows), tbl w') \<and> scan row = Some x"
  using assms by (force simp: query_one_def split: prod.splits sum.splits option.splits dest: row_ok)

lemma query_one_none:
  assumes "query_one db st scan args w = (Inl e, w')" "errors_is e pgx_ErrNoRows"
  shows "sql_sem st (clock w) args (tbl w) = (Inr [], tbl w')"
  using assms
  by (auto simp: query_one_def scan_error_def split: prod.splits sum.splits option.splits dest: row_none)

lemma query_one_foreign:
  assumes "query_one db st scan args w = (Inl e, w')" "errors_is e s"
  shows "s = pgx_ErrNoRows"
  using assms
  by (auto simp: query_one_def scan_error_def split: prod.splits sum.splits option.splits dest: row_foreign)

lemma query_one_err:
  assumes "query_one db st scan args w = (Inl e, w')" "\<not> errors_is e pgx_ErrNoRows"
  shows "tbl w' \<in> {tbl w, snd (sql_sem st (clock w) args (tbl w))}"
  using assms
  by (auto simp: query_one_def scan_error_def split: prod.splits sum.splits option.splits
      dest!: row_err row_ok)

lemma query_one_up:
  assumes "up w" "sql_sem st (clock w) args (tbl w) = (Inr rows, t)"
    "\<And>row. row \<in> set rows \<Longrightarrow> scan row \<noteq> None"
  shows "case rows of
      [] \<Rightarrow> \<exists>e. fst (query_one db st scan args w) = Inl e \<and> errors_is e pgx_ErrNoRows
    | row # _ \<Rightarrow> \<exists>x. scan row = Some x \<and> fst (query_one db st scan args w) = Inr x"
proof (cases rows)
  case Nil
  with row_up [OF assms(1,2)] show ?thesis
    by (auto simp: query_one_def split: prod.splits sum.splits option.splits)
next
  case (Cons row rows')
  with row_up [OF assms(1,2)] assms(3) [of row] show ?thesis
    by (auto simp: query_one_def split: prod.splits)
qed

lemma query_one_frame:
  "up w \<Longrightarrow> up (snd (query_one db st scan args w))"
  "clock w \<le> clock (snd (query_one db st scan args w))"
  using db_up(2) [of w st args] db_clock(2) [of w st args]
  by (auto simp: query_one_def split: prod.splits sum.splits option.splits)

lemma schema_ok_query:
  assumes "schema_ok (tbl w)"
  shows "schema_ok (tbl (snd (query_one db st scan args w)))"
    and "schema_ok (tbl (snd (query_many db st scan args w)))"
  using schema_ok_row [OF assms, of st args] schema_ok_many [OF assms, of st args]
  by (auto simp: query_one_def query_many_def split: prod.splits sum.splits option.splits)

lemma schema_ok_step:
  "query_one db st scan args w = (r, w') \<Longrightarrow> schema_ok (tbl w) \<Longrightarrow> schema_ok (tbl w')"
  "query_many db st scan2 args w = (r2, w') \<Longrightarrow> schema_ok (tbl w) \<Longrightarrow> schema_ok (tbl w')"
  "Exec db st args w = (x, w') \<Longrightarrow> schema_ok (tbl w) \<Longrightarrow> schema_ok (tbl w')"
  using schema_ok_query [of w st scan args] schema_ok_query [of w st scan2 args]
    schema_ok_exec [of w st args]
  by (metis snd_conv)+

text \<open>A statement that fails may have taken effect, as when the connection broke before the answer.\<close>

lemma exec_err_cases:
  assumes "Exec db st args w = (Some e, w')"
  obtains "tbl w' = tbl w" | rows where "sql_sem st (clock w) args (tbl w) = (Inr rows, tbl w')"
proof (cases "sql_sem st (clock w) args (tbl w)")
  case (Pair r t)
  from exec_err [OF assms] consider "tbl w' = tbl w" | "tbl w' = t" unfolding Pair by auto
  then show ?thesis
  proof cases
    case 2
    with Pair that sql_sem_error [of st "clock w" args "tbl w"] show ?thesis by (cases r) simp_all
  qed (rule that(1))
qed

text \<open>An \<open>INSERT ... RETURNING\<close> gives a row or fails; failing, it may still have happened.\<close>

lemma insert_err:
  assumes "query_one db st scan args w = (Inl e, w')"
    and "\<And>t'. sql_sem st (clock w) args (tbl w) \<noteq> (Inr [], t')"
  shows "foreign e \<and> (tbl w' = tbl w \<or>
      (\<exists>row rows. sql_sem st (clock w) args (tbl w) = (Inr (row # rows), tbl w')))"
proof -
  have n: "\<not> errors_is e pgx_ErrNoRows"
    using query_one_none [OF assms(1)] assms(2) by blast
  then have "foreign e"
    using query_one_foreign [OF assms(1)] by (metis foreign_def)
  moreover have "tbl w' \<in> {tbl w, snd (sql_sem st (clock w) args (tbl w))}"
    using query_one_err [OF assms(1) n] .
  ultimately show ?thesis
    using assms(2) sql_sem_error
    by (cases "sql_sem st (clock w) args (tbl w)"; cases "fst (sql_sem st (clock w) args (tbl w))";
        cases "projr (fst (sql_sem st (clock w) args (tbl w)))") auto
qed

lemma query_many_frame:
  "up w \<Longrightarrow> up (snd (query_many db st scan args w))"
  "clock w \<le> clock (snd (query_many db st scan args w))"
  using db_up(3) [of w st args] db_clock(3) [of w st args]
  by (auto simp: query_many_def split: prod.splits sum.splits option.splits)

lemma query_many_up:
  assumes "up w" "sql_sem st (clock w) args (tbl w) = (Inr (map row xs), t)" "\<And>x. scan (row x) = Some x"
  shows "fst (query_many db st scan args w) = Inr xs"
  using many_up [OF assms(1,2)] assms(3) by (auto simp: query_many_def split: prod.splits)

lemma query_many_foreign:
  "query_many db st scan args w = (Inl e, w') \<Longrightarrow> foreign e"
  by (auto simp: query_many_def scan_error_def scan_rows_foreign
      split: prod.splits sum.splits option.splits dest: many_err many_late)

lemma query_many_ok:
  assumes "query_many db st scan args w = (Inr xs, w')"
  shows "\<exists>rows. sql_sem st (clock w) args (tbl w) = (Inr rows, tbl w') \<and> scan_rows scan rows = Inr xs"
  using assms
  by (auto simp: query_many_def split: prod.splits sum.splits option.splits dest: many_ok)

text \<open>Methods that read: the row found, the rows there are, and the tables as they were.\<close>

lemma select_same:
  assumes "selects st args row result"
  shows "snd (sql_sem st now args t) = t"
  using assms unfolding selects_def by (metis snd_conv)

lemma select_frame:
  assumes "selects st args row result"
  shows "tbl (snd (query_one db st scan args w)) = tbl w"
    and "tbl (snd (query_many db st scan args w)) = tbl w"
proof -
  note same = select_same [OF assms]
  show "tbl (snd (query_one db st scan args w)) = tbl w"
  proof (cases "query_one db st scan args w")
    case (Pair r w')
    show ?thesis
    proof (cases r)
      case (Inl e)
      with Pair show ?thesis
        using query_one_none [of st scan args w e w'] query_one_err [of st scan args w e w'] same
        by (cases "errors_is e pgx_ErrNoRows") (auto dest: arg_cong [where f = snd])
    next
      case (Inr x)
      with Pair query_one_ok [of st scan args w x w'] show ?thesis
        using same by (metis snd_conv)
    qed
  qed
  have "tbl (snd (Query db st args w)) = tbl w"
  proof (cases "Query db st args w")
    case (Pair r w')
    show ?thesis
    proof (cases r)
      case (Inl e)
      with Pair same show ?thesis by (auto dest!: many_err)
    next
      case (Inr x)
      then show ?thesis
        using Pair same many_ok [of st args w "fst x" w'] many_late [of st args w "fst x" _ w']
        by (cases x; cases "snd x") (auto dest: arg_cong [where f = snd])
    qed
  qed
  then show "tbl (snd (query_many db st scan args w)) = tbl w"
    by (auto simp: query_many_def split: prod.splits sum.splits option.splits)
qed

lemma select_one_ok:
  assumes "selects st args row result" "\<And>x. scan (row x) = Some x"
    and "query_one db st scan args w = (Inr x, w')"
  shows "\<exists>xs. result (tbl w) = x # xs"
proof -
  from query_one_ok [OF assms(3)] obtain r rows
    where "sql_sem st (clock w) args (tbl w) = (Inr (r # rows), tbl w')" "scan r = Some x" by blast
  with assms(1) have "map row (result (tbl w)) = r # rows"
    unfolding selects_def by (metis Inl_Inr_False fst_conv sum.inject(2))
  with \<open>scan r = Some x\<close> assms(2) show ?thesis by (auto simp: map_eq_Cons_conv)
qed

lemma select_one_none:
  assumes "selects st args row result"
    and "query_one db st scan args w = (Inl e, w')" "errors_is e pgx_ErrNoRows"
  shows "result (tbl w) = []"
proof -
  from query_one_none [OF assms(2,3)] assms(1) have "map row (result (tbl w)) = []"
    unfolding selects_def by (metis Inl_Inr_False fst_conv sum.inject(2))
  then show ?thesis by simp
qed

lemma select_many_ok:
  assumes "selects st args row result" "\<And>x. scan (row x) = Some x"
    and "query_many db st scan args w = (Inr xs, w')"
  shows "xs = result (tbl w)"
proof -
  from query_many_ok [OF assms(3)] obtain rows
    where r: "sql_sem st (clock w) args (tbl w) = (Inr rows, tbl w')" "scan_rows scan rows = Inr xs" by blast
  with assms(1) have "rows = map row (result (tbl w))"
    unfolding selects_def by (metis Inl_Inr_False fst_conv sum.inject(2))
  with r(2) assms(2) show ?thesis by simp
qed

text \<open>The same for a method of a store, with its own error for no row.\<close>

lemma found_ok:
  assumes "selects st args row result" "\<And>x. scan (row x) = Some x"
    and "found s f (query_one db st scan args w) = (Inr x, w')"
  shows "\<exists>y ys. result (tbl w) = y # ys \<and> x = f y"
  using assms(3) select_one_ok [OF assms(1,2)]
  by (fastforce simp: found_def split: prod.splits sum.splits)

lemma found_none:
  assumes "selects st args row result"
    and "found s f (query_one db st scan args w) = (Inl e, w')" "errors_is e s" "s \<noteq> pgx_ErrNoRows"
  shows "result (tbl w) = []"
  using assms(2-4) select_one_none [OF assms(1)] query_one_foreign [of st scan args w _ w']
  by (fastforce simp: found_def split: prod.splits sum.splits if_splits)

lemma found_error:
  assumes "found s f (query_one db st scan args w) = (Inl e, w')" "errors_is e s'"
  shows "s' = s"
  using assms query_one_foreign [of st scan args w _ w']
  by (fastforce simp: found_def split: prod.splits sum.splits if_splits)

lemma found_up:
  assumes "up w" "sql_sem st (clock w) args (tbl w) = (Inr (map row xs), t)" "\<And>x. scan (row x) = Some x"
  shows "fst (found s f (query_one db st scan args w)) =
     (case xs of [] \<Rightarrow> Inl (Sentinel s) | x # _ \<Rightarrow> Inr (f x))"
proof -
  have rows: "r \<in> set (map row xs) \<Longrightarrow> scan r \<noteq> None" for r
    using assms(3) by auto
  show ?thesis
    using query_one_up [where scan = scan, OF assms(1,2) rows] assms(3)
    by (auto simp: found_def split: prod.splits sum.splits list.splits)
qed

end

section \<open>Redis\<close>

text \<open>
  \<open>SET key value EX ttl\<close>, \<open>GET\<close> (the error \<open>redis.Nil\<close> when the key is not there) and \<open>DEL\<close>.
  The database maps a key to its value and the instant it expires at; a key is seen until then.
\<close>

record 'w redis_client =
  RSet :: "string \<Rightarrow> string \<Rightarrow> int \<Rightarrow> 'w \<Rightarrow> gerror option \<times> 'w"
  RGet :: "string \<Rightarrow> 'w \<Rightarrow> (gerror + string) \<times> 'w"
  RDel :: "string \<Rightarrow> 'w \<Rightarrow> gerror option \<times> 'w"

type_synonym redis_db = "string \<rightharpoonup> string \<times> int"

definition live :: "redis_db \<Rightarrow> int \<Rightarrow> string \<Rightarrow> string option" where
  "live m now k = (case m k of Some (v, expiry) \<Rightarrow> if now < expiry then Some v else None | None \<Rightarrow> None)"

lemma live_update [simp]:
  "live (m(k \<mapsto> (v, expiry))) now k' =
     (if k' = k then (if now < expiry then Some v else None) else live m now k')"
  by (simp add: live_def)

lemma live_delete [simp]: "live (m(k := None)) now k' = (if k' = k then None else live m now k')"
  by (simp add: live_def)

lemma live_later: "live m now' k = Some v \<Longrightarrow> now \<le> now' \<Longrightarrow> live m now k = Some v"
  by (auto simp: live_def split: option.splits if_splits)

locale redis =
  fixes rc :: "'w redis_client" and kv :: "'w \<Rightarrow> redis_db" and clock :: "'w \<Rightarrow> int"
    and up :: "'w \<Rightarrow> bool"
  assumes set_ok: "RSet rc k v ttl w = (None, w') \<Longrightarrow> kv w' = (kv w)(k \<mapsto> (v, clock w + ttl))"
    and set_err: "RSet rc k v ttl w = (Some e, w') \<Longrightarrow>
        foreign e \<and> kv w' \<in> {kv w, (kv w)(k \<mapsto> (v, clock w + ttl))}"
    and get_ok: "RGet rc k w = (Inr v, w') \<Longrightarrow> live (kv w) (clock w) k = Some v"
    and get_nil: "RGet rc k w = (Inl e, w') \<Longrightarrow> errors_is e redis_Nil \<Longrightarrow>
        e = Sentinel redis_Nil \<and> live (kv w) (clock w) k = None"
    and get_foreign: "RGet rc k w = (Inl e, w') \<Longrightarrow> errors_is e s \<Longrightarrow> s = redis_Nil"
    and get_frame: "kv (snd (RGet rc k w)) = kv w"
    and del_ok: "RDel rc k w = (None, w') \<Longrightarrow> kv w' = (kv w)(k := None)"
    and del_err: "RDel rc k w = (Some e, w') \<Longrightarrow> foreign e \<and> kv w' \<in> {kv w, (kv w)(k := None)}"
    and redis_works: "up w \<Longrightarrow> fst (RSet rc k v ttl w) = None"
      "up w \<Longrightarrow> fst (RGet rc k w) =
         (case live (kv w) (clock w) k of Some v \<Rightarrow> Inr v | None \<Rightarrow> Inl (Sentinel redis_Nil))"
      "up w \<Longrightarrow> fst (RDel rc k w) = None"
    and redis_up: "up w \<Longrightarrow> up (snd (RSet rc k v ttl w))" "up w \<Longrightarrow> up (snd (RGet rc k w))"
      "up w \<Longrightarrow> up (snd (RDel rc k w))"
    and redis_clock: "clock w \<le> clock (snd (RSet rc k v ttl w))" "clock w \<le> clock (snd (RGet rc k w))"
      "clock w \<le> clock (snd (RDel rc k w))"
begin

text \<open>Whatever \<open>Set\<close> and \<open>Del\<close> report, no other key changes.\<close>

lemma set_other: "k' \<noteq> k \<Longrightarrow> kv (snd (RSet rc k v ttl w)) k' = kv w k'"
  by (cases "RSet rc k v ttl w"; cases "fst (RSet rc k v ttl w)") (auto dest!: set_ok set_err)

lemma del_other: "k' \<noteq> k \<Longrightarrow> kv (snd (RDel rc k w)) k' = kv w k'"
  by (cases "RDel rc k w"; cases "fst (RDel rc k w)") (auto dest!: del_ok del_err)

lemma get_same: "RGet rc k w = (r, w') \<Longrightarrow> kv w' = kv w"
  using get_frame [of k w] by simp

lemma get_dead: "live (kv w) (clock w) k = None \<Longrightarrow> RGet rc k w = (r, w') \<Longrightarrow> \<exists>e. r = Inl e"
  by (cases r) (auto dest: get_ok)

end

section \<open>Entropy, UUIDs and bcrypt\<close>

record 'w entropy =
  RandRead :: "nat \<Rightarrow> 'w \<Rightarrow> (gerror + bytes) \<times> 'w"
  NewV7 :: "'w \<Rightarrow> (gerror + uuid) \<times> 'w"

record uuid_text =
  uuid_String :: "uuid \<Rightarrow> string"
  uuid_Parse :: "string \<Rightarrow> gerror + uuid"

locale uuid_codec =
  fixes ut :: uuid_text
  assumes parse_string: "uuid_Parse ut (uuid_String ut u) = Inr u"
    and string_nonempty: "uuid_String ut u \<noteq> []"
    and parse_foreign: "uuid_Parse ut s = Inl e \<Longrightarrow> foreign e"
begin

lemma uuid_String_inject: "uuid_String ut u = uuid_String ut v \<longleftrightarrow> u = v"
  by (metis parse_string sum.inject(2))

end

record 'w bcrypt =
  GenerateFromPassword :: "bytes \<Rightarrow> 'w \<Rightarrow> (gerror + bytes) \<times> 'w"
  CompareHashAndPassword :: "bytes \<Rightarrow> bytes \<Rightarrow> gerror option"

section \<open>The services together\<close>

text \<open>Each operation leaves the state of the other services alone.\<close>

locale backend = postgres db tbl clock up + redis rc kv clock up + uuid_codec ut
  for db :: "'w dbtx" and tbl :: "'w \<Rightarrow> tables" and clock :: "'w \<Rightarrow> int" and up :: "'w \<Rightarrow> bool"
    and rc :: "'w redis_client" and kv :: "'w \<Rightarrow> redis_db" and ut :: uuid_text +
  fixes ent :: "'w entropy" and bc :: "'w bcrypt"
  assumes db_kv: "kv (snd (Exec db st args w)) = kv w" "kv (snd (QueryRow db st args w)) = kv w"
      "kv (snd (Query db st args w)) = kv w"
    and redis_tbl: "tbl (snd (RSet rc k v ttl w)) = tbl w" "tbl (snd (RGet rc k w)) = tbl w"
      "tbl (snd (RDel rc k w)) = tbl w"
    and rand_length: "RandRead ent n w = (Inr bs, w') \<Longrightarrow> length bs = n"
    and entropy_tbl: "tbl (snd (RandRead ent n w)) = tbl w" "tbl (snd (NewV7 ent w)) = tbl w"
      "tbl (snd (GenerateFromPassword bc pw w)) = tbl w"
    and entropy_kv: "kv (snd (RandRead ent n w)) = kv w" "kv (snd (NewV7 ent w)) = kv w"
      "kv (snd (GenerateFromPassword bc pw w)) = kv w"
    and entropy_clock: "clock w \<le> clock (snd (RandRead ent n w))" "clock w \<le> clock (snd (NewV7 ent w))"
      "clock w \<le> clock (snd (GenerateFromPassword bc pw w))"
    and entropy_works: "up w \<Longrightarrow> \<exists>bs. fst (RandRead ent n w) = Inr bs" "up w \<Longrightarrow> \<exists>u. fst (NewV7 ent w) = Inr u"
    and entropy_up: "up w \<Longrightarrow> up (snd (RandRead ent n w))" "up w \<Longrightarrow> up (snd (NewV7 ent w))"
      "up w \<Longrightarrow> up (snd (GenerateFromPassword bc pw w))"
    and entropy_foreign: "RandRead ent n w = (Inl e, w') \<Longrightarrow> foreign e" "NewV7 ent w = (Inl e, w') \<Longrightarrow> foreign e"
      "GenerateFromPassword bc pw w = (Inl e, w') \<Longrightarrow> foreign e"
    and bcrypt_compare: "GenerateFromPassword bc pw w = (Inr h, w') \<Longrightarrow> CompareHashAndPassword bc h pw = None"

context backend
begin

lemma query_kv:
  "kv (snd (query_one db st scan args w)) = kv w"
  "kv (snd (query_many db st scan2 args w)) = kv w"
  using db_kv(2) [of st args w] db_kv(3) [of st args w]
  by (auto simp: query_one_def query_many_def split: prod.splits sum.splits option.splits)

lemma query_step:
  "query_one db st scan args w = (r, w') \<Longrightarrow> kv w' = kv w \<and> clock w \<le> clock w'"
  "query_many db st scan2 args w = (r2, w') \<Longrightarrow> kv w' = kv w \<and> clock w \<le> clock w'"
  "Exec db st args w = (x, w') \<Longrightarrow> kv w' = kv w \<and> clock w \<le> clock w'"
  using query_kv(1) [of st scan args w] query_kv(2) [of st scan2 args w] db_kv(1) [of st args w]
    query_one_frame(2) [of w st scan args] query_many_frame(2) [of w st scan2 args] db_clock(1) [of w st args]
  by auto

end

section \<open>A world in which they run\<close>

text \<open>
  \<open>sim_faults\<close> schedules failures: an operation whose entry is \<open>True\<close> fails without effect.
  The clock advances by one with each operation, and the seed yields the identifiers and tokens.
  \<open>sim_dirs\<close> are the bare repositories on the disk.
\<close>

record sim =
  sim_tables :: tables
  sim_kv :: redis_db
  sim_clock :: int
  sim_faults :: "bool list"
  sim_seed :: nat
  sim_dirs :: "string list"

definition sim_init :: sim where
  "sim_init = \<lparr>sim_tables = empty_tables, sim_kv = Map.empty, sim_clock = 0, sim_faults = [], sim_seed = 0, sim_dirs = []\<rparr>"

definition sim_up :: "sim \<Rightarrow> bool" where
  "sim_up w \<longleftrightarrow> True \<notin> set (sim_faults w)"

definition tick :: "sim \<Rightarrow> sim" where
  "tick w = w\<lparr>sim_clock := sim_clock w + 1, sim_faults := tl (sim_faults w)\<rparr>"

definition faulty :: "sim \<Rightarrow> bool" where
  "faulty w \<longleftrightarrow> (case sim_faults w of b # _ \<Rightarrow> b | [] \<Rightarrow> False)"

definition sim_error :: gerror where
  "sim_error = Opaque ''service unavailable''"

definition sim_exec :: "stmt \<Rightarrow> pgval list \<Rightarrow> sim \<Rightarrow> gerror option \<times> sim" where
  "sim_exec st args w =
     (if faulty w then (Some sim_error, tick w)
      else case sql_sem st (sim_clock w) args (sim_tables w) of
        (Inl e, t) \<Rightarrow> (Some sim_error, tick w)
      | (Inr rows, t) \<Rightarrow> (None, (tick w)\<lparr>sim_tables := t\<rparr>))"

definition sim_query :: "stmt \<Rightarrow> pgval list \<Rightarrow> sim \<Rightarrow> (gerror + pgval list list \<times> gerror option) \<times> sim" where
  "sim_query st args w =
     (if faulty w then (Inl sim_error, tick w)
      else case sql_sem st (sim_clock w) args (sim_tables w) of
        (Inl e, t) \<Rightarrow> (Inl sim_error, tick w)
      | (Inr rows, t) \<Rightarrow> (Inr (rows, None), (tick w)\<lparr>sim_tables := t\<rparr>))"

definition sim_row :: "stmt \<Rightarrow> pgval list \<Rightarrow> sim \<Rightarrow> (gerror + pgval list) \<times> sim" where
  "sim_row st args w =
     (if faulty w then (Inl sim_error, tick w)
      else case sql_sem st (sim_clock w) args (sim_tables w) of
        (Inl e, t) \<Rightarrow> (Inl sim_error, tick w)
      | (Inr [], t) \<Rightarrow> (Inl (Sentinel pgx_ErrNoRows), (tick w)\<lparr>sim_tables := t\<rparr>)
      | (Inr (row # rows), t) \<Rightarrow> (Inr row, (tick w)\<lparr>sim_tables := t\<rparr>))"

definition sim_db :: "sim dbtx" where
  "sim_db = \<lparr>Exec = sim_exec, Query = sim_query, QueryRow = sim_row\<rparr>"

definition sim_set :: "string \<Rightarrow> string \<Rightarrow> int \<Rightarrow> sim \<Rightarrow> gerror option \<times> sim" where
  "sim_set k v ttl w =
     (if faulty w then (Some sim_error, tick w)
      else (None, (tick w)\<lparr>sim_kv := (sim_kv w)(k \<mapsto> (v, sim_clock w + ttl))\<rparr>))"

definition sim_get :: "string \<Rightarrow> sim \<Rightarrow> (gerror + string) \<times> sim" where
  "sim_get k w =
     (if faulty w then (Inl sim_error, tick w)
      else (case live (sim_kv w) (sim_clock w) k of
              Some v \<Rightarrow> Inr v | None \<Rightarrow> Inl (Sentinel redis_Nil), tick w))"

definition sim_del :: "string \<Rightarrow> sim \<Rightarrow> gerror option \<times> sim" where
  "sim_del k w =
     (if faulty w then (Some sim_error, tick w)
      else (None, (tick w)\<lparr>sim_kv := (sim_kv w)(k := None)\<rparr>))"

definition sim_rc :: "sim redis_client" where
  "sim_rc = \<lparr>RSet = sim_set, RGet = sim_get, RDel = sim_del\<rparr>"

definition sim_bytes :: "nat \<Rightarrow> nat \<Rightarrow> bytes" where
  "sim_bytes seed n = map (\<lambda>i. word_of_nat (seed + i)) [0..<n]"

lemma length_sim_bytes [simp]: "length (sim_bytes seed n) = n"
  by (simp add: sim_bytes_def)

definition sim_rand :: "nat \<Rightarrow> sim \<Rightarrow> (gerror + bytes) \<times> sim" where
  "sim_rand n w =
     (if faulty w then (Inl sim_error, tick w)
      else (Inr (sim_bytes (sim_seed w) n), (tick w)\<lparr>sim_seed := sim_seed w + 1\<rparr>))"

definition sim_new_v7 :: "sim \<Rightarrow> (gerror + uuid) \<times> sim" where
  "sim_new_v7 w =
     (if faulty w then (Inl sim_error, tick w)
      else (Inr (word_of_nat (sim_seed w)), (tick w)\<lparr>sim_seed := sim_seed w + 1\<rparr>))"

definition sim_ent :: "sim entropy" where
  "sim_ent = \<lparr>RandRead = sim_rand, NewV7 = sim_new_v7\<rparr>"

definition sim_bcrypt :: "sim bcrypt" where
  "sim_bcrypt = \<lparr>
     GenerateFromPassword = (\<lambda>pw w. if faulty w \<or> 72 < length pw then (Inl sim_error, tick w)
                                    else (Inr (rev pw), tick w)),
     CompareHashAndPassword = (\<lambda>h pw. if h = rev pw then None
                                else Some (Sentinel bcrypt_ErrMismatchedHashAndPassword))\<rparr>"

text \<open>The canonical text form of a UUID: 32 hexadecimal digits in groups of 8, 4, 4, 4 and 12.\<close>

primrec hex_text :: "nat \<Rightarrow> nat \<Rightarrow> string" where
  "hex_text 0 n = []"
| "hex_text (Suc k) n = hex_text k (n div 16) @ [hex_digit (n mod 16)]"

definition hex_text_value :: "string \<Rightarrow> nat" where
  "hex_text_value s = foldl (\<lambda>a c. 16 * a + the (hex_val c)) 0 s"

definition uuid_std_String :: "uuid \<Rightarrow> string" where
  "uuid_std_String u =
     (let s = hex_text 32 (unat u) in
      take 8 s @ ''-'' @ take 4 (drop 8 s) @ ''-'' @ take 4 (drop 12 s) @ ''-'' @
      take 4 (drop 16 s) @ ''-'' @ drop 20 s)"

definition uuid_std_Parse :: "string \<Rightarrow> gerror + uuid" where
  "uuid_std_Parse s =
     (let d = take 8 s @ take 4 (drop 9 s) @ take 4 (drop 14 s) @ take 4 (drop 19 s) @ drop 24 s in
      if length s = 36 \<and> list_all (\<lambda>i. s ! i = CHR ''-'') [8, 13, 18, 23] \<and>
         list_all (\<lambda>c. hex_val c \<noteq> None) d
      then Inr (word_of_nat (hex_text_value d)) else Inl (Opaque ''invalid UUID''))"

definition uuid_std :: uuid_text where
  "uuid_std = \<lparr>uuid_String = uuid_std_String, uuid_Parse = uuid_std_Parse\<rparr>"

lemma length_hex_text [simp]: "length (hex_text k n) = k"
  by (induction k arbitrary: n) auto

lemma hex_text_digits: "list_all (\<lambda>c. hex_val c \<noteq> None) (hex_text k n)"
  by (induction k arbitrary: n) auto

lemma hex_text_value: "hex_text_value (hex_text k n) = n mod 16 ^ k"
proof (induction k arbitrary: n)
  case (Suc k)
  have "hex_text_value (hex_text (Suc k) n) = 16 * (n div 16 mod 16 ^ k) + n mod 16"
    using Suc.IH [of "n div 16"] by (simp add: hex_text_value_def)
  also have "\<dots> = n mod 16 ^ Suc k"
    using mod_mult2_eq [of n 16 "16 ^ k"] by simp
  finally show ?case .
qed (simp add: hex_text_value_def)

lemma split_groups:
  assumes "length s = 32"
  shows "take 8 s @ take 4 (drop 8 s) @ take 4 (drop 12 s) @ take 4 (drop 16 s) @ drop 20 s = s"
proof -
  have d: "take 4 (drop n s) @ drop (n + 4) s = drop n s" for n
    by (metis add.commute append_take_drop_id drop_drop)
  show ?thesis using d [of 8] d [of 12] d [of 16] by simp
qed

lemma uuid_std_Parse_String: "uuid_std_Parse (uuid_std_String u) = Inr u"
proof -
  define s where "s = hex_text 32 (unat u)"
  have len: "length s = 32" by (simp add: s_def)
  have lt: "unat u < 16 ^ 32" by (rule less_le_trans [OF unsigned_less]) simp
  have "hex_text_value s = unat u"
    using lt by (simp only: s_def hex_text_value mod_less)
  moreover have "list_all (\<lambda>c. hex_val c \<noteq> None) s" by (simp only: s_def hex_text_digits)
  ultimately show ?thesis
    using split_groups [OF len] len
    by (simp add: uuid_std_Parse_def uuid_std_String_def Let_def nth_append flip: s_def)
qed

interpretation uuid_std: uuid_codec uuid_std
proof unfold_locales
  fix u s e
  show "uuid_Parse uuid_std (uuid_String uuid_std u) = Inr u"
    by (simp add: uuid_std_def uuid_std_Parse_String)
  show "uuid_String uuid_std u \<noteq> []"
    by (simp add: uuid_std_def uuid_std_String_def Let_def)
  show "uuid_Parse uuid_std s = Inl e \<Longrightarrow> foreign e"
    by (auto simp: uuid_std_def uuid_std_Parse_def Let_def split: if_splits)
qed

subsection \<open>The laws\<close>

lemma tick_simps [simp]:
  "sim_tables (tick w) = sim_tables w" "sim_kv (tick w) = sim_kv w"
  "sim_clock (tick w) = sim_clock w + 1"
  by (simp_all add: tick_def)

lemma sim_up_tick [simp]: "sim_up w \<Longrightarrow> sim_up (tick w)"
  by (cases "sim_faults w") (auto simp: sim_up_def tick_def)

lemma sim_up_update [simp]:
  "sim_up (w\<lparr>sim_tables := t\<rparr>) = sim_up w" "sim_up (w\<lparr>sim_kv := m\<rparr>) = sim_up w"
  "sim_up (w\<lparr>sim_seed := n\<rparr>) = sim_up w" "sim_up (w\<lparr>sim_dirs := ds\<rparr>) = sim_up w"
  by (simp_all add: sim_up_def)

lemma sim_up_faulty [simp]: "sim_up w \<Longrightarrow> \<not> faulty w"
  by (auto simp: sim_up_def faulty_def split: list.splits)

lemmas sim_defs = sim_db_def sim_exec_def sim_query_def sim_row_def sim_rc_def sim_set_def sim_get_def
  sim_del_def sim_ent_def sim_rand_def sim_new_v7_def sim_bcrypt_def sim_error_def

interpretation sim_pg: postgres sim_db sim_tables sim_clock sim_up
  by unfold_locales
     (auto simp: sim_defs foreign_def split: if_splits sum.splits prod.splits list.splits)

interpretation sim_redis: redis sim_rc sim_kv sim_clock sim_up
  by unfold_locales
     (auto simp: sim_defs foreign_def split: if_splits option.splits)

interpretation sim: backend sim_db sim_tables sim_clock sim_up sim_rc sim_kv uuid_std sim_ent sim_bcrypt
  by unfold_locales
     (auto simp: sim_defs foreign_def split: if_splits sum.splits prod.splits list.splits)

text \<open>Evaluation in this world.\<close>

lemmas sim_world_eval [sim_eval] = sim_defs sim_init_def faulty_def tick_def empty_tables_def Let_def
  query_one_def query_many_def found_def varchar_ascii live_def
lemmas sim_sql_eval [sim_eval] = ins_user_def user_insertable_def new_user_row_def sel_users_def upd_users_def
  ins_session_def sel_sessions_def del_sessions_def ins_organization_def ins_member_def del_member_def
  del_organization_def organization_exists_def user_exists_def orgs_of_user_def users_of_org_def
  ins_sso_def sel_sso_def del_sso_def sso_providers_def ins_repository_def sel_repositories_def
  soft_del_repository_def soft_deleted_def upd_repository_def varchar_null_def text_ok_null_def
  bad_args_def uuid_eq_def text_eq_def at_time_def null_time_def

lemma sim_init_ok [simp]: "schema_ok (sim_tables sim_init)" "sim_up sim_init"
  by (simp_all add: sim_init_def schema_ok_empty sim_up_def)

end
