(* ===== verification/Users.thy ===== *)
theory Users
  imports Backend
begin

text \<open>
  \<^verbatim>\<open>internal/modules/user\<close>: the domain type, the \<open>Repository\<close> interface, its Postgres
  implementation \<open>Store\<close> and the \<open>Service\<close>. The contract of the interface is the locale
  \<open>user_repository\<close>, over the list of all accounts (deleted ones included); \<open>Store\<close> is proved to
  meet it on every database, and the service is verified against it alone.
\<close>

section \<open>Domain\<close>

record user =
  user_ID :: uuid
  user_Name :: string
  user_Username :: string
  user_Email :: string
  user_Password :: string
  user_CreatedAt :: int
  user_UpdatedAt :: int
  user_IsDeleted :: bool
  user_IsVerified :: bool

record register_input =
  in_Name :: string
  in_Username :: string
  in_Password :: string
  in_Email :: string

record 'w user_Repository =
  ur_Create :: "user \<Rightarrow> ('w, user) go"
  ur_GetByID :: "uuid \<Rightarrow> ('w, user) go"
  ur_GetByEmail :: "string \<Rightarrow> ('w, user) go"
  ur_GetByUsername :: "string \<Rightarrow> ('w, user) go"
  ur_Verify :: "uuid \<Rightarrow> 'w go_err"
  ur_SoftDelete :: "uuid \<Rightarrow> 'w go_err"
  ur_UpdatePassword :: "uuid \<Rightarrow> string \<Rightarrow> 'w go_err"

section \<open>Service\<close>

definition zero_user :: user where
  "zero_user = \<lparr>user_ID = 0, user_Name = [], user_Username = [], user_Email = [], user_Password = [],
     user_CreatedAt = 0, user_UpdatedAt = 0, user_IsDeleted = False, user_IsVerified = False\<rparr>"

definition new_user :: "uuid \<Rightarrow> register_input \<Rightarrow> bytes \<Rightarrow> user" where
  "new_user i inp hashed = zero_user\<lparr>user_ID := i, user_Name := in_Name inp,
     user_Username := in_Username inp, user_Password := string_of_bytes hashed, user_Email := in_Email inp\<rparr>"

text \<open>\<open>Register\<close> from the hashing on, and the whole of it.\<close>

definition Register_insert ::
  "'w user_Repository \<Rightarrow> 'w bcrypt \<Rightarrow> 'w entropy \<Rightarrow> register_input \<Rightarrow> ('w, user) go" where
  "Register_insert repo bc ent inp w =
     (case GenerateFromPassword bc (bytes_of_string (in_Password inp)) w of
        (Inl e, w1) \<Rightarrow> (Inl (Wrap ''hash password'' e), w1)
      | (Inr hashed, w1) \<Rightarrow>
     (case NewV7 ent w1 of
        (Inl e, w2) \<Rightarrow> (Inl (Wrap ''generate uuid'' e), w2)
      | (Inr i, w2) \<Rightarrow>
     (case ur_Create repo (new_user i inp hashed) w2 of
        (Inl e, w3) \<Rightarrow> (Inl (Wrap ''create user'' e), w3)
      | (Inr u, w3) \<Rightarrow> (Inr u, w3))))"

definition Register ::
  "'w user_Repository \<Rightarrow> 'w bcrypt \<Rightarrow> 'w entropy \<Rightarrow> register_input \<Rightarrow> ('w, user) go" where
  "Register repo bc ent inp w =
     (case ur_GetByEmail repo (in_Email inp) w of
        (Inr _, w1) \<Rightarrow> (Inl (Sentinel user_ErrEmailTaken), w1)
      | (Inl e, w1) \<Rightarrow>
     if \<not> errors_is e user_ErrNotFound then (Inl (Wrap ''check email'' e), w1) else
     (case ur_GetByUsername repo (in_Username inp) w1 of
        (Inr _, w2) \<Rightarrow> (Inl (Sentinel user_ErrUsernameTaken), w2)
      | (Inl e, w2) \<Rightarrow>
     if \<not> errors_is e user_ErrNotFound then (Inl (Wrap ''check username'' e), w2) else
     Register_insert repo bc ent inp w2))"

definition user_GetByID :: "'w user_Repository \<Rightarrow> uuid \<Rightarrow> ('w, user) go" where
  "user_GetByID repo i = ur_GetByID repo i"

definition user_GetByEmail :: "'w user_Repository \<Rightarrow> string \<Rightarrow> ('w, user) go" where
  "user_GetByEmail repo em = ur_GetByEmail repo em"

definition VerifyPassword :: "'w bcrypt \<Rightarrow> string \<Rightarrow> string \<Rightarrow> gerror option" where
  "VerifyPassword bc hashed plain =
     CompareHashAndPassword bc (bytes_of_string hashed) (bytes_of_string plain)"

section \<open>Store\<close>

definition toPgUUID :: "uuid \<Rightarrow> pg_uuid" where
  "toPgUUID i = \<lparr>Bytes = i, UuidValid = True\<rparr>"

definition fromPgUUID :: "pg_uuid \<Rightarrow> uuid" where
  "fromPgUUID u = (if \<not> UuidValid u then 0 else Bytes u)"

definition fromSqlcUser :: "sqlc_user \<Rightarrow> user" where
  "fromSqlcUser u =
     \<lparr>user_ID = fromPgUUID (su_UserID u), user_Name = su_Name u, user_Username = su_Username u,
      user_Email = su_Email u, user_Password = su_Password u, user_CreatedAt = Time (su_CreatedAt u),
      user_UpdatedAt = Time (su_UpdatedAt u), user_IsDeleted = su_IsDeleted u,
      user_IsVerified = su_IsVerified u\<rparr>"

definition store_Create :: "'w dbtx \<Rightarrow> user \<Rightarrow> ('w, user) go" where
  "store_Create db u w =
     (case CreateUser db (toPgUUID (user_ID u)) (user_Name u) (user_Username u) (user_Password u) (user_Email u) w of
        (Inl e, w') \<Rightarrow> (Inl e, w')
      | (Inr row, w') \<Rightarrow> (Inr (fromSqlcUser row), w'))"

definition store_GetByID :: "'w dbtx \<Rightarrow> uuid \<Rightarrow> ('w, user) go" where
  "store_GetByID db i w = found user_ErrNotFound fromSqlcUser (GetUserByID db (toPgUUID i) w)"

definition store_GetByEmail :: "'w dbtx \<Rightarrow> string \<Rightarrow> ('w, user) go" where
  "store_GetByEmail db em w = found user_ErrNotFound fromSqlcUser (GetUserByEmail db em w)"

definition store_GetByUsername :: "'w dbtx \<Rightarrow> string \<Rightarrow> ('w, user) go" where
  "store_GetByUsername db un w = found user_ErrNotFound fromSqlcUser (GetUserByUsername db un w)"

definition store_Verify :: "'w dbtx \<Rightarrow> uuid \<Rightarrow> 'w go_err" where
  "store_Verify db i = VerifyUser db (toPgUUID i)"

definition store_SoftDelete :: "'w dbtx \<Rightarrow> uuid \<Rightarrow> 'w go_err" where
  "store_SoftDelete db i = SoftDeleteUser db (toPgUUID i)"

definition store_UpdatePassword :: "'w dbtx \<Rightarrow> uuid \<Rightarrow> string \<Rightarrow> 'w go_err" where
  "store_UpdatePassword db i pw = UpdateUserPassword db (toPgUUID i) pw"

definition user_store :: "'w dbtx \<Rightarrow> 'w user_Repository" where
  "user_store db = \<lparr>ur_Create = store_Create db, ur_GetByID = store_GetByID db,
     ur_GetByEmail = store_GetByEmail db, ur_GetByUsername = store_GetByUsername db,
     ur_Verify = store_Verify db, ur_SoftDelete = store_SoftDelete db,
     ur_UpdatePassword = store_UpdatePassword db\<rparr>"

lemma pg_uuid_simps [simp]:
  "fromPgUUID (toPgUUID i) = i" "UuidValid (toPgUUID i)" "Bytes (toPgUUID i) = i"
  "toPgUUID i = toPgUUID j \<longleftrightarrow> i = j"
  by (simp_all add: toPgUUID_def fromPgUUID_def)

lemma uuid_eq_to [simp]: "uuid_eq a (toPgUUID i) \<longleftrightarrow> a = toPgUUID i"
  by (cases a) (auto simp: uuid_eq_def toPgUUID_def)

lemma toPgUUID_fromPgUUID: "UuidValid u \<Longrightarrow> toPgUUID (fromPgUUID u) = u"
  by (cases u) (simp add: toPgUUID_def fromPgUUID_def)

section \<open>The contract of the repository\<close>

text \<open>
  \<open>accounts w\<close> are all accounts ever created, in a world that is \<open>ok\<close>. A lookup sees those that
  are not deleted and changes nothing; creation needs an id, a user name and an email that no
  account ever had.
\<close>

definition fresh_account :: "user list \<Rightarrow> user \<Rightarrow> bool" where
  "fresh_account us u \<longleftrightarrow>
     list_all (\<lambda>v. user_ID v \<noteq> user_ID u \<and> user_Username v \<noteq> user_Username u \<and> user_Email v \<noteq> user_Email u) us"

definition created_from :: "user \<Rightarrow> user \<Rightarrow> bool" where
  "created_from u v \<longleftrightarrow> user_ID v = user_ID u \<and> user_Name v = user_Name u \<and>
     user_Username v = user_Username u \<and> user_Email v = user_Email u \<and>
     user_Password v = user_Password u \<and> \<not> user_IsDeleted v \<and> \<not> user_IsVerified v"

definition active :: "(user \<Rightarrow> bool) \<Rightarrow> user list \<Rightarrow> user list" where
  "active p us = filter (\<lambda>u. p u \<and> \<not> user_IsDeleted u) us"

locale user_lookup =
  fixes get :: "'k \<Rightarrow> ('w, user) go" and key :: "user \<Rightarrow> 'k"
    and accounts :: "'w \<Rightarrow> user list" and ok :: "'w \<Rightarrow> bool"
  assumes get_ok: "ok w \<Longrightarrow> get k w = (Inr u, w') \<Longrightarrow>
        \<exists>us. active (\<lambda>v. key v = k) (accounts w) = u # us"
    and get_missing: "ok w \<Longrightarrow> get k w = (Inl e, w') \<Longrightarrow> errors_is e user_ErrNotFound \<Longrightarrow>
        active (\<lambda>v. key v = k) (accounts w) = []"
    and get_error: "get k w = (Inl e, w') \<Longrightarrow> errors_is e s \<Longrightarrow> s = user_ErrNotFound"
    and get_frame: "accounts (snd (get k w)) = accounts w" "ok w \<Longrightarrow> ok (snd (get k w))"
begin

lemma get_accounts: "get k w = (r, w') \<Longrightarrow> accounts w' = accounts w"
  using get_frame(1) [of k w] by simp

lemma get_keeps_ok: "ok w \<Longrightarrow> get k w = (r, w') \<Longrightarrow> ok w'"
  using get_frame(2) [of w k] by simp

text \<open>Existence decides the outcome up to errors the caller does not recognise.\<close>

lemma get_not_missing:
  "ok w \<Longrightarrow> get k w = (Inl e, w') \<Longrightarrow> active (\<lambda>v. key v = k) (accounts w) \<noteq> [] \<Longrightarrow>
     foreign e"
  using get_missing get_error by (metis foreign_def)

lemma get_none_found:
  "ok w \<Longrightarrow> active (\<lambda>v. key v = k) (accounts w) = [] \<Longrightarrow> get k w = (r, w') \<Longrightarrow> \<exists>e. r = Inl e"
  by (cases r) (auto dest: get_ok)

end

locale user_repository =
  by_id: user_lookup "ur_GetByID repo" user_ID accounts ok +
  by_email: user_lookup "ur_GetByEmail repo" user_Email accounts ok +
  by_username: user_lookup "ur_GetByUsername repo" user_Username accounts ok
  for repo :: "'w user_Repository" and accounts :: "'w \<Rightarrow> user list" and ok :: "'w \<Rightarrow> bool" +
  assumes create_ok: "ok w \<Longrightarrow> ur_Create repo u w = (Inr v, w') \<Longrightarrow>
        fresh_account (accounts w) u \<and> created_from u v \<and> accounts w' = accounts w @ [v]"
    and create_err: "ok w \<Longrightarrow> ur_Create repo u w = (Inl e, w') \<Longrightarrow> foreign e \<and>
        (accounts w' = accounts w \<or>
         fresh_account (accounts w) u \<and> (\<exists>v. created_from u v \<and> accounts w' = accounts w @ [v]))"
    and create_keeps_ok: "ok w \<Longrightarrow> ok (snd (ur_Create repo u w))"

section \<open>The store meets it\<close>

definition pg_accounts :: "tables \<Rightarrow> user list" where
  "pg_accounts t = map fromSqlcUser (t_users t)"

lemma fromSqlcUser_simps [simp]:
  "user_ID (fromSqlcUser u) = fromPgUUID (su_UserID u)" "user_Username (fromSqlcUser u) = su_Username u"
  "user_Email (fromSqlcUser u) = su_Email u" "user_IsDeleted (fromSqlcUser u) = su_IsDeleted u"
  "user_IsVerified (fromSqlcUser u) = su_IsVerified u" "user_Name (fromSqlcUser u) = su_Name u"
  "user_Password (fromSqlcUser u) = su_Password u"
  by (simp_all add: fromSqlcUser_def)

lemma schema_ok_user_id: "schema_ok t \<Longrightarrow> u \<in> set (t_users t) \<Longrightarrow> UuidValid (su_UserID u)"
  by (simp add: schema_ok_def refs_ok_def list_all_iff)

lemma active_pg:
  "active p (pg_accounts t) =
     map fromSqlcUser (filter (\<lambda>u. p (fromSqlcUser u) \<and> \<not> su_IsDeleted u) (t_users t))"
  by (simp add: active_def pg_accounts_def filter_map comp_def)

lemma filter_user_id:
  assumes "schema_ok t"
  shows "filter (\<lambda>u. su_UserID u = toPgUUID i \<and> \<not> su_IsDeleted u) (t_users t) =
         filter (\<lambda>u. fromPgUUID (su_UserID u) = i \<and> \<not> su_IsDeleted u) (t_users t)"
  by (rule filter_cong [OF refl]) (use assms schema_ok_user_id toPgUUID_fromPgUUID in fastforce)

lemma fresh_account_pg:
  assumes "schema_ok t"
  shows "fresh_account (pg_accounts t) u \<longleftrightarrow>
     list_all (\<lambda>v. su_UserID v \<noteq> toPgUUID (user_ID u) \<and> su_Username v \<noteq> user_Username u \<and>
                   su_Email v \<noteq> user_Email u) (t_users t)"
  unfolding fresh_account_def pg_accounts_def list_all_iff
  using assms schema_ok_user_id toPgUUID_fromPgUUID by fastforce

lemma createUser_sem:
  assumes "schema_ok t"
    and "sql_sem createUser now [VUuid (toPgUUID (user_ID u)), VStr (user_Name u), VStr (user_Username u),
           VStr (user_Password u), VStr (user_Email u)] t = (Inr rows, t')"
  shows "\<exists>r. rows = [row_user r] \<and> fresh_account (pg_accounts t) u \<and> created_from u (fromSqlcUser r) \<and>
     t_users t' = t_users t @ [r]"
  using assms
  by (auto simp: ins_user_def Let_def user_insertable_def fresh_account_pg created_from_def new_user_row_def
      list_all_iff split: if_splits)

context postgres
begin

lemma store_Create_err:
  assumes "schema_ok (tbl w)" "store_Create db u w = (Inl e, w')"
  shows "foreign e \<and> (pg_accounts (tbl w') = pg_accounts (tbl w) \<or> fresh_account (pg_accounts (tbl w)) u \<and>
       (\<exists>v. created_from u v \<and> pg_accounts (tbl w') = pg_accounts (tbl w) @ [v]))"
proof -
  note sem = createUser_sem [OF assms(1), of "clock w" u]
  let ?args = "[VUuid (toPgUUID (user_ID u)), VStr (user_Name u), VStr (user_Username u),
    VStr (user_Password u), VStr (user_Email u)]"
  have q: "query_one db createUser scan_user ?args w = (Inl e, w')"
    using assms(2) by (auto simp: store_Create_def CreateUser_def split: prod.splits sum.splits)
  have "sql_sem createUser (clock w) ?args (tbl w) \<noteq> (Inr [], t')" for t'
    using sem by blast
  with insert_err [OF q] consider "foreign e" "tbl w' = tbl w"
    | row rows where "foreign e" "sql_sem createUser (clock w) ?args (tbl w) = (Inr (row # rows), tbl w')"
    by blast
  then show ?thesis
  proof cases
    case 2
    with sem show ?thesis by (fastforce simp: pg_accounts_def)
  qed simp
qed

end

sublocale postgres \<subseteq> pg_users:
  user_repository "user_store db" "\<lambda>w. pg_accounts (tbl w)" "\<lambda>w. schema_ok (tbl w)"
proof unfold_locales
  fix w w' k i and u v :: user and e s
  let ?ok = "schema_ok (tbl w)"
  note defs = user_store_def store_GetByID_def store_GetByEmail_def store_GetByUsername_def
    GetUserByID_def GetUserByEmail_def GetUserByUsername_def
  note ok = selects_users(1-3) [THEN found_ok, OF scan_row(1)]
    and none = selects_users(1-3) [THEN found_none] and frame = selects_users(1-3) [THEN select_frame(1)]
  show "?ok \<Longrightarrow> ur_GetByID (user_store db) i w = (Inr u, w') \<Longrightarrow>
      \<exists>us. active (\<lambda>v. user_ID v = i) (pg_accounts (tbl w)) = u # us"
    by (auto simp: defs active_pg filter_user_id dest!: ok(1))
  show "ur_GetByEmail (user_store db) k w = (Inr u, w') \<Longrightarrow>
      \<exists>us. active (\<lambda>v. user_Email v = k) (pg_accounts (tbl w)) = u # us"
    by (auto simp: defs active_pg dest!: ok(2))
  show "ur_GetByUsername (user_store db) k w = (Inr u, w') \<Longrightarrow>
      \<exists>us. active (\<lambda>v. user_Username v = k) (pg_accounts (tbl w)) = u # us"
    by (auto simp: defs active_pg dest!: ok(3))
  show "?ok \<Longrightarrow> ur_GetByID (user_store db) i w = (Inl e, w') \<Longrightarrow> errors_is e user_ErrNotFound \<Longrightarrow>
      active (\<lambda>v. user_ID v = i) (pg_accounts (tbl w)) = []"
    by (auto simp: defs active_pg filter_user_id dest!: none(1))
  show "ur_GetByEmail (user_store db) k w = (Inl e, w') \<Longrightarrow> errors_is e user_ErrNotFound \<Longrightarrow>
      active (\<lambda>v. user_Email v = k) (pg_accounts (tbl w)) = []"
    by (auto simp: defs active_pg dest!: none(2))
  show "ur_GetByUsername (user_store db) k w = (Inl e, w') \<Longrightarrow> errors_is e user_ErrNotFound \<Longrightarrow>
      active (\<lambda>v. user_Username v = k) (pg_accounts (tbl w)) = []"
    by (auto simp: defs active_pg dest!: none(3))
  show "?ok \<Longrightarrow> ur_Create (user_store db) u w = (Inr v, w') \<Longrightarrow> fresh_account (pg_accounts (tbl w)) u \<and>
      created_from u v \<and> pg_accounts (tbl w') = pg_accounts (tbl w) @ [v]"
    by (auto simp: user_store_def store_Create_def CreateUser_def pg_accounts_def [of "tbl w'"]
        pg_accounts_def [of "tbl w"] split: prod.splits sum.splits
        dest!: query_one_ok createUser_sem [rotated])
  show "?ok \<Longrightarrow> ur_Create (user_store db) u w = (Inl e, w') \<Longrightarrow> foreign e \<and>
      (pg_accounts (tbl w') = pg_accounts (tbl w) \<or> fresh_account (pg_accounts (tbl w)) u \<and>
       (\<exists>v. created_from u v \<and> pg_accounts (tbl w') = pg_accounts (tbl w) @ [v]))"
    by (simp add: user_store_def store_Create_err)
  show "?ok \<Longrightarrow> schema_ok (tbl (snd (ur_Create (user_store db) u w)))"
    by (auto simp: user_store_def store_Create_def CreateUser_def dest: schema_ok_step
        split: prod.splits sum.splits)
qed (auto simp: user_store_def store_GetByID_def store_GetByEmail_def store_GetByUsername_def
    GetUserByID_def GetUserByEmail_def GetUserByUsername_def
    selects_users(1-3) [THEN select_frame(1)] dest!: found_error)

section \<open>The service over any repository that meets it\<close>

text \<open>The account \<open>Register\<close> makes of its input, with the id and the hash chosen on the way.\<close>

definition registered :: "'w bcrypt \<Rightarrow> register_input \<Rightarrow> user \<Rightarrow> bool" where
  "registered bc inp v \<longleftrightarrow> user_Name v = in_Name inp \<and> user_Username v = in_Username inp \<and>
     user_Email v = in_Email inp \<and> \<not> user_IsDeleted v \<and> \<not> user_IsVerified v \<and>
     VerifyPassword bc (user_Password v) (in_Password inp) = None"

locale user_service = user_repository repo accounts ok
  for repo :: "'w user_Repository" and accounts :: "'w \<Rightarrow> user list" and ok :: "'w \<Rightarrow> bool" +
  fixes bc :: "'w bcrypt" and ent :: "'w entropy"
  assumes hash_frame: "accounts (snd (GenerateFromPassword bc pw w)) = accounts w"
      "ok w \<Longrightarrow> ok (snd (GenerateFromPassword bc pw w))"
    and uuid_frame: "accounts (snd (NewV7 ent w)) = accounts w" "ok w \<Longrightarrow> ok (snd (NewV7 ent w))"
    and service_foreign: "GenerateFromPassword bc pw w = (Inl e, w') \<Longrightarrow> foreign e"
      "NewV7 ent w = (Inl e, w') \<Longrightarrow> foreign e"
    and hash_compare: "GenerateFromPassword bc pw w = (Inr h, w') \<Longrightarrow> CompareHashAndPassword bc h pw = None"
begin

lemma hash_step: "GenerateFromPassword bc pw w = (r, w') \<Longrightarrow> accounts w' = accounts w \<and> (ok w \<longrightarrow> ok w')"
  using hash_frame(1) [of pw w] hash_frame(2) [of w pw] by auto

lemma uuid_step: "NewV7 ent w = (r, w') \<Longrightarrow> accounts w' = accounts w \<and> (ok w \<longrightarrow> ok w')"
  using uuid_frame(1) [of w] uuid_frame(2) [of w] by auto

lemma lookup_step:
  "ur_GetByEmail repo k w = (r, w') \<Longrightarrow> accounts w' = accounts w \<and> (ok w \<longrightarrow> ok w')"
  "ur_GetByUsername repo k w = (r, w') \<Longrightarrow> accounts w' = accounts w \<and> (ok w \<longrightarrow> ok w')"
  using by_email.get_accounts by_email.get_keeps_ok by_username.get_accounts by_username.get_keeps_ok
  by blast+

text \<open>
  The calls of \<open>Register\<close> up to the insertion, as one case distinction: an account with the email,
  one with the user name, a failure of a service before the insertion, or the insertion.
\<close>

lemma lookup_foreign:
  "ur_GetByEmail repo k w = (Inl e, w') \<Longrightarrow> \<not> errors_is e user_ErrNotFound \<Longrightarrow> foreign e"
  "ur_GetByUsername repo k w = (Inl e, w') \<Longrightarrow> \<not> errors_is e user_ErrNotFound \<Longrightarrow> foreign e"
  using by_email.get_error by_username.get_error by (metis foreign_def)+

lemma Register_insert_cases:
  assumes "ok w" "Register_insert repo bc ent inp w = (r, w')"
  obtains
    (failed) e where "r = Inl e" "foreign e" "accounts w' = accounts w" "ok w'"
  | (insert) i h w0 q where "CompareHashAndPassword bc h (bytes_of_string (in_Password inp)) = None"
      "ok w0" "accounts w0 = accounts w" "ur_Create repo (new_user i inp h) w0 = (q, w')"
      "r = (case q of Inl e \<Rightarrow> Inl (Wrap ''create user'' e) | Inr v \<Rightarrow> Inr v)"
proof -
  obtain rh w1 where h: "GenerateFromPassword bc (bytes_of_string (in_Password inp)) w = (rh, w1)"
    by (rule prod.exhaust)
  obtain ru w2 where u: "NewV7 ent w1 = (ru, w2)" by (rule prod.exhaust)
  note steps = hash_step [OF h] uuid_step [OF u] assms(1)
  show thesis
  proof (cases rh)
    case (Inl e)
    with h assms(2) steps service_foreign(1) show thesis
      by (intro failed [of "Wrap ''hash password'' e"]) (auto simp: Register_insert_def)
  next
    case hr: (Inr hashed)
    show thesis
    proof (cases ru)
      case (Inl e)
      with h u hr assms(2) steps service_foreign(2) show thesis
        by (intro failed [of "Wrap ''generate uuid'' e"]) (auto simp: Register_insert_def)
    next
      case (Inr i)
      obtain q w3 where c: "ur_Create repo (new_user i inp hashed) w2 = (q, w3)" by (rule prod.exhaust)
      with h u hr Inr assms(2) have "w3 = w'"
        "r = (case q of Inl e \<Rightarrow> Inl (Wrap ''create user'' e) | Inr v \<Rightarrow> Inr v)"
        by (auto simp: Register_insert_def split: sum.splits)
      with c hash_compare h hr steps show thesis by (intro insert) auto
    qed
  qed
qed

lemma Register_cases:
  assumes "ok w" "Register repo bc ent inp w = (r, w')"
  obtains
    (email) "r = Inl (Sentinel user_ErrEmailTaken)" "accounts w' = accounts w"
      "active (\<lambda>v. user_Email v = in_Email inp) (accounts w) \<noteq> []"
  | (username) "r = Inl (Sentinel user_ErrUsernameTaken)" "accounts w' = accounts w"
      "active (\<lambda>v. user_Email v = in_Email inp) (accounts w) = []"
      "active (\<lambda>v. user_Username v = in_Username inp) (accounts w) \<noteq> []"
  | (failed) e where "r = Inl e" "foreign e" "accounts w' = accounts w"
  | (insert) w0 where "Register_insert repo bc ent inp w0 = (r, w')" "ok w0" "accounts w0 = accounts w"
      "active (\<lambda>v. user_Email v = in_Email inp) (accounts w) = []"
      "active (\<lambda>v. user_Username v = in_Username inp) (accounts w) = []"
proof -
  obtain r1 w1 where g1: "ur_GetByEmail repo (in_Email inp) w = (r1, w1)" by (rule prod.exhaust)
  obtain r2 w2 where g2: "ur_GetByUsername repo (in_Username inp) w1 = (r2, w2)" by (rule prod.exhaust)
  note steps = lookup_step(1) [OF g1] lookup_step(2) [OF g2] assms(1)
  show thesis
  proof (cases r1)
    case (Inr u)
    with g1 assms(2) steps by_email.get_ok [OF assms(1)] show thesis
      by (intro email) (fastforce simp: Register_def)+
  next
    case (Inl e1)
    show thesis
    proof (cases "errors_is e1 user_ErrNotFound")
      case False
      with g1 Inl assms(2) steps lookup_foreign(1) show thesis
        by (intro failed [of "Wrap ''check email'' e1"]) (auto simp: Register_def)
    next
      case True
      have no_email: "active (\<lambda>v. user_Email v = in_Email inp) (accounts w) = []"
        using by_email.get_missing [OF assms(1)] g1 Inl True by blast
      note here = g1 g2 Inl True assms(2) steps
      show thesis
      proof (cases r2)
        case (Inr u)
        moreover have "active (\<lambda>v. user_Username v = in_Username inp) (accounts w) \<noteq> []"
          using by_username.get_ok [of w1] steps g2 Inr by fastforce
        ultimately show thesis using here no_email by (intro username) (simp_all add: Register_def)
      next
        case (Inl e2)
        show thesis
        proof (cases "errors_is e2 user_ErrNotFound")
          case False
          with here Inl lookup_foreign(2) show thesis
            by (intro failed [of "Wrap ''check username'' e2"]) (auto simp: Register_def)
        next
          case True
          moreover have "active (\<lambda>v. user_Username v = in_Username inp) (accounts w) = []"
            using by_username.get_missing [of w1] steps g2 Inl True by simp
          ultimately show thesis using here Inl no_email by (intro insert [of w2]) (simp_all add: Register_def)
        qed
      qed
    qed
  qed
qed

lemma registered_from:
  assumes "created_from (new_user i inp h) v" "CompareHashAndPassword bc h (bytes_of_string (in_Password inp)) = None"
  shows "registered bc inp v"
  using assms by (simp add: registered_def created_from_def new_user_def zero_user_def VerifyPassword_def comp_def)

lemma fresh_created: "fresh_account us u \<Longrightarrow> created_from u v \<Longrightarrow> fresh_account us v"
  by (simp add: fresh_account_def created_from_def)

lemma Register_success:
  assumes "ok w" "Register repo bc ent inp w = (Inr v, w')"
  shows "registered bc inp v \<and> fresh_account (accounts w) v \<and> accounts w' = accounts w @ [v]"
  using assms
proof (cases rule: Register_cases)
  case (insert w0)
  from insert(2,1) show ?thesis
  proof (cases rule: Register_insert_cases)
    case (insert i h w1 q)
    then show ?thesis
      using create_ok [of w1 "new_user i inp h" v w'] \<open>accounts w0 = accounts w\<close> registered_from fresh_created
      by (cases q) auto
  qed simp
qed auto

lemma Register_failure:
  assumes "ok w" "Register repo bc ent inp w = (Inl e, w')"
  shows "accounts w' = accounts w \<or>
      foreign e \<and> (\<exists>v. registered bc inp v \<and> fresh_account (accounts w) v \<and> accounts w' = accounts w @ [v])"
    and "errors_is e user_ErrEmailTaken \<Longrightarrow>
      active (\<lambda>v. user_Email v = in_Email inp) (accounts w) \<noteq> [] \<and> accounts w' = accounts w"
    and "errors_is e user_ErrUsernameTaken \<Longrightarrow>
      active (\<lambda>v. user_Username v = in_Username inp) (accounts w) \<noteq> [] \<and> accounts w' = accounts w"
proof -
  have "(accounts w' = accounts w \<or>
      foreign e \<and> (\<exists>v. registered bc inp v \<and> fresh_account (accounts w) v \<and> accounts w' = accounts w @ [v])) \<and>
    (foreign e \<or> accounts w' = accounts w \<and>
      (e = Sentinel user_ErrEmailTaken \<and> active (\<lambda>v. user_Email v = in_Email inp) (accounts w) \<noteq> [] \<or>
       e = Sentinel user_ErrUsernameTaken \<and> active (\<lambda>v. user_Username v = in_Username inp) (accounts w) \<noteq> []))"
    using assms
  proof (cases rule: Register_cases)
    case (insert w0)
    from insert(2,1) show ?thesis
    proof (cases rule: Register_insert_cases)
      case (insert i h w1 q)
      then obtain e' where "q = Inl e'" "e = Wrap ''create user'' e'" by (cases q) auto
      with insert show ?thesis
        using create_err [of w1 "new_user i inp h" e' w'] \<open>accounts w0 = accounts w\<close> registered_from fresh_created
        by fastforce
    qed (use insert in auto)
  qed auto
  then show "accounts w' = accounts w \<or>
      foreign e \<and> (\<exists>v. registered bc inp v \<and> fresh_account (accounts w) v \<and> accounts w' = accounts w @ [v])"
    and "errors_is e user_ErrEmailTaken \<Longrightarrow>
      active (\<lambda>v. user_Email v = in_Email inp) (accounts w) \<noteq> [] \<and> accounts w' = accounts w"
    and "errors_is e user_ErrUsernameTaken \<Longrightarrow>
      active (\<lambda>v. user_Username v = in_Username inp) (accounts w) \<noteq> [] \<and> accounts w' = accounts w"
    by auto
qed

lemma ok_steps:
  "ur_GetByEmail repo k w = (r1, w') \<Longrightarrow> ok w \<Longrightarrow> ok w'"
  "ur_GetByUsername repo k w = (r2, w') \<Longrightarrow> ok w \<Longrightarrow> ok w'"
  "GenerateFromPassword bc pw w = (r3, w') \<Longrightarrow> ok w \<Longrightarrow> ok w'"
  "NewV7 ent w = (r4, w') \<Longrightarrow> ok w \<Longrightarrow> ok w'"
  "ur_Create repo u w = (r5, w') \<Longrightarrow> ok w \<Longrightarrow> ok w'"
  using lookup_step hash_step uuid_step create_keeps_ok [of w u] by force+

lemma Register_ok:
  assumes "ok w" "Register repo bc ent inp w = (r, w')"
  shows "ok w'"
  using assms(2) assms(1)
  by (auto simp: Register_def Register_insert_def split: prod.splits sum.splits if_splits
      dest!: ok_steps)

text \<open>
  An email or a user name that an account in use has is never registered again; one that only a
  deleted account has cannot be registered either, but the error then is not one of the two
  the callers know.
\<close>

lemma Register_taken:
  assumes "ok w" "active (\<lambda>v. user_Email v = in_Email inp) (accounts w) \<noteq> []"
    and "Register repo bc ent inp w = (r, w')"
  shows "accounts w' = accounts w \<and> (r = Inl (Sentinel user_ErrEmailTaken) \<or> (\<exists>e. r = Inl e \<and> foreign e))"
  using assms(1,3) by (cases rule: Register_cases) (use assms(2) in auto)

lemma Register_deleted_account:
  assumes "ok w" "Register repo bc ent inp w = (r, w')"
    and "active (\<lambda>v. user_Email v = in_Email inp) (accounts w) = []"
    and "active (\<lambda>v. user_Username v = in_Username inp) (accounts w) = []"
    and "v \<in> set (accounts w)" "user_Email v = in_Email inp \<or> user_Username v = in_Username inp"
  shows "accounts w' = accounts w \<and> (\<exists>e. r = Inl e \<and> foreign e)"
  using assms(1,2)
proof (cases rule: Register_cases)
  case (insert w0)
  from insert(2,1) show ?thesis
  proof (cases rule: Register_insert_cases)
    case (insert i h w1 q)
    have "\<not> fresh_account (accounts w1) (new_user i inp h)"
      using insert \<open>accounts w0 = accounts w\<close> assms(5,6)
      by (auto simp: fresh_account_def list_all_iff new_user_def)
    with insert \<open>accounts w0 = accounts w\<close> show ?thesis
      using create_ok [of w1 "new_user i inp h" _ w'] create_err [of w1 "new_user i inp h" _ w']
      by (cases q) auto
  qed (use insert in auto)
qed (use assms(3,4) in auto)

end

section \<open>The service on Postgres\<close>

sublocale backend \<subseteq> pg_user_service: user_service "user_store db" "\<lambda>w. pg_accounts (tbl w)"
  "\<lambda>w. schema_ok (tbl w)" bc ent
  by unfold_locales (auto simp: entropy_tbl bcrypt_compare dest: entropy_foreign)

context backend
begin

text \<open>When the services are up, an input that fits the schema and collides with no row is registered.\<close>

lemma lookup_up_missing:
  assumes "up w" "text_ok em" "list_all (\<lambda>u. su_Email u \<noteq> em) (t_users (tbl w))"
  shows "fst (ur_GetByEmail (user_store db) em w) = Inl (Sentinel user_ErrNotFound)"
proof -
  have f: "filter (\<lambda>u. su_Email u = em \<and> \<not> su_IsDeleted u) (t_users (tbl w)) = []"
    using assms(3) by (auto simp: filter_empty_conv list_all_iff)
  have "sql_sem getUserByEmail (clock w) [VStr em] (tbl w) = (Inr (map row_user []), tbl w)"
    using assms(2) f by (simp add: sel_users_def)
  from found_up [where scan = scan_user, OF assms(1) this scan_row(1)] show ?thesis
    by (simp add: user_store_def store_GetByEmail_def GetUserByEmail_def)
qed

lemma lookup_up_missing_username:
  assumes "up w" "text_ok un" "list_all (\<lambda>u. su_Username u \<noteq> un) (t_users (tbl w))"
  shows "fst (ur_GetByUsername (user_store db) un w) = Inl (Sentinel user_ErrNotFound)"
proof -
  have f: "filter (\<lambda>u. su_Username u = un \<and> \<not> su_IsDeleted u) (t_users (tbl w)) = []"
    using assms(3) by (auto simp: filter_empty_conv list_all_iff)
  have "sql_sem getUserByUsername (clock w) [VStr un] (tbl w) = (Inr (map row_user []), tbl w)"
    using assms(2) f by (simp add: sel_users_def)
  from found_up [where scan = scan_user, OF assms(1) this scan_row(1)] show ?thesis
    by (simp add: user_store_def store_GetByUsername_def GetUserByUsername_def)
qed

lemma lookup_up_step:
  "up w \<Longrightarrow> up (snd (ur_GetByEmail (user_store db) em w)) \<and> tbl (snd (ur_GetByEmail (user_store db) em w)) = tbl w"
  "up w \<Longrightarrow> up (snd (ur_GetByUsername (user_store db) em w)) \<and> tbl (snd (ur_GetByUsername (user_store db) em w)) = tbl w"
  using query_one_frame(1) [of w getUserByEmail scan_user "[VStr em]"] select_frame(1) [OF selects_users(2), of scan_user em w]
    query_one_frame(1) [of w getUserByUsername scan_user "[VStr em]"] select_frame(1) [OF selects_users(3), of scan_user em w]
  by (auto simp: user_store_def store_GetByEmail_def GetUserByEmail_def store_GetByUsername_def
      GetUserByUsername_def found_def split: prod.splits sum.splits)

lemma create_up:
  assumes "up w" "user_insertable (tbl w) (toPgUUID (user_ID u)) (user_Name u) (user_Username u)
     (user_Password u) (user_Email u)"
  shows "\<exists>v. fst (ur_Create (user_store db) u w) = Inr v"
proof -
  let ?args = "[VUuid (toPgUUID (user_ID u)), VStr (user_Name u), VStr (user_Username u),
    VStr (user_Password u), VStr (user_Email u)]"
  let ?r = "new_user_row (clock w) (toPgUUID (user_ID u)) (user_Name u) (user_Username u)
    (user_Password u) (user_Email u)"
  have "sql_sem createUser (clock w) ?args (tbl w) = (Inr [row_user ?r], (tbl w)\<lparr>t_users := t_users (tbl w) @ [?r]\<rparr>)"
    using assms(2) by (simp add: ins_user_def Let_def)
  from query_one_up [where scan = scan_user, OF assms(1) this] show ?thesis
    by (auto simp: user_store_def store_Create_def CreateUser_def split: prod.splits sum.splits)
qed

lemma Register_up:
  assumes "up w" "varchar 255 (in_Name inp)" "varchar 255 (in_Username inp)" "varchar 255 (in_Email inp)"
    and "list_all (\<lambda>u. su_Username u \<noteq> in_Username inp \<and> su_Email u \<noteq> in_Email inp) (t_users (tbl w))"
    and hash: "\<And>w. up w \<Longrightarrow> \<exists>h. fst (GenerateFromPassword bc (bytes_of_string (in_Password inp)) w) = Inr h \<and>
           varchar 255 (string_of_bytes h)"
    and ids: "\<And>w0 i w1. tbl w0 = tbl w \<Longrightarrow> NewV7 ent w0 = (Inr i, w1) \<Longrightarrow>
           list_all (\<lambda>u. su_UserID u \<noteq> toPgUUID i) (t_users (tbl w))"
  shows "\<exists>v. fst (Register (user_store db) bc ent inp w) = Inr v"
proof -
  have texts: "text_ok (in_Email inp)" "text_ok (in_Username inp)" using assms(3,4) by (simp_all add: varchar_def)
  have none: "list_all (\<lambda>u. su_Email u \<noteq> in_Email inp) (t_users (tbl w))"
    "list_all (\<lambda>u. su_Username u \<noteq> in_Username inp) (t_users (tbl w))"
    using assms(5) by (simp_all add: list_all_iff)
  define w1 where "w1 = snd (ur_GetByEmail (user_store db) (in_Email inp) w)"
  define w2 where "w2 = snd (ur_GetByUsername (user_store db) (in_Username inp) w1)"
  define w3 where "w3 = snd (GenerateFromPassword bc (bytes_of_string (in_Password inp)) w2)"
  define w4 where "w4 = snd (NewV7 ent w3)"
  have up1: "up w1" "tbl w1 = tbl w" using lookup_up_step(1) [OF assms(1)] by (simp_all add: w1_def)
  have up2: "up w2" "tbl w2 = tbl w" using lookup_up_step(2) [OF up1(1)] up1(2) by (simp_all add: w2_def)
  have up3: "up w3" "tbl w3 = tbl w" using up2 by (simp_all add: w3_def entropy_up entropy_tbl)
  have up4: "up w4" "tbl w4 = tbl w" using up3 by (simp_all add: w4_def entropy_up entropy_tbl)
  obtain h where h: "GenerateFromPassword bc (bytes_of_string (in_Password inp)) w2 = (Inr h, w3)"
    "varchar 255 (string_of_bytes h)"
    using hash [OF up2(1)] by (auto simp: w3_def prod_eq_iff)
  obtain i where i: "NewV7 ent w3 = (Inr i, w4)"
    using entropy_works(2) [OF up3(1)] by (auto simp: w4_def prod_eq_iff)
  have "user_insertable (tbl w4) (toPgUUID i) (in_Name inp) (in_Username inp) (string_of_bytes h) (in_Email inp)"
    using assms(2-5) h(2) ids [OF up3(2) i] up4(2) by (simp add: user_insertable_def list_all_iff)
  with create_up [OF up4(1), of "new_user i inp h"]
  obtain v where "fst (ur_Create (user_store db) (new_user i inp h) w4) = Inr v"
    by (auto simp: new_user_def)
  moreover have "ur_GetByEmail (user_store db) (in_Email inp) w = (Inl (Sentinel user_ErrNotFound), w1)"
    using lookup_up_missing [OF assms(1) texts(1) none(1)] by (simp add: w1_def prod_eq_iff)
  moreover have "ur_GetByUsername (user_store db) (in_Username inp) w1 = (Inl (Sentinel user_ErrNotFound), w2)"
    using lookup_up_missing_username [OF up1(1) texts(2)] none(2) up1(2) by (simp add: w2_def prod_eq_iff)
  ultimately show ?thesis
    using h(1) i by (auto simp: Register_def Register_insert_def split: prod.splits)
qed

end

context backend
begin

lemmas pg_Register = pg_user_service.Register_success pg_user_service.Register_failure
  pg_user_service.Register_taken pg_user_service.Register_deleted_account

end

lemmas user_eval [sim_eval] = Register_def Register_insert_def user_store_def store_Create_def store_GetByID_def
  store_GetByEmail_def store_GetByUsername_def store_Verify_def store_SoftDelete_def store_UpdatePassword_def
  CreateUser_def GetUserByID_def GetUserByEmail_def GetUserByUsername_def VerifyUser_def SoftDeleteUser_def
  UpdateUserPassword_def new_user_def zero_user_def toPgUUID_def

text \<open>The input of the examples.\<close>

definition ada :: register_input where
  "ada = \<lparr>in_Name = ''Ada'', in_Username = ''ada'', in_Password = ''secret'', in_Email = ''ada@x.org''\<rparr>"

definition bob :: register_input where
  "bob = \<lparr>in_Name = ''Bob'', in_Username = ''bob'', in_Password = ''hidden'', in_Email = ''ada@x.org''\<rparr>"

definition sim_ada :: sim where
  "sim_ada = snd (Register (user_store sim_db) sim_bcrypt sim_ent ada sim_init)"

lemma sim_register_ada:
  "\<exists>v. Register (user_store sim_db) sim_bcrypt sim_ent ada sim_init = (Inr v, sim_ada)"
  by (simp add: sim_ada_def ada_def sim_eval)

lemma sim_ada_ok: "schema_ok (sim_tables sim_ada)"
  using sim.pg_user_service.Register_ok [OF sim_init_ok(1)] sim_register_ada by blast

section \<open>Properties\<close>

text \<open>
  C33: A successful registration adds exactly one account: the one of the input, in use, not
  verified, with a password hash the password verifies against, and with an id, a user name and
  an email that no account had before, deleted ones included.
\<close>

theorem register_adds_account:
  assumes "backend db tbl clock up rc kv ut ent bc" "schema_ok (tbl w)"
    and "Register (user_store db) bc ent inp w = (Inr v, w')"
  shows "pg_accounts (tbl w') = pg_accounts (tbl w) @ [v] \<and> registered bc inp v \<and>
    fresh_account (pg_accounts (tbl w)) v"
  using backend.pg_Register(1) [OF assms] by blast

theorem register_adds_account_witness:
  "\<exists>v. Register (user_store sim_db) sim_bcrypt sim_ent ada sim_init = (Inr v, sim_ada) \<and>
     pg_accounts (sim_tables sim_ada) = [v] \<and> registered sim_bcrypt ada v"
proof -
  obtain v where "Register (user_store sim_db) sim_bcrypt sim_ent ada sim_init = (Inr v, sim_ada)"
    using sim_register_ada by blast
  with register_adds_account [OF sim.backend_axioms sim_init_ok(1) this] show ?thesis
    by (simp add: sim_init_def empty_tables_def pg_accounts_def)
qed

text \<open>
  C39: A registration with an email an account in use already has changes no account, and is
  refused: with \<open>ErrEmailTaken\<close>, or with the error of a service that failed.
\<close>

theorem register_refuses_taken_email:
  assumes "backend db tbl clock up rc kv ut ent bc" "schema_ok (tbl w)"
    and "v \<in> set (pg_accounts (tbl w))" "\<not> user_IsDeleted v" "user_Email v = in_Email inp"
  shows "pg_accounts (tbl (snd (Register (user_store db) bc ent inp w))) = pg_accounts (tbl w) \<and>
    (fst (Register (user_store db) bc ent inp w) = Inl (Sentinel user_ErrEmailTaken) \<or>
     (\<exists>e. fst (Register (user_store db) bc ent inp w) = Inl e \<and> foreign e))"
proof -
  have "active (\<lambda>u. user_Email u = in_Email inp) (pg_accounts (tbl w)) \<noteq> []"
    using assms(3-5) by (auto simp: active_def filter_empty_conv)
  from backend.pg_Register(5) [OF assms(1,2) this prod.collapse [symmetric]] show ?thesis by simp
qed

theorem register_refuses_taken_email_witness:
  "\<exists>v \<in> set (pg_accounts (sim_tables sim_ada)). user_Email v = in_Email bob \<and>
     pg_accounts (sim_tables (snd (Register (user_store sim_db) sim_bcrypt sim_ent bob sim_ada))) =
       pg_accounts (sim_tables sim_ada)"
proof -
  obtain v where v: "pg_accounts (sim_tables sim_ada) = [v]" "user_Email v = in_Email bob" "\<not> user_IsDeleted v"
    by (simp add: sim_ada_def ada_def bob_def pg_accounts_def sim_eval)
  have "schema_ok (sim_tables sim_ada)"
    using sim.pg_user_service.Register_ok [OF sim_init_ok(1)] sim_register_ada by blast
  with v register_refuses_taken_email [OF sim.backend_axioms, of sim_ada v bob] show ?thesis by simp
qed

text \<open>
  When the services are up, a registration whose texts fit the schema, whose email and user
  name no account has, whose password can be hashed and whose new id is unused succeeds.
\<close>

theorem register_succeeds:
  assumes "backend db tbl clock up rc kv ut ent bc" "up w"
    and "varchar 255 (in_Name inp)" "varchar 255 (in_Username inp)" "varchar 255 (in_Email inp)"
    and "list_all (\<lambda>u. su_Username u \<noteq> in_Username inp \<and> su_Email u \<noteq> in_Email inp) (t_users (tbl w))"
    and "\<And>w. up w \<Longrightarrow> \<exists>h. fst (GenerateFromPassword bc (bytes_of_string (in_Password inp)) w) = Inr h \<and>
           varchar 255 (string_of_bytes h)"
    and "\<And>w0 i w1. tbl w0 = tbl w \<Longrightarrow> NewV7 ent w0 = (Inr i, w1) \<Longrightarrow>
           list_all (\<lambda>u. su_UserID u \<noteq> toPgUUID i) (t_users (tbl w))"
  shows "\<exists>v. fst (Register (user_store db) bc ent inp w) = Inr v"
  using backend.Register_up [OF assms] .

theorem register_succeeds_witness:
  "\<exists>v. fst (Register (user_store sim_db) sim_bcrypt sim_ent ada sim_init) = Inr v"
proof (rule register_succeeds [OF sim.backend_axioms])
  show "sim_up sim_init" by simp
qed (auto simp: ada_def sim_eval sim_up_def split: list.splits)

text \<open>
  The address and the name of a deleted account are not free: nothing is registered, and the
  error is none of those the callers answer with a conflict.
\<close>

theorem register_deleted_account_blocks:
  assumes "backend db tbl clock up rc kv ut ent bc" "schema_ok (tbl w)"
    and "active (\<lambda>v. user_Email v = in_Email inp) (pg_accounts (tbl w)) = []"
    and "active (\<lambda>v. user_Username v = in_Username inp) (pg_accounts (tbl w)) = []"
    and "v \<in> set (pg_accounts (tbl w))" "user_Email v = in_Email inp \<or> user_Username v = in_Username inp"
  shows "pg_accounts (tbl (snd (Register (user_store db) bc ent inp w))) = pg_accounts (tbl w) \<and>
    (\<exists>e. fst (Register (user_store db) bc ent inp w) = Inl e \<and>
         \<not> errors_is e user_ErrEmailTaken \<and> \<not> errors_is e user_ErrUsernameTaken)"
  using backend.pg_Register(6) [OF assms(1,2) prod.collapse [symmetric] assms(3-6)] by auto

definition sim_deleted :: sim where
  "sim_deleted = snd (store_SoftDelete sim_db 0 sim_ada)"

theorem register_deleted_account_blocks_witness:
  "active (\<lambda>v. user_Email v = in_Email bob) (pg_accounts (sim_tables sim_deleted)) = [] \<and>
   (\<exists>e. fst (Register (user_store sim_db) sim_bcrypt sim_ent bob sim_deleted) = Inl e \<and>
        \<not> errors_is e user_ErrEmailTaken)"
proof -
  obtain v where v: "pg_accounts (sim_tables sim_deleted) = [v]" "user_Email v = in_Email bob"
    "active (\<lambda>v. user_Email v = in_Email bob) (pg_accounts (sim_tables sim_deleted)) = []"
    "active (\<lambda>v. user_Username v = in_Username bob) (pg_accounts (sim_tables sim_deleted)) = []"
    by (simp add: sim_deleted_def sim_ada_def ada_def bob_def pg_accounts_def active_def sim_eval)
  have "schema_ok (sim_tables sim_deleted)"
    unfolding sim_deleted_def store_SoftDelete_def SoftDeleteUser_def
    using sim_pg.schema_ok_exec sim.pg_user_service.Register_ok [OF sim_init_ok(1)] sim_register_ada by blast
  with v register_deleted_account_blocks [OF sim.backend_axioms, of sim_deleted bob v] show ?thesis by auto
qed

end
