(* ===== verification/SessionLaws.thy ===== *)
theory SessionLaws
  imports Sessions
begin

text \<open>
  The contracts of the session \<open>Repository\<close> and \<open>TokenStore\<close>, that Postgres and Redis meet them,
  and what the session service guarantees on anything that does: who a token is accepted for, for
  how long, and what revocation ends.
\<close>

section \<open>Contracts\<close>

text \<open>The stored sessions of a world that is \<open>ok\<close>; a refresh token belongs to one session at most.\<close>

definition without_token :: "string \<Rightarrow> session list \<Rightarrow> session list" where
  "without_token rt ss = filter (\<lambda>s. session_RefreshToken s \<noteq> rt) ss"

definition without_user :: "uuid \<Rightarrow> session list \<Rightarrow> session list" where
  "without_user u ss = filter (\<lambda>s. session_UserID s \<noteq> u) ss"

definition owner_of :: "string \<Rightarrow> session list \<Rightarrow> uuid option" where
  "owner_of rt ss =
     (case filter (\<lambda>s. session_RefreshToken s = rt) ss of [] \<Rightarrow> None | s # _ \<Rightarrow> Some (session_UserID s))"

definition session_added :: "session list \<Rightarrow> uuid \<Rightarrow> uuid \<Rightarrow> string \<Rightarrow> session list \<Rightarrow> bool" where
  "session_added ss i u rt ss' \<longleftrightarrow> owner_of rt ss = None \<and>
     (\<exists>c. ss' = ss @ [\<lparr>session_ID = i, session_UserID = u, session_RefreshToken = rt, session_CreatedAt = c\<rparr>])"

locale session_repository =
  fixes repo :: "'w session_Repository" and sessions :: "'w \<Rightarrow> session list"
    and ok :: "'w \<Rightarrow> bool" and up :: "'w \<Rightarrow> bool"
  assumes create_ok: "ok w \<Longrightarrow> sr_Create repo i u rt w = (None, w') \<Longrightarrow>
        session_added (sessions w) i u rt (sessions w')"
    and create_err: "ok w \<Longrightarrow> sr_Create repo i u rt w = (Some e, w') \<Longrightarrow>
        foreign e \<and> (sessions w' = sessions w \<or> session_added (sessions w) i u rt (sessions w'))"
    and owner_ok: "ok w \<Longrightarrow> sr_GetUserIDByRefreshToken repo rt w = (Inr u, w') \<Longrightarrow>
        owner_of rt (sessions w) = Some u"
    and owner_missing: "ok w \<Longrightarrow> sr_GetUserIDByRefreshToken repo rt w = (Inl e, w') \<Longrightarrow>
        errors_is e session_ErrSessionNotFound \<Longrightarrow> owner_of rt (sessions w) = None"
    and owner_error: "sr_GetUserIDByRefreshToken repo rt w = (Inl e, w') \<Longrightarrow> errors_is e s \<Longrightarrow>
        s = session_ErrSessionNotFound"
    and owner_frame: "sessions (snd (sr_GetUserIDByRefreshToken repo rt w)) = sessions w"
    and owner_works: "up w \<Longrightarrow> ok w \<Longrightarrow> text_ok rt \<Longrightarrow> fst (sr_GetUserIDByRefreshToken repo rt w) =
        (case owner_of rt (sessions w) of
           None \<Rightarrow> Inl (Sentinel session_ErrSessionNotFound) | Some u \<Rightarrow> Inr u)"
    and delete_ok: "ok w \<Longrightarrow> sr_DeleteByRefreshToken repo rt w = (None, w') \<Longrightarrow>
        owner_of rt (sessions w) \<noteq> None \<and> sessions w' = without_token rt (sessions w)"
    and delete_missing: "ok w \<Longrightarrow> sr_DeleteByRefreshToken repo rt w = (Some e, w') \<Longrightarrow>
        errors_is e session_ErrSessionNotFound \<Longrightarrow>
        owner_of rt (sessions w) = None \<and> sessions w' = sessions w"
    and delete_user_ok: "ok w \<Longrightarrow> sr_DeleteByUserID repo u w = (None, w') \<Longrightarrow>
        sessions w' = without_user u (sessions w)"
    and repo_ok: "ok w \<Longrightarrow> ok (snd (sr_Create repo i u rt w))"
      "ok w \<Longrightarrow> ok (snd (sr_GetUserIDByRefreshToken repo rt w))"
      "ok w \<Longrightarrow> ok (snd (sr_DeleteByRefreshToken repo rt w))"
      "ok w \<Longrightarrow> ok (snd (sr_DeleteByUserID repo u w))"
    and repo_up: "up w \<Longrightarrow> up (snd (sr_Create repo i u rt w))"
      "up w \<Longrightarrow> up (snd (sr_GetUserIDByRefreshToken repo rt w))"
      "up w \<Longrightarrow> up (snd (sr_DeleteByRefreshToken repo rt w))"
      "up w \<Longrightarrow> up (snd (sr_DeleteByUserID repo u w))"

text \<open>
  The cached tokens: for either kind, the user id a token stands for and the instant it expires.
\<close>

type_synonym token_cache = "string \<rightharpoonup> string \<times> int"

locale token_store =
  fixes tokens :: "'w token_store" and access :: "'w \<Rightarrow> token_cache" and refresh :: "'w \<Rightarrow> token_cache"
    and clock :: "'w \<Rightarrow> int" and up :: "'w \<Rightarrow> bool"
  assumes set_access_ok: "ts_SetAccessToken tokens t u ttl w = (None, w') \<Longrightarrow>
        access w' = (access w)(t \<mapsto> (u, clock w + ttl))"
    and set_access_frame: "refresh (snd (ts_SetAccessToken tokens t u ttl w)) = refresh w"
    and get_access_ok: "ts_GetAccessToken tokens t w = (Inr u, w') \<Longrightarrow> live (access w) (clock w) t = Some u"
    and get_access_works: "up w \<Longrightarrow> live (access w) (clock w) t = Some u \<Longrightarrow>
        fst (ts_GetAccessToken tokens t w) = Inr u"
    and set_refresh_ok: "ts_SetRefreshToken tokens t u ttl w = (None, w') \<Longrightarrow>
        refresh w' = (refresh w)(t \<mapsto> (u, clock w + ttl))"
    and set_refresh_frame: "access (snd (ts_SetRefreshToken tokens t u ttl w)) = access w"
      "t' \<noteq> t \<Longrightarrow> refresh (snd (ts_SetRefreshToken tokens t u ttl w)) t' = refresh w t'"
    and get_refresh_ok: "ts_GetRefreshToken tokens t w = (Inr u, w') \<Longrightarrow> live (refresh w) (clock w) t = Some u"
    and get_refresh_works: "up w \<Longrightarrow> live (refresh w) (clock w) t = Some u \<Longrightarrow>
        fst (ts_GetRefreshToken tokens t w) = Inr u"
    and get_frame: "access (snd (ts_GetAccessToken tokens t w)) = access w"
      "refresh (snd (ts_GetAccessToken tokens t w)) = refresh w"
      "access (snd (ts_GetRefreshToken tokens t w)) = access w"
      "refresh (snd (ts_GetRefreshToken tokens t w)) = refresh w"
    and delete_refresh: "ts_DeleteRefreshToken tokens t w = (None, w') \<Longrightarrow> refresh w' = (refresh w)(t := None)"
    and delete_refresh_frame: "access (snd (ts_DeleteRefreshToken tokens t w)) = access w"
    and tokens_work: "up w \<Longrightarrow> fst (ts_SetAccessToken tokens t u ttl w) = None"
      "up w \<Longrightarrow> fst (ts_SetRefreshToken tokens t u ttl w) = None"
      "up w \<Longrightarrow> fst (ts_DeleteRefreshToken tokens t w) = None"
    and tokens_up: "up w \<Longrightarrow> up (snd (ts_SetAccessToken tokens t u ttl w))"
      "up w \<Longrightarrow> up (snd (ts_GetAccessToken tokens t w))" "up w \<Longrightarrow> up (snd (ts_SetRefreshToken tokens t u ttl w))"
      "up w \<Longrightarrow> up (snd (ts_GetRefreshToken tokens t w))" "up w \<Longrightarrow> up (snd (ts_DeleteRefreshToken tokens t w))"
    and tokens_clock: "clock w \<le> clock (snd (ts_SetAccessToken tokens t u ttl w))"
      "clock w \<le> clock (snd (ts_GetAccessToken tokens t w))"
      "clock w \<le> clock (snd (ts_SetRefreshToken tokens t u ttl w))"
      "clock w \<le> clock (snd (ts_GetRefreshToken tokens t w))"
      "clock w \<le> clock (snd (ts_DeleteRefreshToken tokens t w))"

section \<open>Redis meets the contract of the token store\<close>

definition access_tokens :: "redis_db \<Rightarrow> token_cache" where
  "access_tokens m t = m (accessKey t)"

definition refresh_tokens :: "redis_db \<Rightarrow> token_cache" where
  "refresh_tokens m t = m (refreshKey t)"

lemma token_views [simp]:
  "access_tokens (m(accessKey t := x)) = (access_tokens m)(t := x)"
  "access_tokens (m(refreshKey t := x)) = access_tokens m"
  "refresh_tokens (m(refreshKey t := x)) = (refresh_tokens m)(t := x)"
  "refresh_tokens (m(accessKey t := x)) = refresh_tokens m"
  by (auto simp: access_tokens_def refresh_tokens_def)

lemma live_views [simp]:
  "live (access_tokens m) now t = live m now (accessKey t)"
  "live (refresh_tokens m) now t = live m now (refreshKey t)"
  by (simp_all add: live_def access_tokens_def refresh_tokens_def)

context redis
begin

lemma set_view:
  "(\<And>t. g t \<noteq> k) \<Longrightarrow> (\<lambda>t. kv (snd (RSet rc k v ttl w)) (g t)) = (\<lambda>t. kv w (g t))"
  "(\<And>t. g t \<noteq> k) \<Longrightarrow> (\<lambda>t. kv (snd (RDel rc k w)) (g t)) = (\<lambda>t. kv w (g t))"
  using set_other del_other by (metis (no_types))+

end

sublocale redis \<subseteq> redis_tokens: token_store "redis_token_store rc" "\<lambda>w. access_tokens (kv w)"
  "\<lambda>w. refresh_tokens (kv w)" clock up
proof unfold_locales
  fix w t u ttl t'
  note defs = redis_token_store_def SetAccessToken_def SetRefreshToken_def DeleteRefreshToken_def
  show "refresh_tokens (kv (snd (ts_SetAccessToken (redis_token_store rc) t u ttl w))) = refresh_tokens (kv w)"
    using set_view(1) [of refreshKey "accessKey t" u ttl w] by (simp add: defs refresh_tokens_def fun_eq_iff)
  show "access_tokens (kv (snd (ts_SetRefreshToken (redis_token_store rc) t u ttl w))) = access_tokens (kv w)"
    using set_view(1) [of accessKey "refreshKey t" u ttl w] by (simp add: defs access_tokens_def fun_eq_iff)
  show "access_tokens (kv (snd (ts_DeleteRefreshToken (redis_token_store rc) t w))) = access_tokens (kv w)"
    using set_view(2) [of accessKey "refreshKey t" w] by (simp add: defs access_tokens_def fun_eq_iff)
  show "t' \<noteq> t \<Longrightarrow> refresh_tokens (kv (snd (ts_SetRefreshToken (redis_token_store rc) t u ttl w))) t' =
      refresh_tokens (kv w) t'"
    by (simp add: defs refresh_tokens_def set_other)
qed (auto simp: redis_token_store_def SetAccessToken_def GetAccessToken_def SetRefreshToken_def
    GetRefreshToken_def DeleteRefreshToken_def redis_works redis_up redis_clock get_frame
    dest!: set_ok get_ok del_ok)

section \<open>Postgres meets the contract of the repository\<close>

definition session_of_row :: "sqlc_session \<Rightarrow> session" where
  "session_of_row s = \<lparr>session_ID = fromPgUUID (ss_SessionID s), session_UserID = fromPgUUID (ss_UserID s),
     session_RefreshToken = ss_RefreshToken s, session_CreatedAt = Time (ss_CreatedAt s)\<rparr>"

definition pg_sessions :: "tables \<Rightarrow> session list" where
  "pg_sessions t = map session_of_row (t_sessions t)"

lemma session_of_row_simps [simp]:
  "session_UserID (session_of_row s) = fromPgUUID (ss_UserID s)"
  "session_RefreshToken (session_of_row s) = ss_RefreshToken s"
  by (simp_all add: session_of_row_def)

lemma owner_of_pg:
  "owner_of rt (pg_sessions t) =
     (case filter (\<lambda>s. ss_RefreshToken s = rt) (t_sessions t) of
        [] \<Rightarrow> None | s # _ \<Rightarrow> Some (fromPgUUID (ss_UserID s)))"
  by (simp add: owner_of_def pg_sessions_def filter_map comp_def split: list.splits)

lemma owner_of_None: "owner_of rt ss = None \<longleftrightarrow> (\<forall>s \<in> set ss. session_RefreshToken s \<noteq> rt)"
proof (cases "filter (\<lambda>s. session_RefreshToken s = rt) ss")
  case Nil
  then show ?thesis by (simp add: owner_of_def filter_empty_conv)
next
  case (Cons s xs)
  from filter_first [OF this] have "s \<in> set ss" "session_RefreshToken s = rt" by simp_all
  with Cons show ?thesis by (auto simp: owner_of_def)
qed

lemma without_pg:
  "pg_sessions (t\<lparr>t_sessions := filter (\<lambda>s. ss_RefreshToken s \<noteq> rt) (t_sessions t)\<rparr>) =
     without_token rt (pg_sessions t)"
  "pg_sessions (t\<lparr>t_sessions := filter (\<lambda>s. fromPgUUID (ss_UserID s) \<noteq> u) (t_sessions t)\<rparr>) =
     without_user u (pg_sessions t)"
  by (simp_all add: pg_sessions_def without_token_def without_user_def filter_map comp_def)

lemma schema_ok_session:
  "schema_ok t \<Longrightarrow> s \<in> set (t_sessions t) \<Longrightarrow> UuidValid (ss_SessionID s) \<and> UuidValid (ss_UserID s)"
  by (auto simp: schema_ok_def refs_ok_def list_all_iff dest: user_exists_valid)

text \<open>Deleting by the id of the session that has the token deletes by the token.\<close>

lemma unique_on_eq: "unique_on k xs \<Longrightarrow> x \<in> set xs \<Longrightarrow> y \<in> set xs \<Longrightarrow> k x = k y \<longleftrightarrow> x = y"
  by (auto simp: unique_on_def distinct_map inj_on_def)

lemma delete_session_by_token:
  assumes "schema_ok t" "s0 \<in> set (t_sessions t)" "ss_RefreshToken s0 = rt"
  shows "filter (\<lambda>s. \<not> uuid_eq (ss_SessionID s) (ss_SessionID s0)) (t_sessions t) =
         filter (\<lambda>s. ss_RefreshToken s \<noteq> rt) (t_sessions t)"
proof (rule filter_cong [OF refl])
  fix s assume s: "s \<in> set (t_sessions t)"
  have u: "unique_on ss_SessionID (t_sessions t)" "unique_on ss_RefreshToken (t_sessions t)"
    using assms(1) by (simp_all add: schema_ok_def keys_ok_def)
  have "uuid_eq (ss_SessionID s) (ss_SessionID s0) \<longleftrightarrow> ss_SessionID s = ss_SessionID s0"
    using schema_ok_session [OF assms(1) s] schema_ok_session [OF assms(1,2)]
    by (auto simp: uuid_eq_def)
  then show "(\<not> uuid_eq (ss_SessionID s) (ss_SessionID s0)) = (ss_RefreshToken s \<noteq> rt)"
    using unique_on_eq [OF u(1) s assms(2)] unique_on_eq [OF u(2) s assms(2)] assms(3) by simp
qed

lemma createSession_sem:
  assumes "sql_sem createSession now [VUuid (toPgUUID i), VUuid (toPgUUID u), VStr rt] t = (Inr rows, t')"
  shows "rows \<noteq> [] \<and> session_added (pg_sessions t) i u rt (pg_sessions t')"
  using assms
  by (auto simp: ins_session_def Let_def session_added_def owner_of_None pg_sessions_def session_of_row_def
      list_all_iff split: if_splits)

lemma deleteUserSessions_sem:
  assumes "schema_ok t" "sql_sem deleteSessionsByUserID now [VUuid (toPgUUID u)] t = (Inr rows, t')"
  shows "pg_sessions t' = without_user u (pg_sessions t)"
proof -
  have "filter (\<lambda>s. \<not> uuid_eq (ss_UserID s) (toPgUUID u)) (t_sessions t) =
      filter (\<lambda>s. fromPgUUID (ss_UserID s) \<noteq> u) (t_sessions t)"
    by (rule filter_cong [OF refl]) (use assms(1) schema_ok_session toPgUUID_fromPgUUID in fastforce)
  then show ?thesis using assms(2) by (simp add: del_sessions_def flip: without_pg(2))
qed

context postgres
begin

lemma PGStore_Create_cases:
  assumes "PGStore_Create db i u rt w = (r, w')"
  obtains q where "query_one db createSession scan_session [VUuid (toPgUUID i), VUuid (toPgUUID u), VStr rt] w = (q, w')"
    "r = err_of q"
  using assms by (auto simp: PGStore_Create_def CreateSession_def split: prod.splits)

lemma PGStore_Create_ok:
  assumes "PGStore_Create db i u rt w = (None, w')"
  shows "session_added (pg_sessions (tbl w)) i u rt (pg_sessions (tbl w'))"
proof -
  from assms obtain x where
    "query_one db createSession scan_session [VUuid (toPgUUID i), VUuid (toPgUUID u), VStr rt] w = (Inr x, w')"
    by (metis PGStore_Create_cases err_of_None)
  from query_one_ok [OF this] show ?thesis using createSession_sem by blast
qed

lemma PGStore_Create_err:
  assumes "PGStore_Create db i u rt w = (Some e, w')"
  shows "foreign e \<and> (pg_sessions (tbl w') = pg_sessions (tbl w) \<or>
     session_added (pg_sessions (tbl w)) i u rt (pg_sessions (tbl w')))"
proof -
  from assms obtain q where
    "query_one db createSession scan_session [VUuid (toPgUUID i), VUuid (toPgUUID u), VStr rt] w = (q, w')"
    "Some e = err_of q" by (rule PGStore_Create_cases)
  then have q: "query_one db createSession scan_session [VUuid (toPgUUID i), VUuid (toPgUUID u), VStr rt] w = (Inl e, w')"
    by (cases q) auto
  from insert_err [OF this] show ?thesis using createSession_sem by (metis (no_types, lifting))
qed

lemma PGStore_Delete_ok:
  assumes "schema_ok (tbl w)" "PGStore_DeleteByRefreshToken db rt w = (None, w')"
  shows "owner_of rt (pg_sessions (tbl w)) \<noteq> None \<and>
    pg_sessions (tbl w') = without_token rt (pg_sessions (tbl w))"
proof -
  from assms(2) obtain row w1 where
    q: "query_one db getSessionByRefreshToken scan_session [VStr rt] w = (Inr row, w1)"
    and d: "Exec db deleteSession [VUuid (ss_SessionID row)] w1 = (None, w')"
    by (auto simp: PGStore_DeleteByRefreshToken_def GetSessionByRefreshToken_def DeleteSession_def
        split: prod.splits sum.splits)
  from select_one_ok [OF selects_sessions(2) scan_row(3) q] obtain xs where
    f: "filter (\<lambda>s. ss_RefreshToken s = rt) (t_sessions (tbl w)) = row # xs" by blast
  from filter_first [OF this] have row: "row \<in> set (t_sessions (tbl w))" "ss_RefreshToken row = rt"
    by simp_all
  have same: "tbl w1 = tbl w" using select_frame(1) [OF selects_sessions(2), of scan_session rt w] q by simp
  from exec_ok [OF d] delete_session_by_token [OF assms(1) row] have
    "tbl w' = (tbl w)\<lparr>t_sessions := filter (\<lambda>s. ss_RefreshToken s \<noteq> rt) (t_sessions (tbl w))\<rparr>"
    by (auto simp: same del_sessions_def)
  with f show ?thesis by (simp add: owner_of_pg without_pg)
qed

lemma PGStore_Delete_missing:
  assumes "PGStore_DeleteByRefreshToken db rt w = (Some e, w')" "errors_is e session_ErrSessionNotFound"
  shows "owner_of rt (pg_sessions (tbl w)) = None \<and> pg_sessions (tbl w') = pg_sessions (tbl w)"
proof -
  obtain r w1 where q: "query_one db getSessionByRefreshToken scan_session [VStr rt] w = (r, w1)"
    by (rule prod.exhaust)
  have same: "tbl w1 = tbl w" using select_frame(1) [OF selects_sessions(2), of scan_session rt w] q by simp
  show ?thesis
  proof (cases r)
    case (Inl e')
    with q assms query_one_foreign [OF q [unfolded Inl]] have "errors_is e' pgx_ErrNoRows" "w' = w1"
      by (auto simp: PGStore_DeleteByRefreshToken_def GetSessionByRefreshToken_def split: if_splits)
    with select_one_none [OF selects_sessions(2) q [unfolded Inl]] same show ?thesis
      by (simp add: owner_of_pg)
  next
    case (Inr row)
    with q assms have "Exec db deleteSession [VUuid (ss_SessionID row)] w1 = (Some e, w')"
      by (simp add: PGStore_DeleteByRefreshToken_def GetSessionByRefreshToken_def DeleteSession_def)
    with exec_err assms(2) show ?thesis by blast
  qed
qed

lemma PGStore_owner_works:
  assumes "up w" "text_ok rt"
  shows "fst (PGStore_GetUserIDByRefreshToken db rt w) = (case owner_of rt (pg_sessions (tbl w)) of
      None \<Rightarrow> Inl (Sentinel session_ErrSessionNotFound) | Some u \<Rightarrow> Inr u)"
proof -
  let ?rows = "filter (\<lambda>s. ss_RefreshToken s = rt) (t_sessions (tbl w))"
  have "sql_sem getSessionByRefreshToken (clock w) [VStr rt] (tbl w) = (Inr (map row_session ?rows), tbl w)"
    using assms(2) by (simp add: sel_sessions_def)
  from found_up [where scan = scan_session, OF assms(1) this scan_row(3)] show ?thesis
    by (cases ?rows) (simp_all add: PGStore_GetUserIDByRefreshToken_def GetSessionByRefreshToken_def owner_of_pg)
qed

end

sublocale postgres \<subseteq> pg_session_repo: session_repository "pg_session_store db" "\<lambda>w. pg_sessions (tbl w)"
  "\<lambda>w. schema_ok (tbl w)" up
proof unfold_locales
  fix w w' i u rt e s
  note defs = pg_session_store_def PGStore_Create_def CreateSession_def PGStore_GetUserIDByRefreshToken_def
    GetSessionByRefreshToken_def PGStore_DeleteByRefreshToken_def DeleteSession_def PGStore_DeleteByUserID_def
    DeleteSessionsByUserID_def
  show "sr_GetUserIDByRefreshToken (pg_session_store db) rt w = (Inr u, w') \<Longrightarrow>
      owner_of rt (pg_sessions (tbl w)) = Some u"
    by (auto simp: defs owner_of_pg dest!: found_ok [OF selects_sessions(2) scan_row(3)])
  show "sr_GetUserIDByRefreshToken (pg_session_store db) rt w = (Inl e, w') \<Longrightarrow>
      errors_is e session_ErrSessionNotFound \<Longrightarrow> owner_of rt (pg_sessions (tbl w)) = None"
    by (auto simp: defs owner_of_pg dest!: found_none [OF selects_sessions(2)])
  show "pg_sessions (tbl (snd (sr_GetUserIDByRefreshToken (pg_session_store db) rt w))) = pg_sessions (tbl w)"
    by (simp add: defs select_frame(1) [OF selects_sessions(2)])
  show "schema_ok (tbl w) \<Longrightarrow> sr_DeleteByUserID (pg_session_store db) u w = (None, w') \<Longrightarrow>
      pg_sessions (tbl w') = without_user u (pg_sessions (tbl w))"
    by (auto simp: defs simp del: sql_sem.simps dest!: exec_ok intro: deleteUserSessions_sem)
  show "schema_ok (tbl w) \<Longrightarrow> schema_ok (tbl (snd (sr_Create (pg_session_store db) i u rt w)))"
    by (auto simp: defs dest: schema_ok_step split: prod.splits)
  show "schema_ok (tbl w) \<Longrightarrow> schema_ok (tbl (snd (sr_GetUserIDByRefreshToken (pg_session_store db) rt w)))"
    by (simp add: defs select_frame(1) [OF selects_sessions(2)])
  show "schema_ok (tbl w) \<Longrightarrow> schema_ok (tbl (snd (sr_DeleteByRefreshToken (pg_session_store db) rt w)))"
    by (auto simp: defs schema_ok_exec dest: schema_ok_step split: prod.splits sum.splits)
  show "up w \<Longrightarrow> up (snd (sr_DeleteByRefreshToken (pg_session_store db) rt w))"
    using query_one_frame(1) [of w getSessionByRefreshToken scan_session "[VStr rt]"]
    by (auto simp: defs db_up split: prod.splits sum.splits)
  show "up w \<Longrightarrow> up (snd (sr_Create (pg_session_store db) i u rt w))"
    using query_one_frame(1) [of w createSession scan_session "[VUuid (toPgUUID i), VUuid (toPgUUID u), VStr rt]"]
    by (auto simp: defs split: prod.splits)
  show "up w \<Longrightarrow> up (snd (sr_GetUserIDByRefreshToken (pg_session_store db) rt w))"
    using query_one_frame(1) [of w getSessionByRefreshToken scan_session "[VStr rt]"]
    by (auto simp: defs found_def split: prod.splits sum.splits)
qed (auto simp: pg_session_store_def PGStore_owner_works [unfolded PGStore_GetUserIDByRefreshToken_def GetSessionByRefreshToken_def] PGStore_DeleteByUserID_def DeleteSessionsByUserID_def
    db_up schema_ok_exec PGStore_GetUserIDByRefreshToken_def GetSessionByRefreshToken_def
    dest: PGStore_Create_ok PGStore_Create_err PGStore_Delete_ok PGStore_Delete_missing found_error)

section \<open>The service over any repository and token store\<close>

text \<open>An expiry set between the instants \<open>n\<close> and \<open>n'\<close> for \<open>ttl\<close>.\<close>

definition expires_within :: "int \<Rightarrow> int \<Rightarrow> int \<Rightarrow> int \<Rightarrow> bool" where
  "expires_within n n' ttl e \<longleftrightarrow> n + ttl \<le> e \<and> e \<le> n' + ttl"

locale session_service = session_repository repo sessions ok up + token_store tokens access refresh clock up +
    uuid_codec ut
  for repo :: "'w session_Repository" and sessions :: "'w \<Rightarrow> session list" and ok :: "'w \<Rightarrow> bool"
    and up :: "'w \<Rightarrow> bool" and tokens :: "'w token_store" and access :: "'w \<Rightarrow> token_cache"
    and refresh :: "'w \<Rightarrow> token_cache" and clock :: "'w \<Rightarrow> int" and ut :: uuid_text +
  fixes ent :: "'w entropy"
  assumes repo_access: "access (snd (sr_Create repo i u rt w)) = access w"
      "access (snd (sr_GetUserIDByRefreshToken repo rt w)) = access w"
      "access (snd (sr_DeleteByRefreshToken repo rt w)) = access w"
      "access (snd (sr_DeleteByUserID repo u w)) = access w"
    and repo_refresh: "refresh (snd (sr_Create repo i u rt w)) = refresh w"
      "refresh (snd (sr_GetUserIDByRefreshToken repo rt w)) = refresh w"
      "refresh (snd (sr_DeleteByRefreshToken repo rt w)) = refresh w"
      "refresh (snd (sr_DeleteByUserID repo u w)) = refresh w"
    and repo_clock: "clock w \<le> clock (snd (sr_Create repo i u rt w))"
      "clock w \<le> clock (snd (sr_GetUserIDByRefreshToken repo rt w))"
      "clock w \<le> clock (snd (sr_DeleteByRefreshToken repo rt w))"
      "clock w \<le> clock (snd (sr_DeleteByUserID repo u w))"
    and token_sessions: "sessions (snd (ts_SetAccessToken tokens t v ttl w)) = sessions w"
      "sessions (snd (ts_GetAccessToken tokens t w)) = sessions w"
      "sessions (snd (ts_SetRefreshToken tokens t v ttl w)) = sessions w"
      "sessions (snd (ts_GetRefreshToken tokens t w)) = sessions w"
      "sessions (snd (ts_DeleteRefreshToken tokens t w)) = sessions w"
    and token_ok: "ok w \<Longrightarrow> ok (snd (ts_SetAccessToken tokens t v ttl w))"
      "ok w \<Longrightarrow> ok (snd (ts_GetAccessToken tokens t w))"
      "ok w \<Longrightarrow> ok (snd (ts_SetRefreshToken tokens t v ttl w))"
      "ok w \<Longrightarrow> ok (snd (ts_GetRefreshToken tokens t w))"
      "ok w \<Longrightarrow> ok (snd (ts_DeleteRefreshToken tokens t w))"
    and ent_sessions: "sessions (snd (RandRead ent n w)) = sessions w" "sessions (snd (NewV7 ent w)) = sessions w"
    and ent_ok: "ok w \<Longrightarrow> ok (snd (RandRead ent n w))" "ok w \<Longrightarrow> ok (snd (NewV7 ent w))"
    and ent_tokens: "access (snd (RandRead ent n w)) = access w" "access (snd (NewV7 ent w)) = access w"
      "refresh (snd (RandRead ent n w)) = refresh w" "refresh (snd (NewV7 ent w)) = refresh w"
    and ent_clock: "clock w \<le> clock (snd (RandRead ent n w))" "clock w \<le> clock (snd (NewV7 ent w))"
    and ent_length: "RandRead ent n w = (Inr bs, w') \<Longrightarrow> length bs = n"
    and ent_works: "up w \<Longrightarrow> \<exists>bs. fst (RandRead ent n w) = Inr bs"
    and ent_up: "up w \<Longrightarrow> up (snd (RandRead ent n w))"
begin

text \<open>\<open>w'\<close> follows \<open>w\<close>: time has passed, and the sessions and tokens are the same.\<close>

definition follows :: "'w \<Rightarrow> 'w \<Rightarrow> bool" where
  "follows w w' \<longleftrightarrow> clock w \<le> clock w' \<and> sessions w' = sessions w \<and> access w' = access w \<and>
     refresh w' = refresh w \<and> (ok w \<longrightarrow> ok w')"

lemma follows_trans [trans]: "follows a b \<Longrightarrow> follows b c \<Longrightarrow> follows a c"
  by (auto simp: follows_def)

lemma generateToken_step:
  "generateToken ent n w = (r, w') \<Longrightarrow> follows w w' \<and> (up w \<longrightarrow> up w' \<and> (\<exists>t. r = Inr t)) \<and>
     (\<forall>t. r = Inr t \<longrightarrow> length t = 2 * n)"
  using ent_sessions(1) [of n w] ent_ok(1) [of w n] ent_tokens(1) [of n w] ent_tokens(3) [of n w]
    ent_clock(1) [of w n] ent_works [of w n] ent_up [of w n] ent_length [of n w]
  by (auto simp: generateToken_def follows_def split: prod.splits sum.splits)

lemma uuid_follows: "NewV7 ent w = (r, w') \<Longrightarrow> follows w w'"
  using ent_sessions(2) [of w] ent_ok(2) [of w] ent_tokens(2) [of w] ent_tokens(4) [of w] ent_clock(2) [of w]
  by (auto simp: follows_def)

lemma owner_follows: "sr_GetUserIDByRefreshToken repo rt w = (r, w') \<Longrightarrow> follows w w' \<and> (up w \<longrightarrow> up w')"
  using owner_frame [of rt w] repo_ok(2) [of w rt] repo_access(2) [of rt w] repo_refresh(2) [of rt w]
    repo_clock(2) [of w rt] repo_up(2) [of w rt]
  by (auto simp: follows_def)

lemma get_follows:
  "ts_GetAccessToken tokens t w = (r, w') \<Longrightarrow> follows w w' \<and> (up w \<longrightarrow> up w')"
  "ts_GetRefreshToken tokens t w = (r, w') \<Longrightarrow> follows w w' \<and> (up w \<longrightarrow> up w')"
  using get_frame(1,2) [of t w] get_frame(3,4) [of t w] tokens_clock(2,4) [of w t] token_ok(2,4) [of w t]
    token_sessions(2,4) [of t w] tokens_up(2) [of w t] tokens_up(4) [of w t]
  by (auto simp: follows_def)

text \<open>Storing a token: the entry and its expiry, everything else as it was.\<close>

lemma set_access_step:
  assumes "ts_SetAccessToken tokens t v ttl w = (None, w')"
  shows "\<exists>e. access w' = (access w)(t \<mapsto> (v, e)) \<and> expires_within (clock w) (clock w') ttl e"
    and "refresh w' = refresh w" "sessions w' = sessions w" "clock w \<le> clock w'" "ok w \<Longrightarrow> ok w'"
  using set_access_ok [OF assms] assms set_access_frame [of t v ttl w] token_sessions(1) [of t v ttl w]
    tokens_clock(1) [of w t v ttl] token_ok(1) [of w t v ttl]
  by (auto simp: expires_within_def)

lemma set_refresh_step:
  assumes "ts_SetRefreshToken tokens t v ttl w = (None, w')"
  shows "\<exists>e. refresh w' = (refresh w)(t \<mapsto> (v, e)) \<and> expires_within (clock w) (clock w') ttl e"
    and "access w' = access w" "sessions w' = sessions w" "clock w \<le> clock w'" "ok w \<Longrightarrow> ok w'"
  using set_refresh_ok [OF assms] assms set_refresh_frame(1) [of t v ttl w] token_sessions(3) [of t v ttl w]
    tokens_clock(3) [of w t v ttl] token_ok(3) [of w t v ttl]
  by (auto simp: expires_within_def)

lemma session_issue_ok:
  assumes "ok w" "session_issue repo tokens ut u at rt i w = (Inr tp, w')"
  shows "AccessToken tp = at" "RefreshToken tp = rt"
    and "session_added (sessions w) i u rt (sessions w')"
    and "\<exists>e. access w' = (access w)(at \<mapsto> (uuid_String ut u, e)) \<and> expires_within (clock w) (clock w') AccessTokenTTL e"
    and "\<exists>e. refresh w' = (refresh w)(rt \<mapsto> (uuid_String ut u, e)) \<and> expires_within (clock w) (clock w') RefreshTokenTTL e"
proof -
  from assms(2) obtain w1 w2 where c: "sr_Create repo i u rt w = (None, w1)"
    and a: "ts_SetAccessToken tokens at (uuid_String ut u) AccessTokenTTL w1 = (None, w2)"
    and r: "ts_SetRefreshToken tokens rt (uuid_String ut u) RefreshTokenTTL w2 = (None, w')"
    and tp: "tp = \<lparr>AccessToken = at, RefreshToken = rt\<rparr>"
    by (auto simp: session_issue_def Let_def split: prod.splits option.splits)
  from tp show "AccessToken tp = at" "RefreshToken tp = rt" by simp_all
  have c': "access w1 = access w" "refresh w1 = refresh w" "clock w \<le> clock w1"
    using c repo_access(1) [of i u rt w] repo_refresh(1) [of i u rt w] repo_clock(1) [of w i u rt] by auto
  show "session_added (sessions w) i u rt (sessions w')"
    using create_ok [OF assms(1) c] set_access_step(3) [OF a] set_refresh_step(3) [OF r] by simp
  show "\<exists>e. access w' = (access w)(at \<mapsto> (uuid_String ut u, e)) \<and> expires_within (clock w) (clock w') AccessTokenTTL e"
    using set_access_step(1) [OF a] set_refresh_step(2,4) [OF r] c'
    by (fastforce simp: expires_within_def)
  show "\<exists>e. refresh w' = (refresh w)(rt \<mapsto> (uuid_String ut u, e)) \<and> expires_within (clock w) (clock w') RefreshTokenTTL e"
    using set_refresh_step(1) [OF r] set_access_step(2,4) [OF a] c'
    by (fastforce simp: expires_within_def)
qed

lemma expires_within_follows: "follows w w1 \<Longrightarrow> expires_within (clock w1) (clock w') ttl e \<Longrightarrow> expires_within (clock w) (clock w') ttl e"
  by (auto simp: follows_def expires_within_def)

lemma session_Create_ok:
  assumes "ok w" "session_Create repo tokens ent ut u w = (Inr tp, w')"
  shows "length (AccessToken tp) = 64" "length (RefreshToken tp) = 64"
    and "\<exists>i. session_added (sessions w) i u (RefreshToken tp) (sessions w')"
    and "\<exists>e. access w' = (access w)(AccessToken tp \<mapsto> (uuid_String ut u, e)) \<and> expires_within (clock w) (clock w') AccessTokenTTL e"
    and "\<exists>e. refresh w' = (refresh w)(RefreshToken tp \<mapsto> (uuid_String ut u, e)) \<and> expires_within (clock w) (clock w') RefreshTokenTTL e"
proof -
  from assms(2) obtain at w1 rt w2 i w3 where g: "generateToken ent 32 w = (Inr at, w1)"
    "generateToken ent 32 w1 = (Inr rt, w2)" "NewV7 ent w2 = (Inr i, w3)"
    "session_issue repo tokens ut u at rt i w3 = (Inr tp, w')"
    by (auto simp: session_Create_def split: prod.splits sum.splits)
  have f: "follows w w3"
    using generateToken_step [OF g(1)] generateToken_step [OF g(2)] uuid_follows [OF g(3)]
    by (blast intro: follows_trans)
  then have "ok w3" using assms(1) by (simp add: follows_def)
  note issue = session_issue_ok [OF this g(4)]
  show "length (AccessToken tp) = 64" "length (RefreshToken tp) = 64"
    using issue(1,2) generateToken_step [OF g(1)] generateToken_step [OF g(2)] by auto
  show "\<exists>i. session_added (sessions w) i u (RefreshToken tp) (sessions w')"
    "\<exists>e. access w' = (access w)(AccessToken tp \<mapsto> (uuid_String ut u, e)) \<and> expires_within (clock w) (clock w') AccessTokenTTL e"
    "\<exists>e. refresh w' = (refresh w)(RefreshToken tp \<mapsto> (uuid_String ut u, e)) \<and> expires_within (clock w) (clock w') RefreshTokenTTL e"
    using issue f expires_within_follows [OF f] by (auto simp: follows_def)
qed

lemma session_Create_keeps_ok:
  assumes "ok w" "session_Create repo tokens ent ut u w = (r, w')"
  shows "ok w'"
proof -
  have c: "sr_Create repo i u rt w0 = (q, w1) \<Longrightarrow> ok w0 \<Longrightarrow> ok w1" for i rt w0 q w1
    using repo_ok(1) [of w0 i u rt] by simp
  have t: "ts_SetAccessToken tokens t v ttl w0 = (q, w1) \<Longrightarrow> ok w0 \<Longrightarrow> ok w1"
    "ts_SetRefreshToken tokens t v ttl w0 = (q, w1) \<Longrightarrow> ok w0 \<Longrightarrow> ok w1" for t v ttl w0 q w1
    using token_ok(1) [of w0 t v ttl] token_ok(3) [of w0 t v ttl] by auto
  have g: "generateToken ent n w0 = (q, w1) \<Longrightarrow> ok w0 \<Longrightarrow> ok w1" for n w0 q w1
    using generateToken_step [of n w0 q w1] by (simp add: follows_def)
  have v: "NewV7 ent w0 = (q, w1) \<Longrightarrow> ok w0 \<Longrightarrow> ok w1" for w0 q w1
    using uuid_follows [of w0 q w1] by (simp add: follows_def)
  from assms(2,1) show ?thesis
    by (auto simp: session_Create_def session_issue_def Let_def split: prod.splits sum.splits option.splits
        dest!: c t g v)
qed

text \<open>Access: a token is accepted for the user it was stored for, while it lives.\<close>

lemma ValidateAccess_ok:
  assumes "ValidateAccess tokens ut t w = (Inr u, w')"
  shows "\<exists>s. live (access w) (clock w) t = Some s \<and> uuid_Parse ut s = Inr u"
  using assms get_access_ok by (auto simp: ValidateAccess_def split: prod.splits sum.splits if_splits)

lemma ValidateAccess_dead:
  assumes "live (access w) (clock w) t = None"
  shows "fst (ValidateAccess tokens ut t w) = Inl (Sentinel session_ErrInvalidAccessToken)"
  using assms get_access_ok by (fastforce simp: ValidateAccess_def split: prod.splits sum.splits)

lemma ValidateAccess_live:
  assumes "up w" "live (access w) (clock w) t = Some (uuid_String ut u)"
  shows "fst (ValidateAccess tokens ut t w) = Inr u"
  using get_access_works [OF assms] string_nonempty [of u] parse_string [of u]
  by (auto simp: ValidateAccess_def split: prod.splits sum.splits)

text \<open>Refresh.\<close>

lemma refresh_owner_ok:
  assumes "ok w" "refresh_owner repo tokens ut rt w = (Inr s, w')"
  shows "(live (refresh w) (clock w) rt = Some s \<and> s \<noteq> [] \<or>
          (\<exists>u. owner_of rt (sessions w) = Some u \<and> s = uuid_String ut u)) \<and>
     sessions w' = sessions w \<and> access w' = access w \<and> clock w \<le> clock w' \<and> ok w'"
proof -
  obtain r w1 where g: "ts_GetRefreshToken tokens rt w = (r, w1)" by (rule prod.exhaust)
  note f = get_follows(2) [OF g]
  show ?thesis
  proof (cases "case r of Inr v \<Rightarrow> v \<noteq> [] | Inl _ \<Rightarrow> False")
    case True
    with g assms(2) have "r = Inr s" "w' = w1" by (auto simp: refresh_owner_def)
    with True f g get_refresh_ok assms(1) show ?thesis by (auto simp: follows_def)
  next
    case False
    with g assms(2) obtain u w2 where q: "sr_GetUserIDByRefreshToken repo rt w1 = (Inr u, w2)"
      and s: "s = uuid_String ut u" "w' = snd (ts_SetRefreshToken tokens rt s RefreshTokenTTL w2)"
      by (auto simp: refresh_owner_def Let_def split: prod.splits sum.splits if_splits)
    note f' = owner_follows [OF q]
    have "ok w1" using f assms(1) by (simp add: follows_def)
    then show ?thesis
      using owner_ok [OF _ q] s f f' token_sessions(3) [of rt s RefreshTokenTTL w2]
        set_refresh_frame(1) [of rt s RefreshTokenTTL w2] tokens_clock(3) [of w2 rt s RefreshTokenTTL]
        token_ok(3) [of w2 rt s RefreshTokenTTL]
      by (auto simp: follows_def)
  qed
qed

lemma Refresh_ok:
  assumes "ok w" "Refresh repo tokens ent ut rt w = (Inr t, w')"
  shows "\<exists>s. (live (refresh w) (clock w) rt = Some s \<and> s \<noteq> [] \<or>
            (\<exists>u. owner_of rt (sessions w) = Some u \<and> s = uuid_String ut u)) \<and>
         (\<exists>e. access w' = (access w)(t \<mapsto> (s, e)) \<and> expires_within (clock w) (clock w') AccessTokenTTL e)"
    and "sessions w' = sessions w"
proof -
  from assms(2) obtain s w1 w2 where o: "refresh_owner repo tokens ut rt w = (Inr s, w1)"
    and g: "generateToken ent 32 w1 = (Inr t, w2)"
    and a: "ts_SetAccessToken tokens t s AccessTokenTTL w2 = (None, w')"
    by (auto simp: Refresh_def split: prod.splits sum.splits option.splits)
  note o' = refresh_owner_ok [OF assms(1) o] and g' = generateToken_step [OF g] and a' = set_access_step [OF a]
  show "sessions w' = sessions w" using o' g' a'(3) by (simp add: follows_def)
  obtain e where e: "access w' = (access w2)(t \<mapsto> (s, e))" "expires_within (clock w2) (clock w') AccessTokenTTL e"
    using a'(1) by blast
  then have "access w' = (access w)(t \<mapsto> (s, e))" "expires_within (clock w) (clock w') AccessTokenTTL e"
    using o' g' by (auto simp: follows_def expires_within_def)
  with o' show "\<exists>s. (live (refresh w) (clock w) rt = Some s \<and> s \<noteq> [] \<or>
            (\<exists>u. owner_of rt (sessions w) = Some u \<and> s = uuid_String ut u)) \<and>
         (\<exists>e. access w' = (access w)(t \<mapsto> (s, e)) \<and> expires_within (clock w) (clock w') AccessTokenTTL e)" by blast
qed

text \<open>
  With the services up, a refresh token in the cache or of a stored session is honoured, however
  old the session; any other is refused with \<open>ErrInvalidRefreshToken\<close>.
\<close>

lemma refresh_owner_works:
  assumes "up w" "ok w" "text_ok rt"
  shows "fst (refresh_owner repo tokens ut rt w) =
      (case live (refresh w) (clock w) rt of
         Some s \<Rightarrow> (if s \<noteq> [] then Inr s else
            (case owner_of rt (sessions w) of
               None \<Rightarrow> Inl (Sentinel session_ErrInvalidRefreshToken) | Some u \<Rightarrow> Inr (uuid_String ut u)))
       | None \<Rightarrow> (case owner_of rt (sessions w) of
               None \<Rightarrow> Inl (Sentinel session_ErrInvalidRefreshToken) | Some u \<Rightarrow> Inr (uuid_String ut u)))"
proof -
  obtain r w1 where g: "ts_GetRefreshToken tokens rt w = (r, w1)" by (rule prod.exhaust)
  obtain q w2 where o: "sr_GetUserIDByRefreshToken repo rt w1 = (q, w2)" by (rule prod.exhaust)
  note f = get_follows(2) [OF g]
  have w1: "up w1" "ok w1" "sessions w1 = sessions w" using f assms(1,2) by (simp_all add: follows_def)
  have q: "q = (case owner_of rt (sessions w) of
      None \<Rightarrow> Inl (Sentinel session_ErrSessionNotFound) | Some u \<Rightarrow> Inr u)"
    using owner_works [OF w1(1,2) assms(3)] w1(3) o by simp
  show ?thesis
  proof (cases "live (refresh w) (clock w) rt")
    case (Some s)
    then have "r = Inr s" using get_refresh_works [OF assms(1)] g by fastforce
    with Some q g o show ?thesis by (auto simp: refresh_owner_def Let_def split: option.splits)
  next
    case None
    then obtain e where "r = Inl e" using get_refresh_ok g by (cases r) auto
    with None q g o show ?thesis by (auto simp: refresh_owner_def Let_def split: option.splits)
  qed
qed

lemma refresh_owner_up:
  assumes "up w"
  shows "up (snd (refresh_owner repo tokens ut rt w))"
proof -
  obtain r w1 where g: "ts_GetRefreshToken tokens rt w = (r, w1)" by (rule prod.exhaust)
  obtain q w2 where o: "sr_GetUserIDByRefreshToken repo rt w1 = (q, w2)" by (rule prod.exhaust)
  have "up w1" "up w2" using get_follows(2) [OF g] owner_follows [OF o] assms by auto
  then show ?thesis using g o tokens_up(3)
    by (auto simp: refresh_owner_def Let_def split: sum.splits)
qed

lemma Refresh_works:
  assumes "up w" "fst (refresh_owner repo tokens ut rt w) = Inr s"
  shows "\<exists>t. fst (Refresh repo tokens ent ut rt w) = Inr t"
proof -
  obtain w1 where o: "refresh_owner repo tokens ut rt w = (Inr s, w1)" using assms(2) by (metis prod.collapse)
  have "up w1" using refresh_owner_up [OF assms(1), of rt] o by simp
  obtain r w2 where g: "generateToken ent 32 w1 = (r, w2)" by (rule prod.exhaust)
  with \<open>up w1\<close> generateToken_step [OF g] obtain t where "r = Inr t" "up w2" by auto
  with o g tokens_work(1) [of w2 t s AccessTokenTTL] show ?thesis
    by (auto simp: Refresh_def split: prod.splits)
qed

lemma Refresh_refused:
  assumes "fst (refresh_owner repo tokens ut rt w) = Inl e"
  shows "fst (Refresh repo tokens ent ut rt w) = Inl e"
  using assms by (auto simp: Refresh_def split: prod.splits)

text \<open>Revocation.\<close>

lemma Revoke_ok:
  assumes "ok w" "Revoke repo tokens rt w = (None, w')"
  shows "owner_of rt (sessions w) \<noteq> None" "sessions w' = without_token rt (sessions w)"
    and "access w' = access w" "ok w'" "up w \<Longrightarrow> refresh w' rt = None \<and> up w'"
proof -
  from assms(2) obtain w1 where d: "sr_DeleteByRefreshToken repo rt w = (None, w1)"
    and w': "w' = snd (ts_DeleteRefreshToken tokens rt w1)"
    by (auto simp: Revoke_def split: prod.splits option.splits)
  have w1: "access w1 = access w" "ok w1" "up w \<Longrightarrow> up w1"
    using d repo_access(3) [of rt w] repo_ok(3) [OF assms(1), of rt] repo_up(3) [of w rt] by auto
  show "owner_of rt (sessions w) \<noteq> None" "sessions w' = without_token rt (sessions w)"
    "access w' = access w" "ok w'"
    using delete_ok [OF assms(1) d] w' w1 token_sessions(5) [of rt w1] delete_refresh_frame [of rt w1]
      token_ok(5) [of w1 rt] by simp_all
  show "refresh w' rt = None \<and> up w'" if "up w"
  proof -
    have "up w1" using w1(3) that by simp
    then have "ts_DeleteRefreshToken tokens rt w1 = (None, w')"
      using tokens_work(3) [of w1 rt] w' by (simp add: prod_eq_iff)
    with delete_refresh [of rt w1 w'] tokens_up(5) [OF \<open>up w1\<close>, of rt] show ?thesis by simp
  qed
qed

lemma owner_of_without: "owner_of rt (without_token rt ss) = None"
  by (simp add: owner_of_def without_token_def filter_empty_conv split: list.splits)

lemma Revoke_ends:
  assumes "up w" "ok w" "text_ok rt" "Revoke repo tokens rt w = (None, w')"
  shows "fst (Refresh repo tokens ent ut rt w') = Inl (Sentinel session_ErrInvalidRefreshToken)"
proof -
  note r = Revoke_ok [OF assms(2,4)]
  have "live (refresh w') (clock w') rt = None" using r(5) [OF assms(1)] by (simp add: live_def)
  then have "fst (refresh_owner repo tokens ut rt w') = Inl (Sentinel session_ErrInvalidRefreshToken)"
    using refresh_owner_works [of w' rt] r assms(1,3) owner_of_without by simp
  then show ?thesis by (rule Refresh_refused)
qed

lemma RevokeAll_ok:
  assumes "ok w" "RevokeAll repo u w = (None, w')"
  shows "sessions w' = without_user u (sessions w)" "refresh w' = refresh w" "access w' = access w" "ok w'"
    "up w \<Longrightarrow> up w'" "clock w \<le> clock w'"
  using assms delete_user_ok [of w u w'] repo_refresh(4) [of u w] repo_access(4) [of u w] repo_ok(4) [of w u]
    repo_up(4) [of w u] repo_clock(4) [of w u]
  by (auto simp: RevokeAll_def)

text \<open>The cached refresh tokens of the user stay valid.\<close>

lemma RevokeAll_keeps_cache:
  assumes "up w" "ok w" "text_ok rt" "RevokeAll repo u w = (None, w')"
    and "live (refresh w) (clock w') rt = Some (uuid_String ut u)"
  shows "\<exists>t. fst (Refresh repo tokens ent ut rt w') = Inr t"
proof -
  note r = RevokeAll_ok [OF assms(2,4)]
  have "fst (refresh_owner repo tokens ut rt w') = Inr (uuid_String ut u)"
    using refresh_owner_works [of w' rt] r assms(1,3,5) string_nonempty [of u] by simp
  with Refresh_works [OF r(5) [OF assms(1)]] show ?thesis by blast
qed

end

section \<open>The service on Postgres and Redis\<close>

sublocale backend \<subseteq> pg_session_service: session_service "pg_session_store db" "\<lambda>w. pg_sessions (tbl w)"
  "\<lambda>w. schema_ok (tbl w)" up "redis_token_store rc" "\<lambda>w. access_tokens (kv w)" "\<lambda>w. refresh_tokens (kv w)"
  clock ut ent
proof unfold_locales
  fix w rt
  have "clock w \<le> clock (snd (PGStore_DeleteByRefreshToken db rt w))"
    using query_one_frame(2) [of w getSessionByRefreshToken scan_session "[VStr rt]"] order_trans db_clock(1)
    by (fastforce simp: PGStore_DeleteByRefreshToken_def GetSessionByRefreshToken_def DeleteSession_def
        split: prod.splits sum.splits)
  then show "clock w \<le> clock (snd (sr_DeleteByRefreshToken (pg_session_store db) rt w))"
    by (simp add: pg_session_store_def)
qed (auto simp: entropy_tbl entropy_kv entropy_clock entropy_works entropy_up rand_length redis_tbl db_kv db_clock
      query_kv query_one_frame
      pg_session_store_def PGStore_Create_def CreateSession_def PGStore_GetUserIDByRefreshToken_def
      GetSessionByRefreshToken_def PGStore_DeleteByRefreshToken_def DeleteSession_def PGStore_DeleteByUserID_def
      DeleteSessionsByUserID_def redis_token_store_def SetAccessToken_def GetAccessToken_def
      SetRefreshToken_def GetRefreshToken_def DeleteRefreshToken_def
      dest: query_step split: prod.splits sum.splits)

context backend
begin

lemmas session_facts = pg_session_service.session_Create_ok pg_session_service.ValidateAccess_ok
  pg_session_service.ValidateAccess_dead pg_session_service.ValidateAccess_live
lemmas refresh_facts = pg_session_service.Refresh_ok pg_session_service.refresh_owner_works
  pg_session_service.Refresh_works pg_session_service.Refresh_refused
lemmas revoke_facts = pg_session_service.Revoke_ok pg_session_service.Revoke_ends
  pg_session_service.RevokeAll_ok pg_session_service.RevokeAll_keeps_cache

end

text \<open>The session service as the server builds it.\<close>

definition Create_session :: "'w dbtx \<Rightarrow> 'w redis_client \<Rightarrow> 'w entropy \<Rightarrow> uuid_text \<Rightarrow> uuid \<Rightarrow> ('w, token_pair) go" where
  "Create_session db rc ent ut = session_Create (pg_session_store db) (redis_token_store rc) ent ut"

definition Refresh_session :: "'w dbtx \<Rightarrow> 'w redis_client \<Rightarrow> 'w entropy \<Rightarrow> uuid_text \<Rightarrow> string \<Rightarrow> ('w, string) go" where
  "Refresh_session db rc ent ut = Refresh (pg_session_store db) (redis_token_store rc) ent ut"

definition Revoke_session :: "'w dbtx \<Rightarrow> 'w redis_client \<Rightarrow> string \<Rightarrow> 'w go_err" where
  "Revoke_session db rc = Revoke (pg_session_store db) (redis_token_store rc)"

lemma hex_digit_ascii:
  "n < 16 \<Longrightarrow> hex_digit n \<noteq> CHR 0x00 \<and> (of_char (hex_digit n) :: nat) < 128"
  by (auto simp: hex_digit_def char_of_eq_iff take_bit_eq_mod)

lemma ascii_hex_encode [simp]: "ascii_text (hex_encode bs)"
proof (induction bs)
  case (Cons b bs)
  have "unat b div 16 < 16" using unat_less_256 [of b] by (simp add: less_mult_imp_div_less)
  with Cons hex_digit_ascii show ?case by simp
qed simp

lemmas session_eval [sim_eval] = Create_session_def session_Create_def session_issue_def generateToken_def
  pg_session_store_def PGStore_Create_def CreateSession_def PGStore_GetUserIDByRefreshToken_def
  GetSessionByRefreshToken_def PGStore_DeleteByRefreshToken_def DeleteSession_def PGStore_DeleteByUserID_def
  DeleteSessionsByUserID_def redis_token_store_def SetAccessToken_def GetAccessToken_def SetRefreshToken_def
  GetRefreshToken_def DeleteRefreshToken_def Refresh_session_def Refresh_def refresh_owner_def
  Revoke_session_def Revoke_def RevokeAll_def ValidateAccess_def AccessTokenTTL_def RefreshTokenTTL_def second_def

definition sim_login :: sim where
  "sim_login = snd (Create_session sim_db sim_rc sim_ent uuid_std 0 sim_ada)"

definition sim_access :: string where "sim_access = hex_encode (sim_bytes 1 32)"
definition sim_refresh :: string where "sim_refresh = hex_encode (sim_bytes 2 32)"

lemma sim_create_session:
  "Create_session sim_db sim_rc sim_ent uuid_std 0 sim_ada =
     (Inr \<lparr>AccessToken = sim_access, RefreshToken = sim_refresh\<rparr>, sim_login)"
  by (simp add: sim_login_def sim_access_def sim_refresh_def sim_ada_def ada_def sim_eval numeral_2_eq_2)

lemma sim_login_ok [simp]: "schema_ok (sim_tables sim_login)" "sim_up sim_login"
  using sim.pg_session_service.session_Create_keeps_ok [OF sim_ada_ok] sim_create_session
  by (auto simp: Create_session_def) (simp add: sim_login_def sim_ada_def ada_def sim_up_def sim_eval)

section \<open>Properties\<close>

text \<open>
  C31: A login that succeeds stores one new session, whose refresh token no stored session had,
  and makes both tokens (64 characters) stand for the user: the access token for 15 minutes, the
  refresh token for 7 days. Every other token keeps what it stood for.
\<close>

theorem create_session_issues_tokens:
  assumes "backend db tbl clock up rc kv ut ent bc" "schema_ok (tbl w)"
    and "Create_session db rc ent ut u w = (Inr tp, w')"
  shows "length (AccessToken tp) = 64 \<and> length (RefreshToken tp) = 64 \<and>
    (\<exists>i. session_added (pg_sessions (tbl w)) i u (RefreshToken tp) (pg_sessions (tbl w'))) \<and>
    (\<exists>e. access_tokens (kv w') = (access_tokens (kv w))(AccessToken tp \<mapsto> (uuid_String ut u, e)) \<and>
         expires_within (clock w) (clock w') AccessTokenTTL e) \<and>
    (\<exists>e. refresh_tokens (kv w') = (refresh_tokens (kv w))(RefreshToken tp \<mapsto> (uuid_String ut u, e)) \<and>
         expires_within (clock w) (clock w') RefreshTokenTTL e)"
  using backend.session_facts(1-5) [OF assms(1,2) assms(3) [unfolded Create_session_def]] by blast

theorem create_session_issues_tokens_witness:
  "\<exists>i. session_added (pg_sessions (sim_tables sim_ada)) i 0 sim_refresh (pg_sessions (sim_tables sim_login))"
  using create_session_issues_tokens [OF sim.backend_axioms sim_ada_ok sim_create_session] by simp

text \<open>
  The access token of a login is accepted, and for its user, until 15 minutes have passed since
  the login began; 15 minutes after it ended the token is refused with \<open>ErrInvalidAccessToken\<close>,
  whatever the state of the services.
\<close>

theorem access_token_lifetime:
  assumes "backend db tbl clock up rc kv ut ent bc" "schema_ok (tbl w)"
    and "Create_session db rc ent ut u w = (Inr tp, w1)"
    and "access_tokens (kv w2) (AccessToken tp) = access_tokens (kv w1) (AccessToken tp)"
  shows "(up w2 \<and> clock w2 < clock w + AccessTokenTTL \<longrightarrow>
            fst (ValidateAccess (redis_token_store rc) ut (AccessToken tp) w2) = Inr u) \<and>
         (clock w1 + AccessTokenTTL \<le> clock w2 \<longrightarrow>
            fst (ValidateAccess (redis_token_store rc) ut (AccessToken tp) w2) =
              Inl (Sentinel session_ErrInvalidAccessToken))"
proof -
  from backend.session_facts(4) [OF assms(1,2) assms(3) [unfolded Create_session_def]] obtain e where
    e: "access_tokens (kv w1) (AccessToken tp) = Some (uuid_String ut u, e)"
      "expires_within (clock w) (clock w1) AccessTokenTTL e" by auto
  then have "live (access_tokens (kv w2)) (clock w2) (AccessToken tp) =
      (if clock w2 < e then Some (uuid_String ut u) else None)"
    using assms(4) by (simp add: live_def)
  with e(2) backend.session_facts(7,8) [OF assms(1), of w2 "AccessToken tp"] show ?thesis
    by (auto simp: expires_within_def)
qed

theorem access_token_lifetime_witness:
  "fst (ValidateAccess (redis_token_store sim_rc) uuid_std sim_access sim_login) = Inr 0 \<and>
   fst (ValidateAccess (redis_token_store sim_rc) uuid_std sim_access
          (sim_login\<lparr>sim_clock := sim_clock sim_login + AccessTokenTTL\<rparr>)) =
     Inl (Sentinel session_ErrInvalidAccessToken)"
proof -
  note life = access_token_lifetime [OF sim.backend_axioms sim_ada_ok sim_create_session]
  have "sim_clock sim_login < sim_clock sim_ada + AccessTokenTTL"
    by (simp add: sim_login_def sim_ada_def ada_def sim_eval numeral_2_eq_2)
  then show ?thesis
    using life [of sim_login] life [of "sim_login\<lparr>sim_clock := sim_clock sim_login + AccessTokenTTL\<rparr>"] by simp
qed

text \<open>
  An access token is accepted for a user only while the cache holds it with an id that parses
  to that user; a token the cache does not hold, or not any more, is refused.
\<close>

theorem validate_access_sound:
  assumes "backend db tbl clock up rc kv ut ent bc"
    and "fst (ValidateAccess (redis_token_store rc) ut t w) = Inr u"
  shows "\<exists>s e. access_tokens (kv w) t = Some (s, e) \<and> clock w < e \<and> uuid_Parse ut s = Inr u"
  using backend.session_facts(6) [OF assms(1), of t w u] assms(2)
  by (cases "ValidateAccess (redis_token_store rc) ut t w")
     (auto simp: live_def access_tokens_def split: option.splits if_splits)

theorem validate_access_sound_witness:
  "\<exists>s e. access_tokens (sim_kv sim_login) sim_access = Some (s, e) \<and> sim_clock sim_login < e \<and>
     uuid_Parse uuid_std s = Inr 0"
proof (rule validate_access_sound [OF sim.backend_axioms])
  show "fst (ValidateAccess (redis_token_store sim_rc) uuid_std sim_access sim_login) = Inr 0"
    by (simp add: sim_login_def sim_access_def sim_ada_def ada_def sim_eval numeral_2_eq_2
        uuid_std.parse_string uuid_std.string_nonempty)
qed

text \<open>
  C36: A refresh yields an access token, good for 15 minutes, for the user the refresh token stands
  for: the one the cache names, or else the owner of the stored session with that token. A token
  that is neither cached nor stored yields nothing, and no session is added or removed.
\<close>

theorem refresh_sound:
  assumes "backend db tbl clock up rc kv ut ent bc" "schema_ok (tbl w)"
    and "Refresh_session db rc ent ut rt w = (Inr t, w')"
  shows "(\<exists>s. (live (refresh_tokens (kv w)) (clock w) rt = Some s \<and> s \<noteq> [] \<or>
              (\<exists>u. owner_of rt (pg_sessions (tbl w)) = Some u \<and> s = uuid_String ut u)) \<and>
           (\<exists>e. access_tokens (kv w') = (access_tokens (kv w))(t \<mapsto> (s, e)) \<and>
                expires_within (clock w) (clock w') AccessTokenTTL e)) \<and>
    pg_sessions (tbl w') = pg_sessions (tbl w)"
  using backend.refresh_facts(1,2) [OF assms(1,2) assms(3) [unfolded Refresh_session_def]] by blast

theorem refresh_sound_witness:
  "\<exists>t w'. Refresh_session sim_db sim_rc sim_ent uuid_std sim_refresh sim_login = (Inr t, w') \<and>
     pg_sessions (sim_tables w') = pg_sessions (sim_tables sim_login)"
proof -
  obtain t w' where "Refresh_session sim_db sim_rc sim_ent uuid_std sim_refresh sim_login = (Inr t, w')"
    by (simp add: sim_login_def sim_refresh_def sim_ada_def ada_def sim_eval numeral_2_eq_2
        uuid_std.string_nonempty)
  with refresh_sound [OF sim.backend_axioms sim_login_ok(1) this] show ?thesis by blast
qed

text \<open>
  C32: A logout that succeeds with the services up ends the session: it existed, it is the only one
  removed, and its refresh token is refused from then on with \<open>ErrInvalidRefreshToken\<close>. The
  access tokens issued before stay as they are.
\<close>

theorem revoke_ends_session:
  assumes "backend db tbl clock up rc kv ut ent bc" "schema_ok (tbl w)" "up w" "text_ok rt"
    and "Revoke_session db rc rt w = (None, w')"
  shows "owner_of rt (pg_sessions (tbl w)) \<noteq> None \<and>
    pg_sessions (tbl w') = without_token rt (pg_sessions (tbl w)) \<and>
    access_tokens (kv w') = access_tokens (kv w) \<and>
    fst (Refresh_session db rc ent ut rt w') = Inl (Sentinel session_ErrInvalidRefreshToken)"
  using backend.revoke_facts(1-3) [OF assms(1,2) assms(5) [unfolded Revoke_session_def]]
    backend.revoke_facts(6) [OF assms(1,3,2,4) assms(5) [unfolded Revoke_session_def]]
  by (simp add: Refresh_session_def)

theorem revoke_ends_session_witness:
  "\<exists>w'. Revoke_session sim_db sim_rc sim_refresh sim_login = (None, w') \<and>
     fst (Refresh_session sim_db sim_rc sim_ent uuid_std sim_refresh w') =
       Inl (Sentinel session_ErrInvalidRefreshToken)"
proof -
  obtain w' where r: "Revoke_session sim_db sim_rc sim_refresh sim_login = (None, w')"
    by (simp add: sim_login_def sim_refresh_def sim_ada_def ada_def sim_eval numeral_2_eq_2)
  have "text_ok sim_refresh" by (simp add: sim_refresh_def varchar_ascii)
  from revoke_ends_session [OF sim.backend_axioms sim_login_ok this r] r show ?thesis by blast
qed

text \<open>
  C40: \<open>RevokeAll\<close> removes the stored sessions of the user and no others, but not the cached
  refresh tokens: one that is still cached goes on yielding access tokens afterwards.
\<close>

theorem revoke_all_leaves_cached_tokens:
  assumes "backend db tbl clock up rc kv ut ent bc" "schema_ok (tbl w)" "up w" "text_ok rt"
    and "RevokeAll (pg_session_store db) u w = (None, w')"
    and "live (refresh_tokens (kv w)) (clock w') rt = Some (uuid_String ut u)"
  shows "pg_sessions (tbl w') = without_user u (pg_sessions (tbl w)) \<and>
    (\<exists>t. fst (Refresh_session db rc ent ut rt w') = Inr t)"
  using backend.revoke_facts(7) [OF assms(1,2,5)] backend.revoke_facts(13) [OF assms(1,3,2,4-6)]
  by (simp add: Refresh_session_def)

theorem revoke_all_leaves_cached_tokens_witness:
  "\<exists>w'. RevokeAll (pg_session_store sim_db) 0 sim_login = (None, w') \<and>
     (\<exists>t. fst (Refresh_session sim_db sim_rc sim_ent uuid_std sim_refresh w') = Inr t)"
proof -
  obtain w' where r: "RevokeAll (pg_session_store sim_db) 0 sim_login = (None, w')"
    "live (refresh_tokens (sim_kv sim_login)) (sim_clock w') sim_refresh = Some (uuid_String uuid_std 0)"
    by (simp add: sim_login_def sim_refresh_def sim_ada_def ada_def sim_eval refresh_tokens_def numeral_2_eq_2)
  have "text_ok sim_refresh" by (simp add: sim_refresh_def varchar_ascii)
  from revoke_all_leaves_cached_tokens [OF sim.backend_axioms sim_login_ok this r] r(1) show ?thesis by blast
qed

text \<open>
  A stored session has no age: with the services up, its refresh token yields an access token
  at any time, however long after the 7 days of \<open>RefreshTokenTTL\<close>.
\<close>

theorem stored_session_never_expires:
  assumes "backend db tbl clock up rc kv ut ent bc" "schema_ok (tbl w)" "up w" "text_ok rt"
    and "owner_of rt (pg_sessions (tbl w)) = Some u"
  shows "\<exists>t. fst (Refresh_session db rc ent ut rt w) = Inr t"
proof -
  obtain s where "fst (refresh_owner (pg_session_store db) (redis_token_store rc) ut rt w) = Inr s"
    using backend.refresh_facts(3) [OF assms(1,3,2,4)] assms(5) by (fastforce split: option.splits if_splits)
  from backend.refresh_facts(4) [OF assms(1,3) this] show ?thesis by (simp add: Refresh_session_def)
qed

theorem stored_session_never_expires_witness:
  "\<exists>t. fst (Refresh_session sim_db sim_rc sim_ent uuid_std sim_refresh
     (sim_login\<lparr>sim_clock := sim_clock sim_login + 100 * RefreshTokenTTL\<rparr>)) = Inr t"
proof (rule stored_session_never_expires [OF sim.backend_axioms])
  let ?w = "sim_login\<lparr>sim_clock := sim_clock sim_login + 100 * RefreshTokenTTL\<rparr>"
  show "schema_ok (sim_tables ?w)" "sim_up ?w" using sim_login_ok by (simp_all add: sim_up_def)
  show "text_ok sim_refresh" by (simp add: sim_refresh_def varchar_ascii)
  show "owner_of sim_refresh (pg_sessions (sim_tables ?w)) = Some 0"
    by (simp add: sim_login_def sim_refresh_def sim_ada_def ada_def sim_eval owner_of_pg fromPgUUID_def numeral_2_eq_2)
qed

section \<open>One-time passwords\<close>

text \<open>Making a key touches no stored secret.\<close>

locale totp_service = redis rc kv clock up
  for rc :: "'w redis_client" and kv :: "'w \<Rightarrow> redis_db" and clock :: "'w \<Rightarrow> int" and up :: "'w \<Rightarrow> bool" +
  fixes lib :: "'w totp_lib"
  assumes generate_kv: "kv (snd (totp_Generate lib issuer account w)) = kv w"
    and generate_clock: "clock w \<le> clock (snd (totp_Generate lib issuer account w))"
begin

lemma totp_Setup_ok:
  assumes "totp_Setup lib (redis_totp_store rc) issuer u account w = (Inr r, w')"
  shows "\<exists>e. kv w' = (kv w)(totpKey u \<mapsto> (totp_Secret r, e)) \<and> expires_within (clock w) (clock w') totpTTL e"
proof -
  from assms obtain secret url w1 where g: "totp_Generate lib issuer account w = (Inr (secret, url), w1)"
    and s: "RSet rc (totpKey u) secret totpTTL w1 = (None, w')" and r: "r = \<lparr>totp_Secret = secret, totp_URL = url\<rparr>"
    by (auto simp: totp_Setup_def redis_totp_store_def SetTOTPSecret_def split: prod.splits sum.splits option.splits)
  have "kv w1 = kv w" "clock w \<le> clock w1" "clock w1 \<le> clock w'"
    using generate_kv [of issuer account w] generate_clock [of w issuer account] g
      redis_clock(1) [of w1 "totpKey u" secret totpTTL] s by simp_all
  with set_ok [OF s] r show ?thesis by (auto simp: expires_within_def)
qed

lemma totp_Verify_live:
  assumes "up w" "live (kv w) (clock w) (totpKey u) = Some secret"
  shows "\<exists>w1. totp_Verify lib (redis_totp_store rc) u code w =
      (Inr (totp_Validate lib code secret w1),
       if totp_Validate lib code secret w1 then snd (RDel rc (totpKey u) w1) else w1) \<and> up w1 \<and> kv w1 = kv w"
proof -
  obtain r w1 where g: "RGet rc (totpKey u) w = (r, w1)" by (rule prod.exhaust)
  have "r = Inr secret" using redis_works(2) [OF assms(1), of "totpKey u"] assms(2) g by simp
  moreover have "up w1" "kv w1 = kv w"
    using redis_up(2) [OF assms(1), of "totpKey u"] get_frame [of "totpKey u" w] g by simp_all
  ultimately show ?thesis
    using g by (auto simp: totp_Verify_def redis_totp_store_def GetTOTPSecret_def DeleteTOTPSecret_def Let_def)
qed

lemma totp_Verify_dead:
  assumes "live (kv w) (clock w) (totpKey u) = None"
  shows "\<exists>e. fst (totp_Verify lib (redis_totp_store rc) u code w) = Inl (Wrap ''get totp secret'' e)"
proof -
  obtain r w1 where g: "RGet rc (totpKey u) w = (r, w1)" by (rule prod.exhaust)
  with get_dead [OF assms] show ?thesis
    by (auto simp: totp_Verify_def redis_totp_store_def GetTOTPSecret_def)
qed

lemma totp_Verify_once:
  assumes "up w" "totp_Verify lib (redis_totp_store rc) u code w = (Inr True, w')"
  shows "\<exists>e. fst (totp_Verify lib (redis_totp_store rc) u code' w') = Inl (Wrap ''get totp secret'' e)"
proof -
  from assms(2) obtain secret w1 where g: "RGet rc (totpKey u) w = (Inr secret, w1)"
    and w': "w' = snd (RDel rc (totpKey u) w1)"
    by (auto simp: totp_Verify_def redis_totp_store_def GetTOTPSecret_def DeleteTOTPSecret_def Let_def
        split: prod.splits sum.splits)
  have "up w1" using redis_up(2) [OF assms(1), of "totpKey u"] g by simp
  then have "RDel rc (totpKey u) w1 = (None, w')" using redis_works(3) w' by (simp add: prod_eq_iff)
  from del_ok [OF this] have "live (kv w') (clock w') (totpKey u) = None" by simp
  then show ?thesis by (rule totp_Verify_dead)
qed

end

definition sim_totp :: "sim totp_lib" where
  "sim_totp = \<lparr>totp_Generate = (\<lambda>issuer account w. (Inr (account @ ''#'', issuer), tick w)),
     totp_Validate = (\<lambda>code secret w. code = secret)\<rparr>"

interpretation sim_totp: totp_service sim_rc sim_kv sim_clock sim_up sim_totp
  by unfold_locales (simp_all add: sim_totp_def)

text \<open>
  A TOTP secret set up for a user is the one codes are checked against for 5 minutes, and 5
  minutes after the setup a verification fails for want of a secret.
\<close>

theorem totp_setup_then_verify:
  assumes "totp_service rc kv clock up lib"
    and "totp_Setup lib (redis_totp_store rc) issuer u account w = (Inr r, w1)"
    and "kv w2 (totpKey u) = kv w1 (totpKey u)"
  shows "(up w2 \<and> clock w2 < clock w + totpTTL \<longrightarrow> (\<exists>w3. kv w3 = kv w2 \<and>
       fst (totp_Verify lib (redis_totp_store rc) u code w2) = Inr (totp_Validate lib code (totp_Secret r) w3))) \<and>
     (clock w1 + totpTTL \<le> clock w2 \<longrightarrow>
       (\<exists>e. fst (totp_Verify lib (redis_totp_store rc) u code w2) = Inl (Wrap ''get totp secret'' e)))"
proof -
  from totp_service.totp_Setup_ok [OF assms(1,2)] obtain e where
    "kv w1 (totpKey u) = Some (totp_Secret r, e)" "expires_within (clock w) (clock w1) totpTTL e" by auto
  then have "live (kv w2) (clock w2) (totpKey u) = (if clock w2 < e then Some (totp_Secret r) else None)"
    "clock w + totpTTL \<le> e" "e \<le> clock w1 + totpTTL"
    using assms(3) by (simp_all add: live_def expires_within_def)
  with totp_service.totp_Verify_live [OF assms(1), of w2 u "totp_Secret r" code]
    totp_service.totp_Verify_dead [OF assms(1), of w2 u code] show ?thesis by fastforce
qed

theorem totp_setup_then_verify_witness:
  "\<exists>w1 r. totp_Setup sim_totp (redis_totp_store sim_rc) ''gitfed'' ''7'' ''ada'' sim_init = (Inr r, w1) \<and>
     fst (totp_Verify sim_totp (redis_totp_store sim_rc) ''7'' ''ada#'' w1) = Inr True"
proof -
  obtain w1 r where s: "totp_Setup sim_totp (redis_totp_store sim_rc) ''gitfed'' ''7'' ''ada'' sim_init = (Inr r, w1)"
    "sim_up w1" "sim_clock w1 < sim_clock sim_init + totpTTL" "totp_Secret r = ''ada#''"
    by (simp add: totp_Setup_def redis_totp_store_def SetTOTPSecret_def sim_totp_def sim_eval totpTTL_def sim_up_def)
  from totp_setup_then_verify [OF sim_totp.totp_service_axioms s(1) refl, of "''ada#''"] s show ?thesis
    by (auto simp: sim_totp_def)
qed

text \<open>
  A code is accepted once: after an accepted verification (the services up) every further one
  fails until a new secret is set up.
\<close>

theorem totp_single_use:
  assumes "totp_service rc kv clock up lib" "up w"
    and "totp_Verify lib (redis_totp_store rc) u code w = (Inr True, w')"
  shows "\<exists>e. fst (totp_Verify lib (redis_totp_store rc) u code' w') = Inl (Wrap ''get totp secret'' e)"
  using totp_service.totp_Verify_once [OF assms] .

theorem totp_single_use_witness:
  "\<exists>w1 w2 e. totp_Verify sim_totp (redis_totp_store sim_rc) ''7'' ''s'' w1 = (Inr True, w2) \<and>
     fst (totp_Verify sim_totp (redis_totp_store sim_rc) ''7'' ''s'' w2) = Inl (Wrap ''get totp secret'' e)"
proof -
  define w1 where "w1 = sim_init\<lparr>sim_kv := [totpKey ''7'' \<mapsto> (''s'', 100)]\<rparr>"
  have "sim_up w1" by (simp add: w1_def)
  moreover obtain w2 where "totp_Verify sim_totp (redis_totp_store sim_rc) ''7'' ''s'' w1 = (Inr True, w2)"
    by (simp add: totp_Verify_def redis_totp_store_def GetTOTPSecret_def DeleteTOTPSecret_def sim_totp_def
        w1_def sim_eval)
  ultimately show ?thesis using totp_single_use [OF sim_totp.totp_service_axioms, of w1 "''7''" "''s''"] by blast
qed

end
