(* ===== verification/Organizations.thy ===== *)
theory Organizations
  imports Users
begin

text \<open>
  \<^verbatim>\<open>internal/modules/organization\<close>: organizations and their members. The service hands every
  call on to the \<open>Repository\<close>; the contract of that interface is the locale
  \<open>organization_repository\<close>, over the list of organizations and the membership relation, and
  the Postgres \<open>Store\<close> is proved to meet it.
\<close>

section \<open>Domain and interface\<close>

record organization =
  org_ID :: uuid
  org_Name :: string
  org_Description :: string

record org_create_input =
  oin_Name :: string
  oin_Description :: string

record 'w organization_Repository =
  or_Create :: "organization \<Rightarrow> ('w, organization) go"
  or_DeleteByID :: "uuid \<Rightarrow> 'w go_err"
  or_GetByID :: "uuid \<Rightarrow> ('w, organization) go"
  or_AddUser :: "uuid \<Rightarrow> uuid \<Rightarrow> 'w go_err"
  or_RemoveUser :: "uuid \<Rightarrow> uuid \<Rightarrow> 'w go_err"
  or_GetByUserID :: "uuid \<Rightarrow> ('w, organization list) go"

section \<open>Service\<close>

definition org_Create ::
  "'w organization_Repository \<Rightarrow> 'w entropy \<Rightarrow> org_create_input \<Rightarrow> ('w, organization) go" where
  "org_Create repo ent inp w =
     (case NewV7 ent w of
        (Inl e, w1) \<Rightarrow> (Inl (Wrap ''generate uuid'' e), w1)
      | (Inr i, w1) \<Rightarrow>
     (case or_Create repo \<lparr>org_ID = i, org_Name = oin_Name inp, org_Description = oin_Description inp\<rparr> w1 of
        (Inl e, w2) \<Rightarrow> (Inl (Wrap ''create org'' e), w2)
      | (Inr g, w2) \<Rightarrow> (Inr g, w2)))"

definition org_GetByID :: "'w organization_Repository \<Rightarrow> uuid \<Rightarrow> ('w, organization) go" where
  "org_GetByID repo i = or_GetByID repo i"

definition org_DeleteByID :: "'w organization_Repository \<Rightarrow> uuid \<Rightarrow> 'w go_err" where
  "org_DeleteByID repo i = or_DeleteByID repo i"

definition org_AddUser :: "'w organization_Repository \<Rightarrow> uuid \<Rightarrow> uuid \<Rightarrow> 'w go_err" where
  "org_AddUser repo orgID userID = or_AddUser repo orgID userID"

definition org_RemoveUser :: "'w organization_Repository \<Rightarrow> uuid \<Rightarrow> uuid \<Rightarrow> 'w go_err" where
  "org_RemoveUser repo orgID userID = or_RemoveUser repo orgID userID"

definition org_GetByUserID :: "'w organization_Repository \<Rightarrow> uuid \<Rightarrow> ('w, organization list) go" where
  "org_GetByUserID repo userID = or_GetByUserID repo userID"

section \<open>Store\<close>

text \<open>An optional text column: the empty string is stored as \<open>NULL\<close>.\<close>

definition nullable :: "string \<Rightarrow> pg_text" where
  "nullable s = \<lparr>String = s, TextValid = (s \<noteq> [])\<rparr>"

definition fromSqlcOrg :: "sqlc_organization \<Rightarrow> organization" where
  "fromSqlcOrg g = \<lparr>org_ID = fromPgUUID (so_OrganizationID g), org_Name = so_OrganizationName g,
     org_Description = String (so_OrganizationDescription g)\<rparr>"

definition orgstore_Create :: "'w dbtx \<Rightarrow> organization \<Rightarrow> ('w, organization) go" where
  "orgstore_Create db g w =
     (case CreateOrganization db (toPgUUID (org_ID g)) (org_Name g) (nullable (org_Description g)) w of
        (Inl e, w') \<Rightarrow> (Inl e, w')
      | (Inr row, w') \<Rightarrow> (Inr (fromSqlcOrg row), w'))"

definition orgstore_DeleteByID :: "'w dbtx \<Rightarrow> uuid \<Rightarrow> 'w go_err" where
  "orgstore_DeleteByID db i = DeleteOrganizationByID db (toPgUUID i)"

definition orgstore_GetByID :: "'w dbtx \<Rightarrow> uuid \<Rightarrow> ('w, organization) go" where
  "orgstore_GetByID db i w = found organization_ErrNotFound fromSqlcOrg (GetOrganizationByID db (toPgUUID i) w)"

definition orgstore_AddUser :: "'w dbtx \<Rightarrow> uuid \<Rightarrow> uuid \<Rightarrow> 'w go_err" where
  "orgstore_AddUser db orgID userID = AddUserToOrganization db (toPgUUID orgID) (toPgUUID userID)"

definition orgstore_RemoveUser :: "'w dbtx \<Rightarrow> uuid \<Rightarrow> uuid \<Rightarrow> 'w go_err" where
  "orgstore_RemoveUser db orgID userID = RemoveUserFromOrganization db (toPgUUID orgID) (toPgUUID userID)"

definition orgstore_GetByUserID :: "'w dbtx \<Rightarrow> uuid \<Rightarrow> ('w, organization list) go" where
  "orgstore_GetByUserID db userID w =
     (case GetOrganizationsByUserID db (toPgUUID userID) w of
        (Inl e, w') \<Rightarrow> (Inl e, w')
      | (Inr rows, w') \<Rightarrow> (Inr (map fromSqlcOrg rows), w'))"

definition organization_store :: "'w dbtx \<Rightarrow> 'w organization_Repository" where
  "organization_store db = \<lparr>or_Create = orgstore_Create db, or_DeleteByID = orgstore_DeleteByID db,
     or_GetByID = orgstore_GetByID db, or_AddUser = orgstore_AddUser db,
     or_RemoveUser = orgstore_RemoveUser db, or_GetByUserID = orgstore_GetByUserID db\<rparr>"

section \<open>Contract\<close>

text \<open>
  The organizations in the order of their creation, the users there are, and who is a member of
  what. A successful operation does what its name says and nothing else; a failed one may have
  done it, and its error is none the callers compare with (not found apart).
\<close>

definition with_id :: "uuid \<Rightarrow> organization list \<Rightarrow> organization list" where
  "with_id i gs = filter (\<lambda>g. org_ID g = i) gs"

locale organization_repository =
  fixes repo :: "'w organization_Repository" and orgs :: "'w \<Rightarrow> organization list"
    and members :: "'w \<Rightarrow> (uuid \<times> uuid) set" and users :: "'w \<Rightarrow> uuid set" and ok :: "'w \<Rightarrow> bool"
  assumes create_ok: "ok w \<Longrightarrow> or_Create repo g w = (Inr h, w') \<Longrightarrow>
        h = g \<and> with_id (org_ID g) (orgs w) = [] \<and> orgs w' = orgs w @ [g] \<and> members w' = members w"
    and create_err: "ok w \<Longrightarrow> or_Create repo g w = (Inl e, w') \<Longrightarrow> foreign e \<and>
        orgs w' \<in> {orgs w, orgs w @ [g]} \<and> members w' = members w"
    and get_ok: "ok w \<Longrightarrow> or_GetByID repo i w = (Inr g, w') \<Longrightarrow> with_id i (orgs w) = [g]"
    and get_missing: "ok w \<Longrightarrow> or_GetByID repo i w = (Inl e, w') \<Longrightarrow> errors_is e organization_ErrNotFound \<Longrightarrow>
        with_id i (orgs w) = []"
    and delete_ok: "ok w \<Longrightarrow> or_DeleteByID repo i w = (None, w') \<Longrightarrow>
        orgs w' = filter (\<lambda>g. org_ID g \<noteq> i) (orgs w) \<and> members w' = {(j, u) \<in> members w. j \<noteq> i}"
    and add_ok: "ok w \<Longrightarrow> or_AddUser repo i u w = (None, w') \<Longrightarrow>
        (i, u) \<notin> members w \<and> with_id i (orgs w) \<noteq> [] \<and> u \<in> users w \<and>
        members w' = insert (i, u) (members w) \<and> orgs w' = orgs w"
    and remove_ok: "ok w \<Longrightarrow> or_RemoveUser repo i u w = (None, w') \<Longrightarrow>
        members w' = members w - {(i, u)} \<and> orgs w' = orgs w"
    and list_ok: "ok w \<Longrightarrow> or_GetByUserID repo u w = (Inr gs, w') \<Longrightarrow>
        gs = filter (\<lambda>g. (org_ID g, u) \<in> members w) (orgs w)"
    and members_exist: "ok w \<Longrightarrow> (i, u) \<in> members w \<Longrightarrow> with_id i (orgs w) \<noteq> []"

section \<open>The store meets it\<close>

definition pg_orgs :: "tables \<Rightarrow> organization list" where
  "pg_orgs t = map fromSqlcOrg (t_organizations t)"

definition pg_members :: "tables \<Rightarrow> (uuid \<times> uuid) set" where
  "pg_members t = (\<lambda>m. (fromPgUUID (sm_OrganizationID m), fromPgUUID (sm_UserID m))) ` set (t_organization_users t)"

definition pg_user_ids :: "tables \<Rightarrow> uuid set" where
  "pg_user_ids t = user_ID ` set (pg_accounts t)"

lemma fromSqlcOrg_simps [simp]:
  "org_ID (fromSqlcOrg g) = fromPgUUID (so_OrganizationID g)"
  by (simp add: fromSqlcOrg_def)

lemma schema_ok_org_id: "schema_ok t \<Longrightarrow> g \<in> set (t_organizations t) \<Longrightarrow> UuidValid (so_OrganizationID g)"
  by (simp add: schema_ok_def refs_ok_def list_all_iff)

lemma schema_ok_member:
  assumes "schema_ok t" "m \<in> set (t_organization_users t)"
  shows "UuidValid (sm_OrganizationID m)" "UuidValid (sm_UserID m)"
  using assms
  by (auto simp: schema_ok_def refs_ok_def list_all_iff organization_exists_def uuid_eq_def dest: user_exists_valid)

lemma fromPgUUID_eq: "UuidValid u \<Longrightarrow> fromPgUUID u = i \<longleftrightarrow> u = toPgUUID i"
  using toPgUUID_fromPgUUID by fastforce

lemma with_id_pg:
  assumes "schema_ok t"
  shows "with_id i (pg_orgs t) = map fromSqlcOrg (filter (\<lambda>g. so_OrganizationID g = toPgUUID i) (t_organizations t))"
proof -
  have "filter (\<lambda>g. fromPgUUID (so_OrganizationID g) = i) (t_organizations t) =
      filter (\<lambda>g. so_OrganizationID g = toPgUUID i) (t_organizations t)"
    by (rule filter_cong [OF refl]) (simp add: fromPgUUID_eq schema_ok_org_id [OF assms])
  then show ?thesis by (simp add: with_id_def pg_orgs_def filter_map comp_def)
qed

lemma mem_pg_members:
  assumes "schema_ok t"
  shows "(i, u) \<in> pg_members t \<longleftrightarrow>
    \<lparr>sm_OrganizationID = toPgUUID i, sm_UserID = toPgUUID u\<rparr> \<in> set (t_organization_users t)"
proof
  assume "(i, u) \<in> pg_members t"
  then obtain m where m: "m \<in> set (t_organization_users t)" "fromPgUUID (sm_OrganizationID m) = i"
    "fromPgUUID (sm_UserID m) = u" by (auto simp: pg_members_def)
  then have "m = \<lparr>sm_OrganizationID = toPgUUID i, sm_UserID = toPgUUID u\<rparr>"
    using schema_ok_member [OF assms m(1)]
    by (intro sqlc_organization_user.equality) (auto simp: toPgUUID_fromPgUUID)
  with m(1) show "\<lparr>sm_OrganizationID = toPgUUID i, sm_UserID = toPgUUID u\<rparr> \<in> set (t_organization_users t)" by simp
qed (force simp: pg_members_def)

lemma createOrganization_sem:
  assumes "schema_ok t"
    and "sql_sem createOrganization now [VUuid (toPgUUID (org_ID g)), VStr (org_Name g), VText (nullable (org_Description g))] t
      = (Inr rows, t')"
  shows "\<exists>r. rows = [row_organization r] \<and> fromSqlcOrg r = g \<and> with_id (org_ID g) (pg_orgs t) = [] \<and>
     pg_orgs t' = pg_orgs t @ [g] \<and> pg_members t' = pg_members t"
proof -
  let ?r = "\<lparr>so_OrganizationID = toPgUUID (org_ID g), so_OrganizationName = org_Name g,
    so_OrganizationDescription = nullable (org_Description g)\<rparr>"
  from assms(2) have "rows = [row_organization ?r]" "t' = t\<lparr>t_organizations := t_organizations t @ [?r]\<rparr>"
    "list_all (\<lambda>g'. so_OrganizationID g' \<noteq> toPgUUID (org_ID g)) (t_organizations t)"
    by (auto simp: ins_organization_def Let_def split: if_splits)
  moreover from this(3) have "with_id (org_ID g) (pg_orgs t) = []"
    by (auto simp: with_id_pg [OF assms(1)] filter_empty_conv list_all_iff)
  moreover have "fromSqlcOrg ?r = g" by (simp add: fromSqlcOrg_def nullable_def)
  ultimately show ?thesis by (auto simp: pg_orgs_def pg_members_def intro!: exI [of _ ?r])
qed

lemma deleteOrganization_sem:
  assumes "schema_ok t" "sql_sem deleteOrganizationByID now [VUuid (toPgUUID i)] t = (Inr rows, t')"
  shows "pg_orgs t' = filter (\<lambda>g. org_ID g \<noteq> i) (pg_orgs t) \<and> pg_members t' = {(j, u) \<in> pg_members t. j \<noteq> i}"
proof
  have "filter (\<lambda>g. so_OrganizationID g \<noteq> toPgUUID i) (t_organizations t) =
      filter (\<lambda>g. fromPgUUID (so_OrganizationID g) \<noteq> i) (t_organizations t)"
    by (rule filter_cong [OF refl]) (simp add: fromPgUUID_eq schema_ok_org_id [OF assms(1)])
  then show "pg_orgs t' = filter (\<lambda>g. org_ID g \<noteq> i) (pg_orgs t)"
    using assms(2) by (auto simp: del_organization_def pg_orgs_def filter_map comp_def)
  have "sm_OrganizationID m = toPgUUID i \<longleftrightarrow> fromPgUUID (sm_OrganizationID m) = i"
    if "m \<in> set (t_organization_users t)" for m
    using schema_ok_member(1) [OF assms(1) that] by (simp add: fromPgUUID_eq)
  then show "pg_members t' = {(j, u) \<in> pg_members t. j \<noteq> i}"
    using assms(2) by (force simp: del_organization_def pg_members_def)
qed

lemma addUser_sem:
  assumes "schema_ok t"
    and "sql_sem addUserToOrganization now [VUuid (toPgUUID i), VUuid (toPgUUID u)] t = (Inr rows, t')"
  shows "(i, u) \<notin> pg_members t \<and> with_id i (pg_orgs t) \<noteq> [] \<and> u \<in> pg_user_ids t \<and>
    pg_members t' = insert (i, u) (pg_members t) \<and> pg_orgs t' = pg_orgs t"
proof -
  let ?m = "\<lparr>sm_OrganizationID = toPgUUID i, sm_UserID = toPgUUID u\<rparr>"
  from assms(2) obtain g v where m: "?m \<notin> set (t_organization_users t)"
    and g: "g \<in> set (t_organizations t)" "so_OrganizationID g = toPgUUID i"
    and v: "v \<in> set (t_users t)" "su_UserID v = toPgUUID u"
    and t': "t' = t\<lparr>t_organization_users := t_organization_users t @ [?m]\<rparr>"
    by (auto simp: ins_member_def Let_def organization_exists_def user_exists_def split: if_splits)
  have "with_id i (pg_orgs t) \<noteq> []"
    using g by (auto simp: with_id_pg [OF assms(1)] filter_empty_conv)
  moreover have "u \<in> pg_user_ids t"
    using v by (force simp: pg_user_ids_def pg_accounts_def)
  moreover have "(i, u) \<notin> pg_members t" using m by (simp add: mem_pg_members [OF assms(1)])
  moreover have "pg_members t' = insert (i, u) (pg_members t)" "pg_orgs t' = pg_orgs t"
    by (simp_all add: t' pg_members_def pg_orgs_def)
  ultimately show ?thesis by simp
qed

lemma removeUser_sem:
  assumes "schema_ok t"
    and "sql_sem removeUserFromOrganization now [VUuid (toPgUUID i), VUuid (toPgUUID u)] t = (Inr rows, t')"
  shows "pg_members t' = pg_members t - {(i, u)} \<and> pg_orgs t' = pg_orgs t"
proof -
  have "sm_OrganizationID m = toPgUUID i \<and> sm_UserID m = toPgUUID u \<longleftrightarrow>
      fromPgUUID (sm_OrganizationID m) = i \<and> fromPgUUID (sm_UserID m) = u"
    if "m \<in> set (t_organization_users t)" for m
    using schema_ok_member [OF assms(1) that] by (simp add: fromPgUUID_eq)
  then show ?thesis
    using assms(2) by (force simp: del_member_def pg_members_def pg_orgs_def)
qed

text \<open>The join gives each organization once, because a membership is stored once.\<close>

lemma member_rows:
  assumes "distinct ms" "\<And>m. m \<in> set ms \<Longrightarrow> UuidValid (sm_OrganizationID m) \<and> UuidValid (sm_UserID m)"
  shows "filter (\<lambda>m. uuid_eq (sm_OrganizationID m) a \<and> uuid_eq (sm_UserID m) (toPgUUID u)) ms =
    (if UuidValid a \<and> \<lparr>sm_OrganizationID = a, sm_UserID = toPgUUID u\<rparr> \<in> set ms
     then [\<lparr>sm_OrganizationID = a, sm_UserID = toPgUUID u\<rparr>] else [])"
proof -
  have "uuid_eq (sm_OrganizationID m) a \<and> uuid_eq (sm_UserID m) (toPgUUID u) \<longleftrightarrow>
      UuidValid a \<and> m = \<lparr>sm_OrganizationID = a, sm_UserID = toPgUUID u\<rparr>" if "m \<in> set ms" for m
    using assms(2) [OF that] by (cases m) (auto simp: uuid_eq_def)
  then have "filter (\<lambda>m. uuid_eq (sm_OrganizationID m) a \<and> uuid_eq (sm_UserID m) (toPgUUID u)) ms =
      filter (\<lambda>m. UuidValid a \<and> m = \<lparr>sm_OrganizationID = a, sm_UserID = toPgUUID u\<rparr>) ms"
    by (rule filter_cong [OF refl])
  also have "\<dots> = (if UuidValid a \<and> \<lparr>sm_OrganizationID = a, sm_UserID = toPgUUID u\<rparr> \<in> set ms
     then [\<lparr>sm_OrganizationID = a, sm_UserID = toPgUUID u\<rparr>] else [])"
    using assms(1) by (induction ms) auto
  finally show ?thesis .
qed

lemma orgs_of_user_pg:
  assumes "schema_ok t"
  shows "map fromSqlcOrg (orgs_of_user (toPgUUID u) t) = filter (\<lambda>g. (org_ID g, u) \<in> pg_members t) (pg_orgs t)"
proof -
  have d: "distinct (t_organization_users t)"
    using assms by (simp add: schema_ok_def keys_ok_def unique_on_def)
  have row: "map (\<lambda>_. g) (filter (\<lambda>m. uuid_eq (sm_OrganizationID m) (so_OrganizationID g) \<and> uuid_eq (sm_UserID m) (toPgUUID u))
       (t_organization_users t)) = (if (fromPgUUID (so_OrganizationID g), u) \<in> pg_members t then [g] else [])"
    if "g \<in> set (t_organizations t)" for g
    using schema_ok_org_id [OF assms that] schema_ok_member [OF assms]
    by (subst member_rows [OF d]) (auto simp: mem_pg_members [OF assms] toPgUUID_fromPgUUID)
  have c: "concat (map (\<lambda>g. if p g then [g] else []) xs) = filter p xs" for p and xs :: "sqlc_organization list"
    by (induction xs) auto
  have "orgs_of_user (toPgUUID u) t = concat (map (\<lambda>g. if (fromPgUUID (so_OrganizationID g), u) \<in> pg_members t
      then [g] else []) (t_organizations t))"
    unfolding orgs_of_user_def by (rule arg_cong [where f = concat], rule map_cong [OF refl]) (rule row)
  then show ?thesis by (simp add: c pg_orgs_def filter_map comp_def)
qed

lemma with_id_single:
  assumes "schema_ok t" "filter (\<lambda>g. so_OrganizationID g = toPgUUID i) (t_organizations t) = y # ys"
  shows "ys = []"
proof -
  have "length (filter (\<lambda>g. so_OrganizationID g = toPgUUID i) (t_organizations t)) \<le> 1"
    using assms(1) by (intro unique_on_at_most_one [where k = so_OrganizationID and v = "toPgUUID i"])
      (simp_all add: schema_ok_def keys_ok_def)
  with assms(2) show ?thesis by simp
qed

lemma pg_members_exist:
  assumes "schema_ok t" "(i, u) \<in> pg_members t"
  shows "with_id i (pg_orgs t) \<noteq> []"
proof -
  have "organization_exists t (toPgUUID i)"
    using assms by (force simp: mem_pg_members schema_ok_def refs_ok_def list_all_iff)
  then show ?thesis by (auto simp: organization_exists_def with_id_pg [OF assms(1)] filter_empty_conv)
qed

context postgres
begin

lemma orgstore_Create_err:
  assumes "schema_ok (tbl w)" "orgstore_Create db g w = (Inl e, w')"
  shows "foreign e \<and> pg_orgs (tbl w') \<in> {pg_orgs (tbl w), pg_orgs (tbl w) @ [g]} \<and>
     pg_members (tbl w') = pg_members (tbl w)"
proof -
  note sem = createOrganization_sem [OF assms(1), of "clock w" g]
  let ?args = "[VUuid (toPgUUID (org_ID g)), VStr (org_Name g), VText (nullable (org_Description g))]"
  have q: "query_one db createOrganization scan_organization ?args w = (Inl e, w')"
    using assms(2) by (auto simp: orgstore_Create_def CreateOrganization_def split: prod.splits sum.splits)
  have "sql_sem createOrganization (clock w) ?args (tbl w) \<noteq> (Inr [], t')" for t'
    using sem by blast
  with insert_err [OF q] consider "foreign e" "tbl w' = tbl w"
    | row rows where "foreign e" "sql_sem createOrganization (clock w) ?args (tbl w) = (Inr (row # rows), tbl w')"
    by blast
  then show ?thesis
  proof cases
    case 2
    with sem [OF 2(2)] show ?thesis by blast
  qed simp
qed

lemma orgstore_Create_ok:
  assumes "schema_ok (tbl w)" "orgstore_Create db g w = (Inr h, w')"
  shows "h = g \<and> with_id (org_ID g) (pg_orgs (tbl w)) = [] \<and> pg_orgs (tbl w') = pg_orgs (tbl w) @ [g] \<and>
    pg_members (tbl w') = pg_members (tbl w)"
  using assms(2) createOrganization_sem [OF assms(1), of "clock w" g]
  by (fastforce simp: orgstore_Create_def CreateOrganization_def simp del: sql_sem.simps
      split: prod.splits sum.splits dest!: query_one_ok)

end

sublocale postgres \<subseteq> pg_organizations: organization_repository "organization_store db"
  "\<lambda>w. pg_orgs (tbl w)" "\<lambda>w. pg_members (tbl w)" "\<lambda>w. pg_user_ids (tbl w)" "\<lambda>w. schema_ok (tbl w)"
proof unfold_locales
  fix w w' i u e g gs
  assume ok: "schema_ok (tbl w)"
  note defs = organization_store_def orgstore_GetByID_def GetOrganizationByID_def orgstore_DeleteByID_def
    DeleteOrganizationByID_def orgstore_AddUser_def AddUserToOrganization_def orgstore_RemoveUser_def
    RemoveUserFromOrganization_def orgstore_GetByUserID_def GetOrganizationsByUserID_def
  show "or_GetByID (organization_store db) i w = (Inr g, w') \<Longrightarrow> with_id i (pg_orgs (tbl w)) = [g]"
    using with_id_single [OF ok, of i]
    by (auto simp: defs with_id_pg [OF ok] dest!: found_ok [OF selects_organizations(1) scan_row(2)])
  show "or_GetByID (organization_store db) i w = (Inl e, w') \<Longrightarrow> errors_is e organization_ErrNotFound \<Longrightarrow>
      with_id i (pg_orgs (tbl w)) = []"
    by (auto simp: defs with_id_pg [OF ok] dest!: found_none [OF selects_organizations(1)])
  show "or_DeleteByID (organization_store db) i w = (None, w') \<Longrightarrow>
      pg_orgs (tbl w') = filter (\<lambda>g. org_ID g \<noteq> i) (pg_orgs (tbl w)) \<and>
      pg_members (tbl w') = {(j, u) \<in> pg_members (tbl w). j \<noteq> i}"
    using deleteOrganization_sem [OF ok] by (auto simp: defs simp del: sql_sem.simps dest!: exec_ok)
  show "or_AddUser (organization_store db) i u w = (None, w') \<Longrightarrow>
      (i, u) \<notin> pg_members (tbl w) \<and> with_id i (pg_orgs (tbl w)) \<noteq> [] \<and> u \<in> pg_user_ids (tbl w) \<and>
      pg_members (tbl w') = insert (i, u) (pg_members (tbl w)) \<and> pg_orgs (tbl w') = pg_orgs (tbl w)"
    using addUser_sem [OF ok] by (simp add: defs del: sql_sem.simps) (metis exec_ok)
  show "or_RemoveUser (organization_store db) i u w = (None, w') \<Longrightarrow>
      pg_members (tbl w') = pg_members (tbl w) - {(i, u)} \<and> pg_orgs (tbl w') = pg_orgs (tbl w)"
    using removeUser_sem [OF ok] by (simp add: defs del: sql_sem.simps) (metis exec_ok)
  show "or_GetByUserID (organization_store db) u w = (Inr gs, w') \<Longrightarrow>
      gs = filter (\<lambda>g. (org_ID g, u) \<in> pg_members (tbl w)) (pg_orgs (tbl w))"
    by (auto simp: defs orgs_of_user_pg [OF ok] split: prod.splits sum.splits
        dest!: select_many_ok [OF selects_organizations(2) scan_row(2)])
  show "(i, u) \<in> pg_members (tbl w) \<Longrightarrow> with_id i (pg_orgs (tbl w)) \<noteq> []"
    using pg_members_exist [OF ok] .
  show "or_Create (organization_store db) g w = (Inl e, w') \<Longrightarrow> foreign e \<and>
      pg_orgs (tbl w') \<in> {pg_orgs (tbl w), pg_orgs (tbl w) @ [g]} \<and> pg_members (tbl w') = pg_members (tbl w)"
    unfolding organization_store_def using orgstore_Create_err [OF ok] by simp
qed (simp_all add: organization_store_def orgstore_Create_ok)

section \<open>Properties\<close>

context backend
begin

lemma org_Create_ok:
  assumes "schema_ok (tbl w)" "org_Create (organization_store db) ent inp w = (Inr g, w')"
  shows "org_Name g = oin_Name inp \<and> org_Description g = oin_Description inp \<and>
    with_id (org_ID g) (pg_orgs (tbl w)) = [] \<and> pg_orgs (tbl w') = pg_orgs (tbl w) @ [g] \<and>
    pg_members (tbl w') = pg_members (tbl w)"
proof -
  from assms(2) obtain i w1 where n: "NewV7 ent w = (Inr i, w1)"
    and c: "or_Create (organization_store db)
        \<lparr>org_ID = i, org_Name = oin_Name inp, org_Description = oin_Description inp\<rparr> w1 = (Inr g, w')"
    by (auto simp: org_Create_def split: prod.splits sum.splits)
  have "tbl w1 = tbl w" using entropy_tbl(2) [of w] n by simp
  with pg_organizations.create_ok [OF _ c] assms(1) show ?thesis by simp
qed

lemma org_Create_schema:
  assumes "schema_ok (tbl w)"
  shows "schema_ok (tbl (snd (org_Create (organization_store db) ent inp w)))"
proof -
  have "NewV7 ent w = (r, w1) \<Longrightarrow> tbl w1 = tbl w" for r w1 using entropy_tbl(2) [of w] by simp
  then show ?thesis
    using assms
    by (auto simp: org_Create_def organization_store_def orgstore_Create_def CreateOrganization_def
        split: prod.splits sum.splits dest: schema_ok_step(1))
qed

lemmas org_laws = pg_organizations.get_ok pg_organizations.get_missing pg_organizations.delete_ok
  pg_organizations.add_ok pg_organizations.remove_ok pg_organizations.list_ok

end

text \<open>
  Creating an organization adds exactly the one asked for, under an id that was not in use
  and without members, and returns it: an empty description, stored as \<open>NULL\<close>, comes back empty.
  An organization found by its id is the only one with that id.
\<close>

theorem organization_create_then_get:
  assumes "backend db tbl clock up rc kv ut ent bc" "schema_ok (tbl w)"
    and "org_Create (organization_store db) ent inp w = (Inr g, w')"
  shows "org_Name g = oin_Name inp \<and> org_Description g = oin_Description inp \<and>
    with_id (org_ID g) (pg_orgs (tbl w)) = [] \<and> pg_orgs (tbl w') = pg_orgs (tbl w) @ [g] \<and>
    pg_members (tbl w') = pg_members (tbl w) \<and> with_id (org_ID g) (pg_orgs (tbl w')) = [g]"
  using backend.org_Create_ok [OF assms] by (simp add: with_id_def)

text \<open>
  Adding, removing and deleting act on the membership relation as their names say: a user is
  added to an existing organization it was not in, only that pair is removed, and deleting an
  organization removes it and exactly its memberships. The organizations listed for a user are
  those it is a member of, each once, in the order of their creation.
\<close>

theorem organization_membership:
  assumes "backend db tbl clock up rc kv ut ent bc" "schema_ok (tbl w)"
  shows "(org_AddUser (organization_store db) i u w = (None, w') \<longrightarrow>
       (i, u) \<notin> pg_members (tbl w) \<and> with_id i (pg_orgs (tbl w)) \<noteq> [] \<and> u \<in> pg_user_ids (tbl w) \<and>
       pg_members (tbl w') = insert (i, u) (pg_members (tbl w)) \<and> pg_orgs (tbl w') = pg_orgs (tbl w)) \<and>
    (org_RemoveUser (organization_store db) i u w = (None, w') \<longrightarrow>
       pg_members (tbl w') = pg_members (tbl w) - {(i, u)} \<and> pg_orgs (tbl w') = pg_orgs (tbl w)) \<and>
    (org_DeleteByID (organization_store db) i w = (None, w') \<longrightarrow>
       pg_orgs (tbl w') = filter (\<lambda>g. org_ID g \<noteq> i) (pg_orgs (tbl w)) \<and>
       pg_members (tbl w') = {(j, u) \<in> pg_members (tbl w). j \<noteq> i}) \<and>
    (org_GetByUserID (organization_store db) u w = (Inr gs, w') \<longrightarrow>
       gs = filter (\<lambda>g. (org_ID g, u) \<in> pg_members (tbl w)) (pg_orgs (tbl w)))"
  using backend.org_laws(3-6) [OF assms]
  by (simp add: org_AddUser_def org_RemoveUser_def org_DeleteByID_def org_GetByUserID_def)

lemmas organization_eval [sim_eval] = org_Create_def org_AddUser_def org_RemoveUser_def org_DeleteByID_def
  org_GetByUserID_def organization_store_def orgstore_Create_def orgstore_DeleteByID_def orgstore_AddUser_def
  orgstore_RemoveUser_def orgstore_GetByUserID_def CreateOrganization_def DeleteOrganizationByID_def
  AddUserToOrganization_def RemoveUserFromOrganization_def GetOrganizationsByUserID_def nullable_def

definition acme :: org_create_input where
  "acme = \<lparr>oin_Name = ''acme'', oin_Description = []\<rparr>"

definition sim_org :: sim where
  "sim_org = snd (org_Create (organization_store sim_db) sim_ent acme sim_ada)"

lemma sim_org_created:
  "org_Create (organization_store sim_db) sim_ent acme sim_ada =
     (Inr \<lparr>org_ID = 1, org_Name = ''acme'', org_Description = []\<rparr>, sim_org)"
  by (simp add: sim_org_def acme_def sim_ada_def ada_def sim_eval fromSqlcOrg_def fromPgUUID_def)

lemma sim_org_ok: "schema_ok (sim_tables sim_org)"
  using sim.org_Create_schema [OF sim_ada_ok] by (simp add: sim_org_def)

theorem organization_create_then_get_witness:
  "with_id 1 (pg_orgs (sim_tables sim_org)) = [\<lparr>org_ID = 1, org_Name = ''acme'', org_Description = []\<rparr>]"
  using organization_create_then_get [OF sim.backend_axioms sim_ada_ok sim_org_created,
      unfolded organization.select_convs] by blast

theorem organization_membership_witness:
  "\<exists>w'. org_AddUser (organization_store sim_db) 1 0 sim_org = (None, w') \<and>
     pg_members (sim_tables w') = insert (1, 0) (pg_members (sim_tables sim_org))"
proof -
  obtain w' where "org_AddUser (organization_store sim_db) 1 0 sim_org = (None, w')"
    by (simp add: sim_org_def acme_def sim_ada_def ada_def sim_eval)
  with organization_membership [OF sim.backend_axioms sim_org_ok, of 1 0 w'] show ?thesis by blast
qed

end
