(* ===== verification/Sso.thy ===== *)
theory Sso
  imports SessionLaws Organizations
begin

text \<open>
  \<^verbatim>\<open>internal/modules/sso\<close>: the accounts linked with a provider, in Postgres, and the states of
  running OAuth authorizations, in Redis. The OAuth client, the HTTP request for the user's data
  and the decoding of its JSON body are the record \<open>google_lib\<close>, a parameter.
\<close>

section \<open>Domain and interfaces\<close>

type_synonym provider = string

definition ProviderGoogle :: provider where "ProviderGoogle = ''google''"
definition ProviderLocal :: provider where "ProviderLocal = ''local''"
definition ProviderQoppaTech :: provider where "ProviderQoppaTech = ''qoppatech''"

record sso_record =
  sso_ID :: uuid
  sso_UserID :: uuid
  sso_Name :: string
  sso_Provider :: provider
  sso_Username :: string
  sso_ActivatedAt :: int
  sso_CreatedAt :: int

record google_user_info =
  gi_Sub :: string
  gi_Email :: string
  gi_Name :: string

record google_config =
  gc_ClientID :: string
  gc_ClientSecret :: string
  gc_RedirectURL :: string

record 'w sso_Repository =
  sor_Create :: "sso_record \<Rightarrow> ('w, sso_record) go"
  sor_GetByProviderAndUsername :: "provider \<Rightarrow> string \<Rightarrow> ('w, sso_record) go"
  sor_GetByUserID :: "uuid \<Rightarrow> ('w, sso_record list) go"
  sor_Delete :: "uuid \<Rightarrow> 'w go_err"

record 'w state_store =
  os_SetOAuthState :: "string \<Rightarrow> int \<Rightarrow> 'w go_err"
  os_GetOAuthState :: "string \<Rightarrow> ('w, bool) go"
  os_DeleteOAuthState :: "string \<Rightarrow> 'w go_err"

section \<open>Stores\<close>

definition fromSqlcSSO :: "sqlc_sso_provider \<Rightarrow> sso_record" where
  "fromSqlcSSO s = \<lparr>sso_ID = fromPgUUID (sv_SsoID s), sso_UserID = fromPgUUID (sv_UserID s), sso_Name = sv_Name s,
     sso_Provider = sv_Provider s, sso_Username = String (sv_Username s),
     sso_ActivatedAt = Time (sv_ActivatedAt s), sso_CreatedAt = Time (sv_CreatedAt s)\<rparr>"

definition ssostore_Create :: "'w dbtx \<Rightarrow> sso_record \<Rightarrow> ('w, sso_record) go" where
  "ssostore_Create db r w =
     (case CreateSSO db (toPgUUID (sso_ID r)) (toPgUUID (sso_UserID r)) (sso_Name r) (sso_Provider r)
             (nullable (sso_Username r)) w of
        (Inl e, w') \<Rightarrow> (Inl e, w')
      | (Inr row, w') \<Rightarrow> (Inr (fromSqlcSSO row), w'))"

definition ssostore_GetByProviderAndUsername ::
  "'w dbtx \<Rightarrow> provider \<Rightarrow> string \<Rightarrow> ('w, sso_record) go" where
  "ssostore_GetByProviderAndUsername db pr un w =
     found sso_ErrProviderNotFound fromSqlcSSO (GetSSOByProviderAndUsername db pr (nullable un) w)"

definition ssostore_GetByUserID :: "'w dbtx \<Rightarrow> uuid \<Rightarrow> ('w, sso_record list) go" where
  "ssostore_GetByUserID db u w =
     (case GetSSOByUserID db (toPgUUID u) w of
        (Inl e, w') \<Rightarrow> (Inl e, w')
      | (Inr rows, w') \<Rightarrow> (Inr (map fromSqlcSSO rows), w'))"

definition ssostore_Delete :: "'w dbtx \<Rightarrow> uuid \<Rightarrow> 'w go_err" where
  "ssostore_Delete db i = DeleteSSO db (toPgUUID i)"

definition sso_store :: "'w dbtx \<Rightarrow> 'w sso_Repository" where
  "sso_store db = \<lparr>sor_Create = ssostore_Create db,
     sor_GetByProviderAndUsername = ssostore_GetByProviderAndUsername db,
     sor_GetByUserID = ssostore_GetByUserID db, sor_Delete = ssostore_Delete db\<rparr>"

definition redis_state_store :: "'w redis_client \<Rightarrow> 'w state_store" where
  "redis_state_store rc = \<lparr>os_SetOAuthState = SetOAuthState rc, os_GetOAuthState = GetOAuthState rc,
     os_DeleteOAuthState = DeleteOAuthState rc\<rparr>"

section \<open>Service\<close>

record oauth_config =
  oc_ClientID :: string
  oc_ClientSecret :: string
  oc_RedirectURL :: string
  oc_Scopes :: "string list"
  oc_Endpoint :: string

record http_response =
  StatusCode :: int
  Body :: string

record 'w google_lib =
  google_Endpoint :: string
  random_UUID :: "'w \<Rightarrow> uuid \<times> 'w"
  AuthCodeURL :: "oauth_config \<Rightarrow> string \<Rightarrow> string"
  Exchange :: "oauth_config \<Rightarrow> string \<Rightarrow> ('w, string) go"
  ClientGet :: "oauth_config \<Rightarrow> string \<Rightarrow> string \<Rightarrow> ('w, http_response) go"
  DecodeUserInfo :: "string \<Rightarrow> gerror + google_user_info"

definition googleOAuth :: "'w google_lib \<Rightarrow> google_config \<Rightarrow> oauth_config" where
  "googleOAuth lib gcfg = \<lparr>oc_ClientID = gc_ClientID gcfg, oc_ClientSecret = gc_ClientSecret gcfg,
     oc_RedirectURL = gc_RedirectURL gcfg, oc_Scopes = [''openid'', ''email'', ''profile''],
     oc_Endpoint = google_Endpoint lib\<rparr>"

definition oauthStateTTL :: int where "oauthStateTTL = 10 * 60 * second"

definition GoogleAuthURL ::
  "'w state_store \<Rightarrow> 'w google_lib \<Rightarrow> uuid_text \<Rightarrow> google_config \<Rightarrow> ('w, string) go" where
  "GoogleAuthURL states lib ut gcfg w =
     (case random_UUID lib w of
        (i, w1) \<Rightarrow>
          (let state = uuid_String ut i in
           case os_SetOAuthState states state oauthStateTTL w1 of
             (Some e, w2) \<Rightarrow> (Inl (Wrap ''store oauth state'' e), w2)
           | (None, w2) \<Rightarrow> (Inr (AuthCodeURL lib (googleOAuth lib gcfg) state), w2)))"

text \<open>What follows the check of the state: a failed deletion of it is only logged.\<close>

definition fetch_user_info :: "'w google_lib \<Rightarrow> oauth_config \<Rightarrow> string \<Rightarrow> ('w, google_user_info) go" where
  "fetch_user_info lib cfg code w =
     (case Exchange lib cfg code w of
        (Inl e, w1) \<Rightarrow> (Inl (Wrap ''oauth exchange'' e), w1)
      | (Inr token, w1) \<Rightarrow>
     (case ClientGet lib cfg token ''https://www.googleapis.com/oauth2/v3/userinfo'' w1 of
        (Inl e, w2) \<Rightarrow> (Inl (Wrap ''fetch userinfo'' e), w2)
      | (Inr resp, w2) \<Rightarrow>
          if StatusCode resp \<noteq> 200 then (Inl (Opaque (''userinfo response: '' @ Body resp)), w2)
          else (case DecodeUserInfo lib (Body resp) of
                  Inl e \<Rightarrow> (Inl (Wrap ''decode userinfo'' e), w2)
                | Inr info \<Rightarrow> (Inr info, w2))))"

definition GoogleCallback ::
  "'w state_store \<Rightarrow> 'w google_lib \<Rightarrow> google_config \<Rightarrow> string \<Rightarrow> string \<Rightarrow> ('w, google_user_info) go" where
  "GoogleCallback states lib gcfg state code w =
     (case os_GetOAuthState states state w of
        (Inl e, w1) \<Rightarrow> (Inl (Wrap ''check oauth state'' e), w1)
      | (Inr valid, w1) \<Rightarrow>
          if \<not> valid then (Inl (Sentinel sso_ErrInvalidState), w1)
          else (case os_DeleteOAuthState states state w1 of
                  (_, w2) \<Rightarrow> fetch_user_info lib (googleOAuth lib gcfg) code w2))"

definition FindOrCreateSSO ::
  "'w sso_Repository \<Rightarrow> 'w entropy \<Rightarrow> uuid \<Rightarrow> provider \<Rightarrow> string \<Rightarrow> string \<Rightarrow> ('w, sso_record) go" where
  "FindOrCreateSSO repo ent u pr nm un w =
     (case sor_GetByProviderAndUsername repo pr un w of
        (Inr existing, w1) \<Rightarrow> (Inr existing, w1)
      | (Inl e, w1) \<Rightarrow>
          if \<not> errors_is e sso_ErrProviderNotFound then (Inl (Wrap ''lookup sso'' e), w1)
          else (case NewV7 ent w1 of
                  (Inl e, w2) \<Rightarrow> (Inl (Wrap ''generate uuid'' e), w2)
                | (Inr i, w2) \<Rightarrow>
               (case sor_Create repo \<lparr>sso_ID = i, sso_UserID = u, sso_Name = nm, sso_Provider = pr,
                       sso_Username = un, sso_ActivatedAt = 0, sso_CreatedAt = 0\<rparr> w2 of
                  (Inl e, w3) \<Rightarrow> (Inl (Wrap ''create sso'' e), w3)
                | (Inr r, w3) \<Rightarrow> (Inr r, w3))))"

definition sso_GetByUserID :: "'w sso_Repository \<Rightarrow> uuid \<Rightarrow> ('w, sso_record list) go" where
  "sso_GetByUserID repo u = sor_GetByUserID repo u"

section \<open>Contracts\<close>

text \<open>
  Of the repository: the records in the order of their creation, and those a lookup by provider
  and user name considers. A record without a user name is never among the latter.
\<close>

definition stamped :: "sso_record \<Rightarrow> int \<Rightarrow> sso_record" where
  "stamped r t = r\<lparr>sso_ActivatedAt := t, sso_CreatedAt := t\<rparr>"

locale sso_repository =
  fixes repo :: "'w sso_Repository" and records :: "'w \<Rightarrow> sso_record list"
    and linked :: "'w \<Rightarrow> provider \<Rightarrow> string \<Rightarrow> sso_record list" and up :: "'w \<Rightarrow> bool"
  assumes create_ok: "sor_Create repo r w = (Inr r', w') \<Longrightarrow>
        (\<exists>t. r' = stamped r t) \<and> records w' = records w @ [r'] \<and>
        linked w' pr un = linked w pr un @
          (if pr = sso_Provider r \<and> un = sso_Username r \<and> un \<noteq> [] then [r'] else [])"
    and lookup_ok: "sor_GetByProviderAndUsername repo pr un w = (Inr r, w') \<Longrightarrow> \<exists>rs. linked w pr un = r # rs"
    and lookup_missing: "sor_GetByProviderAndUsername repo pr un w = (Inl e, w') \<Longrightarrow>
        errors_is e sso_ErrProviderNotFound \<Longrightarrow> linked w pr un = []"
    and lookup_frame: "records (snd (sor_GetByProviderAndUsername repo pr un w)) = records w"
      "linked (snd (sor_GetByProviderAndUsername repo pr un w)) = linked w"
    and lookup_text: "sor_GetByProviderAndUsername repo pr un w = (Inr r, w') \<Longrightarrow> text_ok pr \<and> text_ok un"
      "sor_GetByProviderAndUsername repo pr un w = (Inl e, w') \<Longrightarrow> errors_is e sso_ErrProviderNotFound \<Longrightarrow>
         text_ok pr \<and> text_ok un"
    and lookup_works: "up w \<Longrightarrow> text_ok pr \<Longrightarrow> text_ok un \<Longrightarrow> linked w pr un = r # rs \<Longrightarrow>
        fst (sor_GetByProviderAndUsername repo pr un w) = Inr r"
    and linked_anonymous: "linked w pr [] = []"

locale sso_service = sso_repository repo records linked up
  for repo :: "'w sso_Repository" and records :: "'w \<Rightarrow> sso_record list"
    and linked :: "'w \<Rightarrow> provider \<Rightarrow> string \<Rightarrow> sso_record list" and up :: "'w \<Rightarrow> bool" +
  fixes ent :: "'w entropy"
  assumes entropy_records: "records (snd (NewV7 ent w)) = records w" "linked (snd (NewV7 ent w)) = linked w"
begin

lemma find_or_create:
  assumes "FindOrCreateSSO repo ent u pr nm un w = (Inr r, w')"
  shows "text_ok pr \<and> text_ok un \<and>
    ((\<exists>rs. linked w pr un = r # rs \<and> records w' = records w \<and> linked w' = linked w) \<or>
     (\<exists>i t. r = stamped \<lparr>sso_ID = i, sso_UserID = u, sso_Name = nm, sso_Provider = pr, sso_Username = un,
         sso_ActivatedAt = 0, sso_CreatedAt = 0\<rparr> t \<and> linked w pr un = [] \<and> records w' = records w @ [r] \<and>
       linked w' pr un = (if un \<noteq> [] then [r] else [])))"
proof -
  obtain l w1 where l: "sor_GetByProviderAndUsername repo pr un w = (l, w1)" by (rule prod.exhaust)
  have f: "records w1 = records w" "linked w1 = linked w" using lookup_frame [of pr un w] l by simp_all
  show ?thesis
  proof (cases l)
    case (Inr x)
    with l assms have "x = r" "w' = w1" by (simp_all add: FindOrCreateSSO_def)
    with l Inr lookup_ok [of pr un w x w1] lookup_text(1) [of pr un w x w1] f show ?thesis by simp
  next
    case (Inl e)
    with l assms obtain i w2 where nf: "errors_is e sso_ErrProviderNotFound"
      and n: "NewV7 ent w1 = (Inr i, w2)"
      and c: "sor_Create repo \<lparr>sso_ID = i, sso_UserID = u, sso_Name = nm, sso_Provider = pr,
                       sso_Username = un, sso_ActivatedAt = 0, sso_CreatedAt = 0\<rparr> w2 = (Inr r, w')"
      by (auto simp: FindOrCreateSSO_def split: if_splits prod.splits sum.splits)
    have "records w2 = records w" "linked w2 = linked w" using entropy_records [of w1] n f by simp_all
    with create_ok [OF c, of pr un] lookup_missing [of pr un w e w1] lookup_text(2) [of pr un w e w1] l Inl nf
    show ?thesis by auto
  qed
qed

lemma find_again:
  assumes "text_ok pr" "text_ok un" "up w" "linked w pr un = r # rs"
  shows "fst (FindOrCreateSSO repo ent u pr nm un w) = Inr r"
    and "records (snd (FindOrCreateSSO repo ent u pr nm un w)) = records w"
proof -
  obtain l w1 where l: "sor_GetByProviderAndUsername repo pr un w = (l, w1)" by (rule prod.exhaust)
  with lookup_works [OF assms(3,1,2,4)] have "l = Inr r" by simp
  with l lookup_frame(1) [of pr un w] show "fst (FindOrCreateSSO repo ent u pr nm un w) = Inr r"
    "records (snd (FindOrCreateSSO repo ent u pr nm un w)) = records w"
    by (simp_all add: FindOrCreateSSO_def)
qed

end

section \<open>The Postgres store meets it\<close>

definition pg_sso :: "tables \<Rightarrow> sso_record list" where
  "pg_sso t = map fromSqlcSSO (t_sso_providers t)"

definition pg_linked :: "tables \<Rightarrow> provider \<Rightarrow> string \<Rightarrow> sso_record list" where
  "pg_linked t pr un =
     map fromSqlcSSO (filter (\<lambda>s. sv_Provider s = pr \<and> text_eq (sv_Username s) (nullable un)) (t_sso_providers t))"

lemma createSSO_sem:
  assumes "sql_sem createSSO now [VUuid (toPgUUID (sso_ID r)), VUuid (toPgUUID (sso_UserID r)), VStr (sso_Name r),
      VStr (sso_Provider r), VText (nullable (sso_Username r))] t = (Inr rows, t')"
  shows "\<exists>row. rows = [row_sso row] \<and> fromSqlcSSO row = stamped r now \<and> pg_sso t' = pg_sso t @ [fromSqlcSSO row] \<and>
    pg_linked t' pr un = pg_linked t pr un @
      (if pr = sso_Provider r \<and> un = sso_Username r \<and> un \<noteq> [] then [fromSqlcSSO row] else [])"
proof -
  let ?row = "\<lparr>sv_SsoID = toPgUUID (sso_ID r), sv_UserID = toPgUUID (sso_UserID r), sv_Name = sso_Name r,
    sv_Provider = sso_Provider r, sv_Username = nullable (sso_Username r), sv_ActivatedAt = at_time now,
    sv_CreatedAt = at_time now\<rparr>"
  from assms have "rows = [row_sso ?row]" "t' = t\<lparr>t_sso_providers := t_sso_providers t @ [?row]\<rparr>"
    by (auto simp: ins_sso_def Let_def split: if_splits)
  then show ?thesis
    by (intro exI [of _ ?row])
      (auto simp: fromSqlcSSO_def stamped_def pg_sso_def pg_linked_def text_eq_def nullable_def at_time_def)
qed

lemma lookupSSO_sem:
  assumes "sql_sem getSSOByProviderAndUsername now [VStr pr, VText (nullable un)] t = (Inr rows, t')"
  shows "text_ok pr \<and> text_ok un"
  using assms
  by (auto simp: text_ok_null_def nullable_def bad_args_def text_ok_def split: if_splits)

context postgres
begin

lemma ssostore_Create_ok:
  assumes "ssostore_Create db r w = (Inr r', w')"
  shows "(\<exists>t. r' = stamped r t) \<and> pg_sso (tbl w') = pg_sso (tbl w) @ [r'] \<and>
    pg_linked (tbl w') pr un = pg_linked (tbl w) pr un @
      (if pr = sso_Provider r \<and> un = sso_Username r \<and> un \<noteq> [] then [r'] else [])"
  using assms createSSO_sem [of "clock w" r "tbl w" _ _ pr un]
  by (fastforce simp: ssostore_Create_def CreateSSO_def simp del: sql_sem.simps
      split: prod.splits sum.splits dest!: query_one_ok)

lemma found_sem:
  assumes "found s f (query_one db st scan args w) = (r, w')"
    and "\<not> (\<exists>x. r = Inr x) \<Longrightarrow> \<exists>e. r = Inl e \<and> errors_is e s \<and> s \<noteq> pgx_ErrNoRows"
  shows "\<exists>rows. sql_sem st (clock w) args (tbl w) = (Inr rows, tbl w')"
proof (cases "query_one db st scan args w")
  case (Pair q w1)
  show ?thesis
  proof (cases q)
    case (Inl e)
    with assms Pair have "errors_is e pgx_ErrNoRows"
      using query_one_foreign [of st scan args w e w1 s] by (auto simp: found_def split: if_splits)
    with query_one_none [of st scan args w e w1] Inl Pair assms(1) show ?thesis
      by (auto simp: found_def)
  next
    case (Inr x)
    with query_one_ok [of st scan args w x w1] Pair assms(1) show ?thesis by (auto simp: found_def)
  qed
qed

end

sublocale postgres \<subseteq> pg_sso: sso_repository "sso_store db" "\<lambda>w. pg_sso (tbl w)" "\<lambda>w. pg_linked (tbl w)" up
proof unfold_locales
  fix w w' pr un r rs e
  note defs = sso_store_def ssostore_GetByProviderAndUsername_def GetSSOByProviderAndUsername_def
  note sel = selects_sso(1) [of pr "nullable un"]
  show "sor_GetByProviderAndUsername (sso_store db) pr un w = (Inr r, w') \<Longrightarrow> \<exists>rs. pg_linked (tbl w) pr un = r # rs"
    using found_ok [OF sel scan_row(4), of sso_ErrProviderNotFound fromSqlcSSO w r w']
    by (fastforce simp: defs pg_linked_def)
  show "sor_GetByProviderAndUsername (sso_store db) pr un w = (Inl e, w') \<Longrightarrow>
      errors_is e sso_ErrProviderNotFound \<Longrightarrow> pg_linked (tbl w) pr un = []"
    using found_none [OF sel, of sso_ErrProviderNotFound fromSqlcSSO scan_sso w e w'] by (simp add: defs pg_linked_def)
  show "pg_sso (tbl (snd (sor_GetByProviderAndUsername (sso_store db) pr un w))) = pg_sso (tbl w)"
    "pg_linked (tbl (snd (sor_GetByProviderAndUsername (sso_store db) pr un w))) = pg_linked (tbl w)"
    using select_frame(1) [OF sel, of scan_sso w] by (simp_all add: defs)
  show "sor_GetByProviderAndUsername (sso_store db) pr un w = (Inr r, w') \<Longrightarrow> text_ok pr \<and> text_ok un"
    using found_sem [of sso_ErrProviderNotFound fromSqlcSSO getSSOByProviderAndUsername scan_sso
        "[VStr pr, VText (nullable un)]" w "Inr r" w'] lookupSSO_sem
    by (auto simp: defs simp del: sql_sem.simps)
  show "sor_GetByProviderAndUsername (sso_store db) pr un w = (Inl e, w') \<Longrightarrow>
      errors_is e sso_ErrProviderNotFound \<Longrightarrow> text_ok pr \<and> text_ok un"
    using found_sem [of sso_ErrProviderNotFound fromSqlcSSO getSSOByProviderAndUsername scan_sso
        "[VStr pr, VText (nullable un)]" w "Inl e" w'] lookupSSO_sem
    by (auto simp: defs simp del: sql_sem.simps)
  show "up w \<Longrightarrow> text_ok pr \<Longrightarrow> text_ok un \<Longrightarrow> pg_linked (tbl w) pr un = r # rs \<Longrightarrow>
      fst (sor_GetByProviderAndUsername (sso_store db) pr un w) = Inr r"
    using found_up [of w getSSOByProviderAndUsername "[VStr pr, VText (nullable un)]" row_sso
        "filter (\<lambda>s. sv_Provider s = pr \<and> text_eq (sv_Username s) (nullable un)) (t_sso_providers (tbl w))" "tbl w"
        scan_sso sso_ErrProviderNotFound fromSqlcSSO]
    by (auto simp: defs pg_linked_def sel_sso_def text_ok_null_def nullable_def split: list.splits)
  show "pg_linked (tbl w) pr [] = []" by (simp add: pg_linked_def text_eq_def nullable_def)
qed (use ssostore_Create_ok in \<open>simp add: sso_store_def\<close>)

sublocale backend \<subseteq> pg_sso_service: sso_service "sso_store db" "\<lambda>w. pg_sso (tbl w)" "\<lambda>w. pg_linked (tbl w)" up ent
  by unfold_locales (simp_all add: entropy_tbl)

context backend
begin

lemmas sso_laws = pg_sso_service.find_or_create pg_sso_service.find_again

end

section \<open>Authorizations in Redis\<close>

text \<open>
  The OAuth client talks to the provider only: Redis stays as it is, time passes, and its errors
  are none of the service's own.
\<close>

locale google_login = redis rc kv clock up + uuid_codec ut
  for rc :: "'w redis_client" and kv :: "'w \<Rightarrow> redis_db" and clock :: "'w \<Rightarrow> int" and up :: "'w \<Rightarrow> bool"
    and ut :: uuid_text +
  fixes lib :: "'w google_lib"
  assumes lib_kv: "kv (snd (random_UUID lib w)) = kv w" "kv (snd (Exchange lib cfg code w)) = kv w"
      "kv (snd (ClientGet lib cfg token url w)) = kv w"
    and lib_clock: "clock w \<le> clock (snd (random_UUID lib w))" "clock w \<le> clock (snd (Exchange lib cfg code w))"
      "clock w \<le> clock (snd (ClientGet lib cfg token url w))"
    and lib_up: "up w \<Longrightarrow> up (snd (random_UUID lib w))" "up w \<Longrightarrow> up (snd (Exchange lib cfg code w))"
      "up w \<Longrightarrow> up (snd (ClientGet lib cfg token url w))"
    and lib_foreign: "Exchange lib cfg code w = (Inl e, w') \<Longrightarrow> foreign e"
      "ClientGet lib cfg token url w = (Inl e, w') \<Longrightarrow> foreign e" "DecodeUserInfo lib body = Inl e \<Longrightarrow> foreign e"
begin

lemma fetch_frame:
  "kv (snd (fetch_user_info lib cfg code w)) = kv w"
  "up w \<Longrightarrow> up (snd (fetch_user_info lib cfg code w))"
  "fetch_user_info lib cfg code w = (Inl e, w') \<Longrightarrow> foreign e"
  using lib_kv(2) [of cfg code w] lib_kv(3) [of cfg] lib_up(2) [of w cfg code] lib_up(3) [of _ cfg]
  by (auto simp: fetch_user_info_def split: prod.splits sum.splits if_splits dest: lib_foreign) (metis snd_conv)+

lemma callback_dead:
  assumes "live (kv w) (clock w) (oauthStateKey s) = None"
  shows "\<exists>e. GoogleCallback (redis_state_store rc) lib gcfg s code w = (Inl e, snd (RGet rc (oauthStateKey s) w)) \<and>
    (up w \<longrightarrow> e = Sentinel sso_ErrInvalidState)"
proof -
  obtain r w1 where g: "RGet rc (oauthStateKey s) w = (r, w1)" by (rule prod.exhaust)
  with get_dead [OF assms] obtain e where "r = Inl e" by blast
  with g redis_works(2) [of w "oauthStateKey s"] assms show ?thesis
    by (auto simp: GoogleCallback_def redis_state_store_def GetOAuthState_def)
qed

lemma callback_live:
  assumes "up w" "live (kv w) (clock w) (oauthStateKey s) = Some v"
  shows "\<exists>w2. GoogleCallback (redis_state_store rc) lib gcfg s code w = fetch_user_info lib (googleOAuth lib gcfg) code w2 \<and>
    up w2 \<and> kv w2 = (kv w)(oauthStateKey s := None)"
proof -
  obtain r w1 where g: "RGet rc (oauthStateKey s) w = (r, w1)" by (rule prod.exhaust)
  obtain d w2 where d: "RDel rc (oauthStateKey s) w1 = (d, w2)" by (rule prod.exhaust)
  have "r = Inr v" using redis_works(2) [OF assms(1), of "oauthStateKey s"] assms(2) g by simp
  moreover have u: "up w1" and "kv w1 = kv w"
    using redis_up(2) [OF assms(1), of "oauthStateKey s"] get_frame [of "oauthStateKey s" w] g by simp_all
  moreover have "d = None" "up w2" using redis_works(3) [OF u, of "oauthStateKey s"] redis_up(3) [OF u, of "oauthStateKey s"] d by simp_all
  ultimately show ?thesis using g d del_ok [of "oauthStateKey s" w1 w2]
    by (intro exI [of _ w2]) (simp add: GoogleCallback_def redis_state_store_def GetOAuthState_def DeleteOAuthState_def)
qed

lemma callback_consumes:
  assumes "up w" "GoogleCallback (redis_state_store rc) lib gcfg s code w = (r, w')"
  shows "up w'" and "live (kv w') (clock w') (oauthStateKey s) = None"
proof -
  have "up w' \<and> live (kv w') (clock w') (oauthStateKey s) = None"
  proof (cases "live (kv w) (clock w) (oauthStateKey s)")
    case None
    with callback_dead [OF None, of gcfg code] assms(2) have w': "w' = snd (RGet rc (oauthStateKey s) w)" by auto
    have "live (kv w) (clock w') (oauthStateKey s) = None"
      using None live_later [of "kv w" "clock w'" "oauthStateKey s" _ "clock w"] redis_clock(2) [of w "oauthStateKey s"] w'
      by (metis not_Some_eq)
    then show ?thesis using redis_up(2) [OF assms(1)] get_frame [of "oauthStateKey s" w] w' by simp
  next
    case (Some v)
    from callback_live [OF assms(1) Some] obtain w2 where
      w2: "GoogleCallback (redis_state_store rc) lib gcfg s code w = fetch_user_info lib (googleOAuth lib gcfg) code w2"
      "up w2" "kv w2 = (kv w)(oauthStateKey s := None)" by blast
    have "w' = snd (fetch_user_info lib (googleOAuth lib gcfg) code w2)" using w2(1) assms(2) by (metis snd_conv)
    with fetch_frame(1,2) w2(2,3) show ?thesis by simp
  qed
  then show "up w'" "live (kv w') (clock w') (oauthStateKey s) = None" by simp_all
qed

lemma callback_twice:
  assumes "up w"
  shows "fst (GoogleCallback (redis_state_store rc) lib gcfg s code'
      (snd (GoogleCallback (redis_state_store rc) lib gcfg s code w))) = Inl (Sentinel sso_ErrInvalidState)"
proof -
  obtain r w' where c: "GoogleCallback (redis_state_store rc) lib gcfg s code w = (r, w')" by (rule prod.exhaust)
  note callback_consumes [OF assms c]
  with callback_dead [of w' s gcfg code'] c show ?thesis by auto
qed

lemma auth_url_ok:
  assumes "GoogleAuthURL (redis_state_store rc) lib ut gcfg w = (Inr url, w')"
  shows "\<exists>s e. url = AuthCodeURL lib (googleOAuth lib gcfg) s \<and> kv w' = (kv w)(oauthStateKey s \<mapsto> (''1'', e)) \<and>
    expires_within (clock w) (clock w') oauthStateTTL e"
proof -
  from assms obtain i w1 where n: "random_UUID lib w = (i, w1)"
    and st: "RSet rc (oauthStateKey (uuid_String ut i)) ''1'' oauthStateTTL w1 = (None, w')"
    and url: "url = AuthCodeURL lib (googleOAuth lib gcfg) (uuid_String ut i)"
    by (auto simp: GoogleAuthURL_def redis_state_store_def SetOAuthState_def Let_def split: prod.splits option.splits)
  have "kv w1 = kv w" "clock w \<le> clock w1" "clock w1 \<le> clock w'"
    using lib_kv(1) [of w] lib_clock(1) [of w] n redis_clock(1) [of w1 "oauthStateKey (uuid_String ut i)" "''1''" oauthStateTTL] st
    by simp_all
  with set_ok [OF st] url show ?thesis
    by (intro exI [of _ "uuid_String ut i"] exI [of _ "clock w1 + oauthStateTTL"]) (simp add: expires_within_def)
qed

end

section \<open>Properties\<close>

text \<open>
  Linking an account is idempotent: once \<open>FindOrCreateSSO\<close> has returned a record for a
  provider and a user name, every further call for them, whatever the user and the display name,
  returns that record and adds none. The first call adds at most the record it returns.
\<close>

theorem sso_find_or_create_idempotent:
  assumes "backend db tbl clock up rc kv ut ent bc" "un \<noteq> []"
    and "FindOrCreateSSO (sso_store db) ent u pr nm un w = (Inr r, w')" "up w'"
  shows "pg_sso (tbl w') \<in> {pg_sso (tbl w), pg_sso (tbl w) @ [r]} \<and>
    fst (FindOrCreateSSO (sso_store db) ent u' pr nm' un w') = Inr r \<and>
    pg_sso (tbl (snd (FindOrCreateSSO (sso_store db) ent u' pr nm' un w'))) = pg_sso (tbl w')"
proof -
  note laws = backend.sso_laws [OF assms(1)]
  from laws(1) [OF assms(3)] assms(2) obtain rs where "text_ok pr" "text_ok un" "pg_linked (tbl w') pr un = r # rs"
    "pg_sso (tbl w') \<in> {pg_sso (tbl w), pg_sso (tbl w) @ [r]}" by fastforce
  with laws(2,3) [OF _ _ assms(4)] show ?thesis by blast
qed

text \<open>
  Without a user name nothing is ever found: the name is stored as \<open>NULL\<close>, which equals
  nothing, so each successful call adds one more record for the same provider.
\<close>

theorem sso_anonymous_duplicates:
  assumes "backend db tbl clock up rc kv ut ent bc"
    and "FindOrCreateSSO (sso_store db) ent u pr nm [] w = (Inr r, w')"
  shows "pg_sso (tbl w') = pg_sso (tbl w) @ [r] \<and> sso_Provider r = pr \<and> sso_UserID r = u \<and> sso_Username r = []"
proof -
  have "pg_linked (tbl w) pr [] = []" by (simp add: pg_linked_def text_eq_def nullable_def)
  with backend.sso_laws(1) [OF assms] show ?thesis by (auto simp: stamped_def)
qed

text \<open>
  An authorization state works for 10 minutes from the moment its URL was handed out, and no
  longer; a callback with a state that is not stored is refused before the code is exchanged.
\<close>

theorem oauth_state_lifetime:
  assumes "google_login rc kv clock up ut lib"
    and "GoogleAuthURL (redis_state_store rc) lib ut gcfg w = (Inr url, w1)"
  shows "\<exists>s. url = AuthCodeURL lib (googleOAuth lib gcfg) s \<and>
    (\<forall>w2 code. kv w2 (oauthStateKey s) = kv w1 (oauthStateKey s) \<longrightarrow>
      (up w2 \<and> clock w2 < clock w + oauthStateTTL \<longrightarrow>
        (\<exists>w3. GoogleCallback (redis_state_store rc) lib gcfg s code w2 =
                fetch_user_info lib (googleOAuth lib gcfg) code w3)) \<and>
      (up w2 \<and> clock w1 + oauthStateTTL \<le> clock w2 \<longrightarrow>
        GoogleCallback (redis_state_store rc) lib gcfg s code w2 =
          (Inl (Sentinel sso_ErrInvalidState), snd (RGet rc (oauthStateKey s) w2))))"
proof -
  from google_login.auth_url_ok [OF assms] obtain s e where url: "url = AuthCodeURL lib (googleOAuth lib gcfg) s"
    and e: "kv w1 (oauthStateKey s) = Some (''1'', e)" "expires_within (clock w) (clock w1) oauthStateTTL e" by auto
  show ?thesis
  proof (intro exI [of _ s] conjI url allI impI)
    fix w2 code
    assume "kv w2 (oauthStateKey s) = kv w1 (oauthStateKey s)"
    then have l: "live (kv w2) (clock w2) (oauthStateKey s) = (if clock w2 < e then Some ''1'' else None)"
      using e(1) by (simp add: live_def)
    show "\<exists>w3. GoogleCallback (redis_state_store rc) lib gcfg s code w2 =
        fetch_user_info lib (googleOAuth lib gcfg) code w3" if "up w2 \<and> clock w2 < clock w + oauthStateTTL"
      using google_login.callback_live [OF assms(1), of w2 s "''1''" gcfg code] l e(2) that
      by (auto simp: expires_within_def)
    show "GoogleCallback (redis_state_store rc) lib gcfg s code w2 =
        (Inl (Sentinel sso_ErrInvalidState), snd (RGet rc (oauthStateKey s) w2))"
      if "up w2 \<and> clock w1 + oauthStateTTL \<le> clock w2"
      using google_login.callback_dead [OF assms(1), of w2 s gcfg code] l e(2) that
      by (auto simp: expires_within_def)
  qed
qed

text \<open>
  An authorization state is used once: the callback that presents it removes it, so (the
  services up) presenting it again is refused with \<open>ErrInvalidState\<close>, even when the first callback
  failed later on.
\<close>

theorem oauth_state_single_use:
  assumes "google_login rc kv clock up ut lib" "up w"
  shows "fst (GoogleCallback (redis_state_store rc) lib gcfg s code'
      (snd (GoogleCallback (redis_state_store rc) lib gcfg s code w))) = Inl (Sentinel sso_ErrInvalidState)"
  using google_login.callback_twice [OF assms] .

section \<open>Witnesses\<close>

lemmas sso_eval [sim_eval] = FindOrCreateSSO_def sso_store_def ssostore_Create_def
  ssostore_GetByProviderAndUsername_def CreateSSO_def GetSSOByProviderAndUsername_def fromSqlcSSO_def

definition sim_google :: "sim google_lib" where
  "sim_google = \<lparr>google_Endpoint = ''https://accounts.google.com/o/oauth2/auth'',
     random_UUID = (\<lambda>w. (word_of_nat (sim_seed w), (tick w)\<lparr>sim_seed := sim_seed w + 1\<rparr>)),
     AuthCodeURL = (\<lambda>cfg s. oc_Endpoint cfg @ ''?state='' @ s),
     Exchange = (\<lambda>cfg code w. if code = [] then (Inl sim_error, tick w) else (Inr code, tick w)),
     ClientGet = (\<lambda>cfg token url w. (Inr \<lparr>StatusCode = 200, Body = token\<rparr>, tick w)),
     DecodeUserInfo = (\<lambda>body. Inr \<lparr>gi_Sub = body, gi_Email = [], gi_Name = []\<rparr>)\<rparr>"

interpretation sim_google: google_login sim_rc sim_kv sim_clock sim_up uuid_std sim_google
  by unfold_locales (auto simp: sim_google_def sim_error_def split: if_splits)

theorem sso_find_or_create_idempotent_witness:
  "\<exists>r w'. FindOrCreateSSO (sso_store sim_db) sim_ent 0 ProviderGoogle ''Ada'' ''ada'' sim_ada = (Inr r, w') \<and>
     fst (FindOrCreateSSO (sso_store sim_db) sim_ent 0 ProviderGoogle ''A'' ''ada'' w') = Inr r"
proof -
  obtain r w' where f: "FindOrCreateSSO (sso_store sim_db) sim_ent 0 ProviderGoogle ''Ada'' ''ada'' sim_ada = (Inr r, w')"
    and u: "sim_up w'"
    by (simp add: sim_ada_def ada_def sim_eval ProviderGoogle_def sim_up_def)
  have ne: "''ada'' \<noteq> ([] :: string)" by simp
  from f sso_find_or_create_idempotent [OF sim.backend_axioms ne f u] show ?thesis by blast
qed

theorem sso_anonymous_duplicates_witness:
  "\<exists>r w'. FindOrCreateSSO (sso_store sim_db) sim_ent 0 ProviderGoogle ''Ada'' [] sim_ada = (Inr r, w') \<and>
     pg_sso (sim_tables w') = pg_sso (sim_tables sim_ada) @ [r]"
proof -
  obtain r w' where f: "FindOrCreateSSO (sso_store sim_db) sim_ent 0 ProviderGoogle ''Ada'' [] sim_ada = (Inr r, w')"
    by (simp add: sim_ada_def ada_def sim_eval ProviderGoogle_def)
  from f sso_anonymous_duplicates [OF sim.backend_axioms f] show ?thesis by blast
qed

definition demo_google :: google_config where
  "demo_google = \<lparr>gc_ClientID = ''id'', gc_ClientSecret = ''secret'', gc_RedirectURL = ''https://x.org/cb''\<rparr>"

theorem oauth_state_lifetime_witness:
  "\<exists>url w1 s w3. GoogleAuthURL (redis_state_store sim_rc) sim_google uuid_std demo_google sim_init = (Inr url, w1) \<and>
     GoogleCallback (redis_state_store sim_rc) sim_google demo_google s ''c'' w1 =
       fetch_user_info sim_google (googleOAuth sim_google demo_google) ''c'' w3"
proof -
  obtain url w1 where g: "GoogleAuthURL (redis_state_store sim_rc) sim_google uuid_std demo_google sim_init = (Inr url, w1)"
    and u: "sim_up w1 \<and> sim_clock w1 < sim_clock sim_init + oauthStateTTL"
    by (simp add: GoogleAuthURL_def redis_state_store_def SetOAuthState_def sim_google_def sim_eval sim_up_def
        oauthStateTTL_def second_def)
  from oauth_state_lifetime [OF sim_google.google_login_axioms g] g u show ?thesis by blast
qed

theorem oauth_state_single_use_witness:
  "fst (GoogleCallback (redis_state_store sim_rc) sim_google demo_google ''s'' ''c''
      (snd (GoogleCallback (redis_state_store sim_rc) sim_google demo_google ''s'' ''c''
        (sim_init\<lparr>sim_kv := [oauthStateKey ''s'' \<mapsto> (''1'', 100)]\<rparr>)))) = Inl (Sentinel sso_ErrInvalidState)"
  using oauth_state_single_use [OF sim_google.google_login_axioms, of "sim_init\<lparr>sim_kv := [oauthStateKey ''s'' \<mapsto> (''1'', 100)]\<rparr>"]
  by simp

end
