(* ===== verification/GitPaths.thy ===== *)
theory GitPaths
  imports GoErrors
begin

text \<open>
  The string functions of \<^verbatim>\<open>internal/modules/git/service.go\<close>: which names a repository may
  have and where it lies on disk. The \<open>strings\<close> and \<open>path/filepath\<close> functions of the standard
  library that they call come first (\<open>filepath\<close> as on Unix).
\<close>

section \<open>\<open>strings\<close> and \<open>path/filepath\<close>\<close>

abbreviation slash :: char where "slash \<equiv> CHR ''/''"
abbreviation dot :: char where "dot \<equiv> CHR ''.''"

fun split_on :: "char \<Rightarrow> string \<Rightarrow> string list" where
  "split_on d [] = [[]]"
| "split_on d (c # cs) =
     (if c = d then [] # split_on d cs
      else case split_on d cs of x # xs \<Rightarrow> (c # x) # xs | [] \<Rightarrow> [[c]])"

fun join_with :: "char \<Rightarrow> string list \<Rightarrow> string" where
  "join_with d [] = []"
| "join_with d [x] = x"
| "join_with d (x # xs) = x @ d # join_with d xs"

text \<open>\<open>strings.TrimPrefix(s, "/")\<close>, \<open>strings.Trim(s, "/")\<close> and \<open>strings.ReplaceAll(s, "..", "")\<close>.\<close>

definition trim_prefix :: "char \<Rightarrow> string \<Rightarrow> string" where
  "trim_prefix d s = (case s of c # cs \<Rightarrow> if c = d then cs else s | [] \<Rightarrow> [])"

definition trim :: "char \<Rightarrow> string \<Rightarrow> string" where
  "trim d s = rev (dropWhile (\<lambda>c. c = d) (rev (dropWhile (\<lambda>c. c = d) s)))"

fun remove_dotdot :: "string \<Rightarrow> string" where
  "remove_dotdot (c # d # cs) =
     (if c = dot \<and> d = dot then remove_dotdot cs else c # remove_dotdot (d # cs))"
| "remove_dotdot s = s"

text \<open>
  \<open>filepath.Clean\<close>: the elements of the path one after the other, dropping empty ones and \<open>.\<close>, and
  \<open>..\<close> together with the element before it (at the root it is dropped alone).
\<close>

definition rooted :: "string \<Rightarrow> bool" where
  "rooted p \<longleftrightarrow> (case p of c # _ \<Rightarrow> c = slash | [] \<Rightarrow> False)"

definition clean_step :: "bool \<Rightarrow> string list \<Rightarrow> string \<Rightarrow> string list" where
  "clean_step root st c =
     (if c = [] \<or> c = ''.'' then st
      else if c = ''..'' then
        (if st \<noteq> [] \<and> last st \<noteq> ''..'' then butlast st else if root then st else st @ [c])
      else st @ [c])"

definition components :: "string \<Rightarrow> string list" where
  "components p = foldl (clean_step (rooted p)) [] (split_on slash p)"

definition render :: "bool \<Rightarrow> string list \<Rightarrow> string" where
  "render root cs =
     (if root then slash # join_with slash cs else if cs = [] then ''.'' else join_with slash cs)"

definition filepath_Clean :: "string \<Rightarrow> string" where
  "filepath_Clean p = render (rooted p) (components p)"

fun filepath_Join :: "string list \<Rightarrow> string" where
  "filepath_Join [] = []"
| "filepath_Join (e # es) = (if e \<noteq> [] then filepath_Clean (join_with slash (e # es)) else filepath_Join es)"

section \<open>Names and paths of repositories\<close>

definition name_first :: "char \<Rightarrow> bool" where
  "name_first c \<longleftrightarrow> c \<in> set ''abcdefghijklmnopqrstuvwxyzABCDEFGHIJKLMNOPQRSTUVWXYZ0123456789''"

definition name_rest :: "char \<Rightarrow> bool" where
  "name_rest c \<longleftrightarrow> name_first c \<or> c \<in> set ''._-''"

text \<open>The regular expression \<open>^[a-zA-Z0-9][a-zA-Z0-9._-]*$\<close>.\<close>

definition validRepoName :: "string \<Rightarrow> bool" where
  "validRepoName s = (case s of [] \<Rightarrow> False | c # cs \<Rightarrow> name_first c \<and> list_all name_rest cs)"

definition ValidateRepoName :: "string \<Rightarrow> gerror option" where
  "ValidateRepoName nm =
     (if \<not> validRepoName nm then Some (Wrap nm (Sentinel git_ErrInvalidRepoName)) else None)"

definition SanitizeRepoPath :: "string \<Rightarrow> string" where
  "SanitizeRepoPath path =
     (let path = trim_prefix slash path; path = remove_dotdot path; path = trim slash path in path)"

definition BuildRepoPath :: "string \<Rightarrow> string list \<Rightarrow> string" where
  "BuildRepoPath base cs = join_with slash (base # map SanitizeRepoPath cs)"

text \<open>\<open>Service.RepoPath\<close>: only the name of the repository matters.\<close>

definition RepoPath :: "string \<Rightarrow> string \<Rightarrow> string" where
  "RepoPath reposDir nm = filepath_Join [reposDir, SanitizeRepoPath nm]"

definition repoNameFromPath :: "string \<Rightarrow> string" where
  "repoNameFromPath path =
     (let parts = split_on slash path in if 0 < length parts then parts ! (length parts - 1) else path)"

section \<open>What sanitizing leaves\<close>

fun has_dotdot :: "string \<Rightarrow> bool" where
  "has_dotdot (c # d # cs) \<longleftrightarrow> (c = dot \<and> d = dot) \<or> has_dotdot (d # cs)"
| "has_dotdot s = False"

lemma has_dotdot_iff: "has_dotdot s \<longleftrightarrow> (\<exists>a b. s = a @ ''..'' @ b)"
proof
  show "has_dotdot s \<Longrightarrow> \<exists>a b. s = a @ ''..'' @ b"
  proof (induction s rule: has_dotdot.induct)
    case (1 c d cs)
    show ?case
    proof (cases "c = dot \<and> d = dot")
      case True
      then show ?thesis by (intro exI [of _ "[]"] exI [of _ cs]) simp
    next
      case False
      with 1 obtain a b where "d # cs = a @ ''..'' @ b" by auto
      then show ?thesis by (intro exI [of _ "c # a"] exI [of _ b]) simp
    qed
  qed auto
  show "\<exists>a b. s = a @ ''..'' @ b \<Longrightarrow> has_dotdot s"
  proof (elim exE)
    fix a b
    show "s = a @ ''..'' @ b \<Longrightarrow> has_dotdot s"
    proof (induction a arbitrary: s)
      case (Cons c a)
      then show ?case by (cases a) auto
    qed simp
  qed
qed

lemma has_dotdot_Cons: "has_dotdot (c # s) \<longleftrightarrow> (c = dot \<and> s \<noteq> [] \<and> hd s = dot) \<or> has_dotdot s"
  by (cases s) auto

text \<open>A dot the removal keeps is never followed by another.\<close>

lemma remove_dotdot_after_other: "c \<noteq> dot \<Longrightarrow> remove_dotdot (c # s) = c # remove_dotdot s"
  by (cases s) auto

lemma remove_dotdot_clean: "\<not> has_dotdot (remove_dotdot s)"
proof (induction s rule: length_induct)
  case (1 s)
  show ?case
  proof (cases s)
    case (Cons c t)
    show ?thesis
    proof (cases "c = dot")
      case False
      with Cons 1 show ?thesis by (simp add: remove_dotdot_after_other has_dotdot_Cons)
    next
      case True
      show ?thesis
      proof (cases t)
        case (Cons d u)
        show ?thesis
        proof (cases "d = dot")
          case True
          with \<open>c = dot\<close> \<open>s = c # t\<close> Cons 1 show ?thesis by simp
        next
          case False
          with \<open>c = dot\<close> \<open>s = c # t\<close> Cons 1 show ?thesis
            by (simp add: remove_dotdot_after_other has_dotdot_Cons)
        qed
      qed (use \<open>s = c # t\<close> in simp)
    qed
  qed simp
qed

lemma remove_dotdot_id: "\<not> has_dotdot s \<Longrightarrow> remove_dotdot s = s"
  by (induction s rule: remove_dotdot.induct) auto

lemma trim_infix: "\<exists>a b. s = a @ trim d s @ b"
proof -
  have 1: "s = takeWhile (\<lambda>c. c = d) s @ dropWhile (\<lambda>c. c = d) s" by simp
  define t where "t = dropWhile (\<lambda>c. c = d) s"
  have "rev t = takeWhile (\<lambda>c. c = d) (rev t) @ dropWhile (\<lambda>c. c = d) (rev t)" by simp
  then have "t = trim d s @ rev (takeWhile (\<lambda>c. c = d) (rev t))"
    unfolding trim_def t_def [symmetric] by (metis rev_append rev_rev_ident)
  with 1 show ?thesis unfolding t_def by metis
qed

lemma has_dotdot_infix: "has_dotdot t \<Longrightarrow> has_dotdot (a @ t @ b)"
  unfolding has_dotdot_iff by (metis append.assoc)

lemma trim_ends: "trim d s = [] \<or> (hd (trim d s) \<noteq> d \<and> last (trim d s) \<noteq> d)"
proof (cases "trim d s = []")
  case False
  define t where "t = dropWhile (\<lambda>c. c = d) s"
  have tr: "trim d s = rev (dropWhile (\<lambda>c. c = d) (rev t))" by (simp add: trim_def t_def)
  have ne: "dropWhile (\<lambda>c. c = d) (rev t) \<noteq> []" using False tr by simp
  have "last (trim d s) \<noteq> d"
    using hd_dropWhile [OF ne] by (simp add: tr last_rev)
  moreover have "t \<noteq> []" using ne by auto
  moreover have "hd (trim d s) = hd t"
  proof -
    have "rev t = takeWhile (\<lambda>c. c = d) (rev t) @ dropWhile (\<lambda>c. c = d) (rev t)" by simp
    then have "t = trim d s @ rev (takeWhile (\<lambda>c. c = d) (rev t))"
      unfolding tr by (metis rev_append rev_rev_ident)
    then show ?thesis using False by (metis hd_append2)
  qed
  ultimately show ?thesis using hd_dropWhile [of "\<lambda>c. c = d" s] by (simp add: t_def)
qed simp

lemma trim_id: "s = [] \<or> (hd s \<noteq> d \<and> last s \<noteq> d) \<Longrightarrow> trim d s = s"
proof -
  assume a: "s = [] \<or> (hd s \<noteq> d \<and> last s \<noteq> d)"
  then have "dropWhile (\<lambda>c. c = d) s = s" by (cases s) auto
  moreover have "dropWhile (\<lambda>c. c = d) (rev s) = rev s"
    using a by (cases s rule: rev_cases) auto
  ultimately show ?thesis by (simp add: trim_def)
qed

lemma sanitize_no_dotdot: "\<not> has_dotdot (SanitizeRepoPath p)"
proof -
  obtain a b where "remove_dotdot (trim_prefix slash p) = a @ SanitizeRepoPath p @ b"
    using trim_infix by (metis SanitizeRepoPath_def)
  with remove_dotdot_clean [of "trim_prefix slash p"] has_dotdot_infix show ?thesis by metis
qed

lemma sanitize_ends:
  "SanitizeRepoPath p = [] \<or> (hd (SanitizeRepoPath p) \<noteq> slash \<and> last (SanitizeRepoPath p) \<noteq> slash)"
  using trim_ends by (simp add: SanitizeRepoPath_def)

lemma sanitize_id:
  assumes "\<not> has_dotdot s" "s = [] \<or> (hd s \<noteq> slash \<and> last s \<noteq> slash)"
  shows "SanitizeRepoPath s = s"
proof -
  have "trim_prefix slash s = s" using assms(2) by (cases s) (auto simp: trim_prefix_def)
  with assms show ?thesis by (simp add: SanitizeRepoPath_def remove_dotdot_id trim_id)
qed

section \<open>Paths\<close>

lemma split_on_nonempty [simp]: "split_on d s \<noteq> []"
  by (induction s) (auto split: list.splits)

lemma split_on_append: "split_on d (a @ d # b) = split_on d a @ split_on d b"
proof (induction a)
  case (Cons c a)
  then show ?case using split_on_nonempty [of d a] by (auto split: list.splits)
qed simp

lemma split_on_infix: "c \<in> set (split_on d s) \<Longrightarrow> \<exists>a b. s = a @ c @ b"
proof (induction s arbitrary: c)
  case (Cons x xs)
  show ?case
  proof (cases "x = d")
    case True
    then consider "c = []" | "c \<in> set (split_on d xs)" using Cons.prems by auto
    then show ?thesis
    proof cases
      case 2
      with Cons.IH obtain a b where "xs = a @ c @ b" by blast
      then show ?thesis by (intro exI [of _ "x # a"] exI [of _ b]) simp
    qed auto
  next
    case False
    obtain y ys where y: "split_on d xs = y # ys" using split_on_nonempty [of d xs] by (cases "split_on d xs") auto
    obtain r where r: "xs = y @ r"
      using y by (induction xs arbitrary: y ys) (auto split: if_splits list.splits)
    from False y Cons.prems consider "c = x # y" | "c \<in> set ys" by auto
    then show ?thesis
    proof cases
      case 1
      with r show ?thesis by (intro exI [of _ "[]"] exI [of _ r]) simp
    next
      case 2
      with y Cons.IH [of c] obtain a b where "xs = a @ c @ b" by auto
      then show ?thesis by (intro exI [of _ "x # a"] exI [of _ b]) simp
    qed
  qed
qed auto

lemma no_dotdot_component: "\<not> has_dotdot s \<Longrightarrow> ''..'' \<notin> set (split_on slash s)"
  using split_on_infix [of "''..''" slash s] by (auto simp: has_dotdot_iff)

definition plain :: "string \<Rightarrow> bool" where
  "plain c \<longleftrightarrow> c \<noteq> [] \<and> c \<noteq> ''.'' \<and> c \<noteq> ''..''"

lemma foldl_clean_plain:
  "''..'' \<notin> set cs \<Longrightarrow> foldl (clean_step r) st cs = st @ filter plain cs"
  by (induction cs arbitrary: st) (auto simp: clean_step_def plain_def)

lemma rooted_append: "a \<noteq> [] \<Longrightarrow> rooted (a @ b) = rooted a"
  by (cases a) (simp_all add: rooted_def)

lemma RepoPath_components:
  assumes "reposDir \<noteq> []"
  shows "RepoPath reposDir nm =
    render (rooted reposDir) (components reposDir @ filter plain (split_on slash (SanitizeRepoPath nm)))"
proof -
  have "components (reposDir @ slash # SanitizeRepoPath nm) =
      components reposDir @ filter plain (split_on slash (SanitizeRepoPath nm))"
    using assms no_dotdot_component [OF sanitize_no_dotdot, of nm]
    by (simp add: components_def rooted_append split_on_append foldl_clean_plain)
  then show ?thesis using assms by (simp add: RepoPath_def filepath_Clean_def rooted_append)
qed

lemma split_on_no_sep: "d \<notin> set s \<Longrightarrow> split_on d s = [s]"
  by (induction s) auto

lemma valid_name_chars:
  assumes "validRepoName nm"
  shows "slash \<notin> set nm" "nm \<noteq> []" "hd nm \<noteq> dot"
proof -
  obtain c cs where nm: "nm = c # cs" and c: "name_first c" and cs: "list_all name_rest cs"
    using assms by (cases nm) (auto simp: validRepoName_def)
  have s: "\<not> name_first slash" "\<not> name_rest slash" "\<not> name_first dot" by (simp_all add: name_first_def name_rest_def)
  from nm c cs s show "slash \<notin> set nm" by (auto simp: list_all_iff)
  from nm c s show "nm \<noteq> []" "hd nm \<noteq> dot" by auto
qed

lemma valid_name_path:
  assumes "reposDir \<noteq> []" "validRepoName nm" "\<not> has_dotdot nm"
  shows "RepoPath reposDir nm = render (rooted reposDir) (components reposDir @ [nm])"
proof -
  note v = valid_name_chars [OF assms(2)]
  have "SanitizeRepoPath nm = nm"
    using v(1) assms(3) hd_in_set [OF v(2)] last_in_set [OF v(2)] by (intro sanitize_id) metis+
  moreover have "plain nm" using v by (auto simp: plain_def)
  ultimately show ?thesis
    using RepoPath_components [OF assms(1), of nm] split_on_no_sep [OF v(1)] by simp
qed

lemma join_snoc: "xs \<noteq> [] \<Longrightarrow> join_with d (xs @ [x]) = join_with d xs @ d # x"
  by (induction xs rule: join_with.induct) auto

lemma repoNameFromPath_join: "slash \<notin> set nm \<Longrightarrow> repoNameFromPath (p @ slash # nm) = nm"
  by (simp add: repoNameFromPath_def split_on_append split_on_no_sep nth_append)

section \<open>Properties\<close>

text \<open>
  A sanitized path contains no two dots in a row and neither begins nor ends with a slash, and
  sanitizing again changes nothing.
\<close>

theorem sanitize_safe:
  "(\<nexists>a b. SanitizeRepoPath p = a @ ''..'' @ b) \<and>
   (SanitizeRepoPath p = [] \<or> hd (SanitizeRepoPath p) \<noteq> slash \<and> last (SanitizeRepoPath p) \<noteq> slash) \<and>
   SanitizeRepoPath (SanitizeRepoPath p) = SanitizeRepoPath p"
  using sanitize_no_dotdot [of p] sanitize_ends [of p] sanitize_id [OF sanitize_no_dotdot sanitize_ends, of p]
  by (simp add: has_dotdot_iff)

text \<open>
  Whatever the name, the path of a repository lies in the repositories' directory: it is the
  cleaned directory followed by ordinary elements, none of them \<open>..\<close>.
\<close>

theorem repo_path_contained:
  assumes "reposDir \<noteq> []"
  shows "\<exists>cs. RepoPath reposDir nm = render (rooted reposDir) (components reposDir @ cs) \<and> list_all plain cs"
  using RepoPath_components [OF assms, of nm] by (auto simp: list_all_iff)

theorem repo_path_contained_witness:
  "\<exists>cs. RepoPath ''/srv/git'' ''../../etc/passwd'' = render True (components ''/srv/git'' @ cs) \<and> list_all plain cs"
  using repo_path_contained [of "''/srv/git''" "''../../etc/passwd''"] by (simp add: rooted_def)

text \<open>
  Two names that \<open>ValidateRepoName\<close> accepts and that have no two dots in a row lie in different
  directories, each directly in the repositories' directory under its own name.
\<close>

theorem valid_repo_paths_distinct:
  assumes "reposDir \<noteq> []" "ValidateRepoName a = None" "ValidateRepoName b = None"
    and "\<not> has_dotdot a" "\<not> has_dotdot b"
  shows "RepoPath reposDir a = render (rooted reposDir) (components reposDir @ [a]) \<and>
    (RepoPath reposDir a = RepoPath reposDir b \<longleftrightarrow> a = b)"
proof -
  have v: "validRepoName a" "validRepoName b"
    using assms(2,3) by (auto simp: ValidateRepoName_def split: if_splits)
  have "render r (xs @ [a]) = render r (xs @ [b]) \<Longrightarrow> a = b" for r xs
    by (cases "xs = []") (auto simp: render_def join_snoc split: if_splits)
  then show ?thesis
    using valid_name_path [OF assms(1) v(1) assms(4)] valid_name_path [OF assms(1) v(2) assms(5)] by auto
qed

theorem valid_repo_paths_distinct_witness:
  "RepoPath ''/srv'' ''a.b'' \<noteq> RepoPath ''/srv'' ''ab''"
proof -
  have "ValidateRepoName ''a.b'' = None" "ValidateRepoName ''ab'' = None"
    by (simp_all add: ValidateRepoName_def validRepoName_def name_first_def name_rest_def)
  moreover have "\<not> has_dotdot ''a.b''" "\<not> has_dotdot ''ab''" by simp_all
  ultimately show ?thesis using valid_repo_paths_distinct [of "''/srv''" "''a.b''" "''ab''"] by blast
qed

text \<open>
  Two different names that \<open>ValidateRepoName\<close> accepts may share a directory: the sanitizer
  drops the two dots of \<open>a..b\<close>, which the regular expression allows.
\<close>

theorem repo_path_collision:
  "ValidateRepoName ''a..b'' = None \<and> ValidateRepoName ''ab'' = None \<and>
   RepoPath reposDir ''a..b'' = RepoPath reposDir ''ab''"
  by (simp add: ValidateRepoName_def validRepoName_def name_first_def name_rest_def RepoPath_def
      SanitizeRepoPath_def trim_prefix_def trim_def)

end
