(* ===== verification/GitRepos.thy ===== *)
theory GitRepos
  imports GitPaths Organizations
begin

text \<open>
  \<^verbatim>\<open>internal/modules/git\<close>: the repository records in Postgres (\<open>store.go\<close>) behind the
  \<open>Repository\<close> interface, and the bare repositories on disk (\<open>service.go\<close>). go-git, its file
  system and its transport are the record \<open>git_lib\<close>, a parameter.
\<close>

section \<open>Domain\<close>

record git_repository =
  git_ID :: uuid
  git_Name :: string
  git_Description :: string
  git_IsPrivate :: bool
  git_IsDeleted :: bool
  git_CreatedAt :: int
  git_UpdatedAt :: int
  git_OwnerID :: uuid
  git_DefaultRef :: string
  git_Head :: string

definition zero_repository :: git_repository where
  "zero_repository = \<lparr>git_ID = 0, git_Name = [], git_Description = [], git_IsPrivate = False,
     git_IsDeleted = False, git_CreatedAt = 0, git_UpdatedAt = 0, git_OwnerID = 0, git_DefaultRef = [],
     git_Head = []\<rparr>"

record git_create_input =
  gin_Id :: uuid
  gin_Name :: string
  gin_Description :: string
  gin_IsPrivate :: bool
  gin_OwnerID :: uuid
  gin_DefaultRef :: string

text \<open>A nil pointer is \<open>None\<close>.\<close>

record git_update_input =
  gup_Name :: "string option"
  gup_Description :: "string option"
  gup_IsPrivate :: "bool option"
  gup_OwnerId :: "uuid option"
  gup_DefaultRef :: "string option"

record ref_info =
  ref_Name :: string
  ref_Hash :: string
  ref_Peeled :: string

record repo_stats =
  BranchCount :: int
  TagCount :: int
  CommitCount :: int
  SizeBytes :: nat
  LastCommitTime :: int

record 'w git_Repository =
  gr_Create :: "git_create_input \<Rightarrow> ('w, git_repository) go"
  gr_GetByID :: "uuid \<Rightarrow> ('w, git_repository) go"
  gr_GetByName :: "uuid \<Rightarrow> string \<Rightarrow> ('w, git_repository) go"
  gr_ListByOwner :: "uuid \<Rightarrow> ('w, git_repository list) go"
  gr_Update :: "uuid \<Rightarrow> git_update_input \<Rightarrow> ('w, git_repository) go"
  gr_SoftDelete :: "uuid \<Rightarrow> 'w go_err"
  gr_Delete :: "uuid \<Rightarrow> 'w go_err"

section \<open>Store\<close>

definition fromSqlcRepo :: "sqlc_git_repository \<Rightarrow> git_repository" where
  "fromSqlcRepo g = \<lparr>git_ID = fromPgUUID (sg_ID g), git_Name = sg_Name g,
     git_Description = String (sg_Description g), git_IsPrivate = sg_IsPrivate g,
     git_IsDeleted = sg_IsDeleted g, git_CreatedAt = Time (sg_CreatedAt g),
     git_UpdatedAt = Time (sg_UpdatedAt g), git_OwnerID = fromPgUUID (sg_OwnerID g),
     git_DefaultRef = sg_DefaultRef g, git_Head = sg_Head g\<rparr>"

definition gitstore_Create :: "'w dbtx \<Rightarrow> git_create_input \<Rightarrow> ('w, git_repository) go" where
  "gitstore_Create db inp w =
     (case CreateRepository db \<lparr>rp_ID = toPgUUID (gin_Id inp), rp_Name = gin_Name inp,
             rp_Description = nullable (gin_Description inp), rp_IsPrivate = gin_IsPrivate inp,
             rp_OwnerID = toPgUUID (gin_OwnerID inp), rp_DefaultRef = gin_DefaultRef inp\<rparr> w of
        (Inl e, w') \<Rightarrow> (Inl e, w')
      | (Inr row, w') \<Rightarrow> (Inr (fromSqlcRepo row), w'))"

definition gitstore_GetByID :: "'w dbtx \<Rightarrow> uuid \<Rightarrow> ('w, git_repository) go" where
  "gitstore_GetByID db i w = found git_ErrRepoNotFound fromSqlcRepo (GetRepositoryByID db (toPgUUID i) w)"

text \<open>The loop returns at the first row of the owner that is not deleted.\<close>

fun first_of_owner :: "pg_uuid \<Rightarrow> sqlc_git_repository list \<Rightarrow> git_repository option" where
  "first_of_owner ow [] = None"
| "first_of_owner ow (row # rows) =
     (if sg_OwnerID row = ow \<and> \<not> sg_IsDeleted row then Some (fromSqlcRepo row) else first_of_owner ow rows)"

definition gitstore_GetByName :: "'w dbtx \<Rightarrow> uuid \<Rightarrow> string \<Rightarrow> ('w, git_repository) go" where
  "gitstore_GetByName db ownerID nm w =
     (case GetRepositoryByRepositoryName db nm w of
        (Inl e, w') \<Rightarrow> (Inl e, w')
      | (Inr rows, w') \<Rightarrow>
          (case first_of_owner (toPgUUID ownerID) rows of
             Some g \<Rightarrow> (Inr g, w')
           | None \<Rightarrow> (Inl (Sentinel git_ErrRepoNotFound), w')))"

definition gitstore_ListByOwner :: "'w dbtx \<Rightarrow> uuid \<Rightarrow> ('w, git_repository list) go" where
  "gitstore_ListByOwner db ownerID w =
     (case GetRepositoryByOwnerId db (toPgUUID ownerID) w of
        (Inl e, w') \<Rightarrow> (Inl e, w')
      | (Inr rows, w') \<Rightarrow> (Inr (map fromSqlcRepo (filter (\<lambda>row. \<not> sg_IsDeleted row) rows)), w'))"

definition or_keep :: "'a option \<Rightarrow> 'a \<Rightarrow> 'a" where
  "or_keep new old = (case new of None \<Rightarrow> old | Some x \<Rightarrow> x)"

definition update_params :: "uuid \<Rightarrow> git_repository \<Rightarrow> git_update_input \<Rightarrow> repository_params" where
  "update_params i existing inp =
     (let nm = or_keep (gup_Name inp) (git_Name existing);
          description = or_keep (gup_Description inp) (git_Description existing);
          isPrivate = or_keep (gup_IsPrivate inp) (git_IsPrivate existing);
          ownerID = or_keep (gup_OwnerId inp) (git_OwnerID existing);
          defaultRef = or_keep (gup_DefaultRef inp) (git_DefaultRef existing)
      in \<lparr>rp_ID = toPgUUID i, rp_Name = nm, rp_Description = nullable description, rp_IsPrivate = isPrivate,
          rp_OwnerID = toPgUUID ownerID, rp_DefaultRef = defaultRef\<rparr>)"

definition gitstore_Update :: "'w dbtx \<Rightarrow> uuid \<Rightarrow> git_update_input \<Rightarrow> ('w, git_repository) go" where
  "gitstore_Update db i inp w =
     (case gitstore_GetByID db i w of
        (Inl e, w1) \<Rightarrow> (Inl e, w1)
      | (Inr existing, w1) \<Rightarrow>
     (case UpdateRepository db (update_params i existing inp) w1 of
        (Some e, w2) \<Rightarrow> (Inl e, w2)
      | (None, w2) \<Rightarrow> gitstore_GetByID db i w2))"

definition gitstore_SoftDelete :: "'w dbtx \<Rightarrow> uuid \<Rightarrow> 'w go_err" where
  "gitstore_SoftDelete db i w = (case SoftDeleteRepository db (toPgUUID i) w of (r, w') \<Rightarrow> (err_of r, w'))"

definition gitstore_Delete :: "'w dbtx \<Rightarrow> uuid \<Rightarrow> 'w go_err" where
  "gitstore_Delete db i = gitstore_SoftDelete db i"

definition git_store :: "'w dbtx \<Rightarrow> 'w git_Repository" where
  "git_store db = \<lparr>gr_Create = gitstore_Create db, gr_GetByID = gitstore_GetByID db,
     gr_GetByName = gitstore_GetByName db, gr_ListByOwner = gitstore_ListByOwner db,
     gr_Update = gitstore_Update db, gr_SoftDelete = gitstore_SoftDelete db, gr_Delete = gitstore_Delete db\<rparr>"

section \<open>Service\<close>

text \<open>
  go-git as the service calls it. A storage is opened at a path; its references and its commits are
  iterated in an order of its own, and an iteration may end with an error after some elements. The
  transports read their input and give the bytes they wrote, with the error they ended in if any.
\<close>

record git_ref =
  gref_Name :: string
  gref_Hash :: string
  gref_Target :: string

record 'w git_lib =
  uuid_New :: "'w \<Rightarrow> uuid \<times> 'w"
  PlainInit :: "string \<Rightarrow> bool \<Rightarrow> string option \<Rightarrow> 'w go_err"
  Stat :: "string \<Rightarrow> string \<Rightarrow> 'w go_err"
  IterReferences :: "string \<Rightarrow> ('w, git_ref list \<times> gerror option) go"
  IterCommits :: "string \<Rightarrow> ('w, nat \<times> gerror option) go"
  HeadHash :: "string \<Rightarrow> ('w, string option) go"
  GetCommitTime :: "string \<Rightarrow> string \<Rightarrow> ('w, int) go"
  IsBranch :: "string \<Rightarrow> bool"
  IsTag :: "string \<Rightarrow> bool"
  transport_UploadPack :: "string \<Rightarrow> bool \<Rightarrow> bool \<Rightarrow> string \<Rightarrow> 'w \<Rightarrow> (string \<times> gerror option) \<times> 'w"
  transport_ReceivePack :: "string \<Rightarrow> bool \<Rightarrow> string \<Rightarrow> 'w \<Rightarrow> (string \<times> gerror option) \<times> 'w"

definition git_Create ::
  "'w git_lib \<Rightarrow> string \<Rightarrow> git_create_input \<Rightarrow> ('w, git_repository) go" where
  "git_Create lib reposDir inp w =
     (if \<not> validRepoName (gin_Name inp)
      then (Inl (Wrap (gin_Name inp) (Sentinel git_ErrInvalidRepoName)), w)
      else case uuid_New lib w of
        (i, w1) \<Rightarrow>
          (let repo = zero_repository\<lparr>git_ID := i, git_Name := gin_Name inp,
                  git_Description := gin_Description inp, git_IsPrivate := gin_IsPrivate inp,
                  git_OwnerID := gin_OwnerID inp, git_DefaultRef := gin_DefaultRef inp\<rparr>;
               path = RepoPath reposDir (git_Name repo);
               branch = (if git_DefaultRef repo \<noteq> [] then Some (git_DefaultRef repo) else None)
           in case PlainInit lib path True branch w1 of
                (Some e, w2) \<Rightarrow> (Inl (Wrap ''init bare repo'' e), w2)
              | (None, w2) \<Rightarrow> (Inr repo, w2)))"

definition git_GetByID :: "uuid \<Rightarrow> ('w, git_repository) go" where
  "git_GetByID i w = (Inl (Wrap ''lookup by ID not implemented'' (Sentinel git_ErrRepoNotFound)), w)"

definition git_GetByName ::
  "'w git_lib \<Rightarrow> string \<Rightarrow> uuid \<Rightarrow> string \<Rightarrow> ('w, git_repository) go" where
  "git_GetByName lib reposDir ownerID nm w =
     (case uuid_New lib w of
        (i, w1) \<Rightarrow>
          (let repo = zero_repository\<lparr>git_ID := i, git_Name := nm, git_OwnerID := ownerID\<rparr> in
           case Stat lib (RepoPath reposDir (git_Name repo)) ''config'' w1 of
             (Some e, w2) \<Rightarrow> (Inl (Wrap nm (Sentinel git_ErrRepoNotFound)), w2)
           | (None, w2) \<Rightarrow> (Inr repo, w2)))"

definition git_ListByOwner :: "uuid \<Rightarrow> ('w, git_repository list) go" where
  "git_ListByOwner ownerID w = (Inl (Opaque ''list by owner: not implemented without database''), w)"

definition git_Update :: "uuid \<Rightarrow> git_update_input \<Rightarrow> ('w, git_repository) go" where
  "git_Update i inp w = (Inl (Opaque ''update: not implemented without database''), w)"

definition git_Delete :: "uuid \<Rightarrow> 'w go_err" where
  "git_Delete i w = (Some (Opaque ''delete: not implemented without database''), w)"

definition ref_info_of :: "git_ref \<Rightarrow> ref_info" where
  "ref_info_of r = \<lparr>ref_Name = gref_Name r, ref_Hash = gref_Hash r,
     ref_Peeled = (if gref_Target r \<noteq> [] then gref_Target r else [])\<rparr>"

definition GetRefs :: "'w git_lib \<Rightarrow> string \<Rightarrow> git_repository \<Rightarrow> ('w, ref_info list) go" where
  "GetRefs lib reposDir repo w =
     (case IterReferences lib (RepoPath reposDir (git_Name repo)) w of
        (Inl e, w1) \<Rightarrow> (Inl (Wrap ''iter references'' e), w1)
      | (Inr (refs, Some e), w1) \<Rightarrow> (Inl (Wrap ''walk references'' e), w1)
      | (Inr (refs, None), w1) \<Rightarrow> (Inr (map ref_info_of refs), w1))"

fun count_refs :: "'w git_lib \<Rightarrow> git_ref list \<Rightarrow> repo_stats \<Rightarrow> repo_stats" where
  "count_refs lib [] st = st"
| "count_refs lib (r # rs) st =
     (let st1 = (if IsBranch lib (gref_Name r) then st\<lparr>BranchCount := BranchCount st + 1\<rparr> else st);
          st2 = (if IsTag lib (gref_Name r) then st1\<lparr>TagCount := TagCount st1 + 1\<rparr> else st1)
      in count_refs lib rs st2)"

text \<open>Every failure while gathering the numbers is ignored; what was counted before it stays.\<close>

definition GetStats :: "'w git_lib \<Rightarrow> string \<Rightarrow> git_repository \<Rightarrow> ('w, repo_stats) go" where
  "GetStats lib reposDir repo w =
     (let path = RepoPath reposDir (git_Name repo);
          st0 = \<lparr>BranchCount = 0, TagCount = 0, CommitCount = 0, SizeBytes = 0, LastCommitTime = 0\<rparr> in
      case IterReferences lib path w of (r1, w1) \<Rightarrow>
        (let st1 = (case r1 of Inr (refs, _) \<Rightarrow> count_refs lib refs st0 | Inl _ \<Rightarrow> st0) in
      case IterCommits lib path w1 of (r2, w2) \<Rightarrow>
        (let st2 = (case r2 of Inr (n, _) \<Rightarrow> st1\<lparr>CommitCount := CommitCount st1 + int n\<rparr> | Inl _ \<Rightarrow> st1) in
      case HeadHash lib path w2 of
        (Inr (Some h), w3) \<Rightarrow>
          (case GetCommitTime lib path h w3 of
             (Inr t, w4) \<Rightarrow> (Inr (st2\<lparr>LastCommitTime := t\<rparr>), w4)
           | (Inl _, w4) \<Rightarrow> (Inr st2, w4))
      | (_, w3) \<Rightarrow> (Inr st2, w3))))"

definition Exists :: "'w git_lib \<Rightarrow> string \<Rightarrow> git_repository \<Rightarrow> 'w \<Rightarrow> bool \<times> 'w" where
  "Exists lib reposDir repo w =
     (case Stat lib (RepoPath reposDir (git_Name repo)) ''config'' w of (e, w') \<Rightarrow> (e = None, w'))"

record upload_pack_request =
  up_RepoPath :: string
  up_Adverts :: bool
  up_StatelessRPC :: bool

record receive_pack_request =
  rcv_RepoPath :: string
  rcv_StatelessRPC :: bool

definition UploadPack ::
  "'w git_lib \<Rightarrow> string \<Rightarrow> upload_pack_request \<Rightarrow> string \<Rightarrow> 'w \<Rightarrow> (string \<times> gerror option) \<times> 'w" where
  "UploadPack lib reposDir req =
     transport_UploadPack lib (RepoPath reposDir (repoNameFromPath (up_RepoPath req)))
       (up_StatelessRPC req) (up_Adverts req)"

definition ReceivePack ::
  "'w git_lib \<Rightarrow> string \<Rightarrow> receive_pack_request \<Rightarrow> string \<Rightarrow> 'w \<Rightarrow> (string \<times> gerror option) \<times> 'w" where
  "ReceivePack lib reposDir req =
     transport_ReceivePack lib (RepoPath reposDir (repoNameFromPath (rcv_RepoPath req))) (rcv_StatelessRPC req)"

section \<open>Contract of the records\<close>

definition live_repos :: "uuid \<Rightarrow> git_repository list \<Rightarrow> git_repository list" where
  "live_repos ow gs = filter (\<lambda>g. git_OwnerID g = ow \<and> \<not> git_IsDeleted g) gs"

definition created_repo :: "git_create_input \<Rightarrow> git_repository \<Rightarrow> bool" where
  "created_repo inp g \<longleftrightarrow> git_ID g = gin_Id inp \<and> git_Name g = gin_Name inp \<and>
     git_Description g = gin_Description inp \<and> git_IsPrivate g = gin_IsPrivate inp \<and>
     git_OwnerID g = gin_OwnerID inp \<and> git_DefaultRef g = gin_DefaultRef inp \<and>
     \<not> git_IsDeleted g \<and> git_Head g = []"

text \<open>\<open>g'\<close> is \<open>g\<close> with the fields of the input that are given, at time \<open>t\<close>.\<close>

definition updated_repo :: "git_update_input \<Rightarrow> int \<Rightarrow> git_repository \<Rightarrow> git_repository" where
  "updated_repo inp t g = g\<lparr>git_Name := or_keep (gup_Name inp) (git_Name g),
     git_Description := or_keep (gup_Description inp) (git_Description g),
     git_IsPrivate := or_keep (gup_IsPrivate inp) (git_IsPrivate g),
     git_OwnerID := or_keep (gup_OwnerId inp) (git_OwnerID g),
     git_DefaultRef := or_keep (gup_DefaultRef inp) (git_DefaultRef g), git_UpdatedAt := t\<rparr>"

definition change_repo :: "uuid \<Rightarrow> (git_repository \<Rightarrow> git_repository) \<Rightarrow> git_repository list \<Rightarrow> git_repository list" where
  "change_repo i f gs = map (\<lambda>g. if git_ID g = i then f g else g) gs"

definition deleted_repo :: "int \<Rightarrow> git_repository \<Rightarrow> git_repository" where
  "deleted_repo t g = g\<lparr>git_IsDeleted := True, git_UpdatedAt := t\<rparr>"

lemma deleted_repo_simps [simp]:
  "git_ID (deleted_repo t g) = git_ID g" "git_IsDeleted (deleted_repo t g)"
  by (simp_all add: deleted_repo_def)

lemma change_repo_others:
  assumes "\<And>g. git_ID (f g) = git_ID g"
  shows "filter (\<lambda>g. git_ID g \<noteq> i) (change_repo i f gs) = filter (\<lambda>g. git_ID g \<noteq> i) gs"
  using assms by (induction gs) (simp_all add: change_repo_def)

lemma change_repo_same:
  assumes "\<And>g. git_ID (f g) = git_ID g"
  shows "filter (\<lambda>g. git_ID g = i) (change_repo i f gs) = map f (filter (\<lambda>g. git_ID g = i) gs)"
  using assms by (induction gs) (simp_all add: change_repo_def)

locale git_records =
  fixes repo :: "'w git_Repository" and repos :: "'w \<Rightarrow> git_repository list" and ok :: "'w \<Rightarrow> bool"
  assumes create_ok: "ok w \<Longrightarrow> gr_Create repo inp w = (Inr g, w') \<Longrightarrow>
        created_repo inp g \<and> (\<forall>h \<in> set (repos w). git_ID h \<noteq> git_ID g) \<and> repos w' = repos w @ [g]"
    and get_ok: "ok w \<Longrightarrow> gr_GetByID repo i w = (Inr g, w') \<Longrightarrow> filter (\<lambda>g. git_ID g = i) (repos w) = [g]"
    and get_missing: "ok w \<Longrightarrow> gr_GetByID repo i w = (Inl e, w') \<Longrightarrow> errors_is e git_ErrRepoNotFound \<Longrightarrow>
        filter (\<lambda>g. git_ID g = i) (repos w) = []"
    and by_name_ok: "ok w \<Longrightarrow> gr_GetByName repo ow nm w = (Inr g, w') \<Longrightarrow>
        g \<in> set (live_repos ow (repos w)) \<and> git_Name g = nm"
    and by_name_missing: "ok w \<Longrightarrow> gr_GetByName repo ow nm w = (Inl e, w') \<Longrightarrow>
        errors_is e git_ErrRepoNotFound \<Longrightarrow> \<forall>g \<in> set (live_repos ow (repos w)). git_Name g \<noteq> nm"
    and list_ok: "ok w \<Longrightarrow> gr_ListByOwner repo ow w = (Inr gs, w') \<Longrightarrow> gs = live_repos ow (repos w)"
    and update_ok: "ok w \<Longrightarrow> gr_Update repo i chg w = (Inr g, w') \<Longrightarrow>
        \<exists>t. repos w' = change_repo i (updated_repo chg t) (repos w) \<and>
            filter (\<lambda>g. git_ID g = i) (repos w') = [g]"
    and delete_ok: "ok w \<Longrightarrow> gr_Delete repo i w = (None, w') \<Longrightarrow>
        (\<exists>g \<in> set (repos w). git_ID g = i) \<and> (\<exists>t. repos w' = change_repo i (deleted_repo t) (repos w))"
    and keeps_ok: "ok w \<Longrightarrow> ok (snd (gr_Delete repo i w))"

section \<open>The store meets it\<close>

definition pg_repos :: "tables \<Rightarrow> git_repository list" where
  "pg_repos t = map fromSqlcRepo (t_git_repository t)"

lemma fromSqlcRepo_simps [simp]:
  "git_ID (fromSqlcRepo g) = fromPgUUID (sg_ID g)" "git_OwnerID (fromSqlcRepo g) = fromPgUUID (sg_OwnerID g)"
  "git_IsDeleted (fromSqlcRepo g) = sg_IsDeleted g" "git_Name (fromSqlcRepo g) = sg_Name g"
  by (simp_all add: fromSqlcRepo_def)

lemma schema_ok_repo:
  "schema_ok t \<Longrightarrow> g \<in> set (t_git_repository t) \<Longrightarrow> UuidValid (sg_ID g) \<and> UuidValid (sg_OwnerID g)"
  by (auto simp: schema_ok_def refs_ok_def list_all_iff dest: user_exists_valid)

lemma repos_with_id:
  assumes "schema_ok t"
  shows "filter (\<lambda>g. git_ID g = i) (pg_repos t) =
    map fromSqlcRepo (filter (\<lambda>g. sg_ID g = toPgUUID i) (t_git_repository t))"
proof -
  have "filter (\<lambda>g. fromPgUUID (sg_ID g) = i) (t_git_repository t) =
      filter (\<lambda>g. sg_ID g = toPgUUID i) (t_git_repository t)"
    by (rule filter_cong [OF refl]) (simp add: fromPgUUID_eq schema_ok_repo [OF assms])
  then show ?thesis by (simp add: pg_repos_def filter_map comp_def)
qed

lemma live_repos_pg:
  assumes "schema_ok t"
  shows "live_repos ow (pg_repos t) =
    map fromSqlcRepo (filter (\<lambda>g. sg_OwnerID g = toPgUUID ow \<and> \<not> sg_IsDeleted g) (t_git_repository t))"
proof -
  have "filter (\<lambda>g. fromPgUUID (sg_OwnerID g) = ow \<and> \<not> sg_IsDeleted g) (t_git_repository t) =
      filter (\<lambda>g. sg_OwnerID g = toPgUUID ow \<and> \<not> sg_IsDeleted g) (t_git_repository t)"
    by (rule filter_cong [OF refl]) (simp add: fromPgUUID_eq schema_ok_repo [OF assms])
  then show ?thesis by (simp add: live_repos_def pg_repos_def filter_map comp_def)
qed

lemma repo_single:
  assumes "schema_ok t" "filter (\<lambda>g. sg_ID g = toPgUUID i) (t_git_repository t) = y # ys"
  shows "ys = []"
proof -
  have "length (filter (\<lambda>g. sg_ID g = toPgUUID i) (t_git_repository t)) \<le> 1"
    using assms(1) by (intro unique_on_at_most_one [where k = sg_ID and v = "toPgUUID i"])
      (simp_all add: schema_ok_def keys_ok_def)
  with assms(2) show ?thesis by simp
qed

lemma createRepository_sem:
  assumes "schema_ok t"
    and "sql_sem createRepository now (repository_args \<lparr>rp_ID = toPgUUID (gin_Id inp), rp_Name = gin_Name inp,
             rp_Description = nullable (gin_Description inp), rp_IsPrivate = gin_IsPrivate inp,
             rp_OwnerID = toPgUUID (gin_OwnerID inp), rp_DefaultRef = gin_DefaultRef inp\<rparr>) t = (Inr rows, t')"
  shows "\<exists>r. rows = [row_repository r] \<and> created_repo inp (fromSqlcRepo r) \<and>
    (\<forall>h \<in> set (pg_repos t). git_ID h \<noteq> git_ID (fromSqlcRepo r)) \<and> pg_repos t' = pg_repos t @ [fromSqlcRepo r]"
proof -
  let ?r = "\<lparr>sg_ID = toPgUUID (gin_Id inp), sg_Name = gin_Name inp, sg_Description = nullable (gin_Description inp),
    sg_IsPrivate = gin_IsPrivate inp, sg_IsDeleted = False, sg_CreatedAt = at_time now, sg_UpdatedAt = at_time now,
    sg_OwnerID = toPgUUID (gin_OwnerID inp), sg_DefaultRef = gin_DefaultRef inp, sg_Head = []\<rparr>"
  from assms(2) have r: "rows = [row_repository ?r]" "t' = t\<lparr>t_git_repository := t_git_repository t @ [?r]\<rparr>"
    "list_all (\<lambda>g. sg_ID g \<noteq> toPgUUID (gin_Id inp)) (t_git_repository t)"
    by (auto simp: repository_args_def ins_repository_def Let_def split: if_splits)
  have "created_repo inp (fromSqlcRepo ?r)" by (simp add: created_repo_def fromSqlcRepo_def nullable_def)
  moreover have "\<forall>h \<in> set (pg_repos t). git_ID h \<noteq> git_ID (fromSqlcRepo ?r)"
    using r(3) schema_ok_repo [OF assms(1)] fromPgUUID_eq by (fastforce simp: pg_repos_def list_all_iff)
  ultimately show ?thesis using r(1,2) by (intro exI [of _ ?r]) (simp add: pg_repos_def)
qed

lemma softDelete_sem:
  assumes "schema_ok t" "sql_sem softDeleteRepository now [VUuid (toPgUUID i)] t = (Inr (row # rows), t')"
  shows "(\<exists>g \<in> set (pg_repos t). git_ID g = i) \<and> pg_repos t' = change_repo i (deleted_repo now) (pg_repos t)"
proof -
  have i: "sg_ID g = toPgUUID i \<longleftrightarrow> fromPgUUID (sg_ID g) = i" if "g \<in> set (t_git_repository t)" for g
    using schema_ok_repo [OF assms(1) that] by (simp add: fromPgUUID_eq)
  have "fromSqlcRepo (soft_deleted now g) = deleted_repo now (fromSqlcRepo g)" for g
    by (simp add: soft_deleted_def deleted_repo_def fromSqlcRepo_def at_time_def)
  then have "pg_repos t' = change_repo i (deleted_repo now) (pg_repos t)"
    using assms(2) i by (auto simp: soft_del_repository_def pg_repos_def change_repo_def)
  moreover have "filter (\<lambda>g. sg_ID g = toPgUUID i) (t_git_repository t) \<noteq> []"
    using assms(2) by (auto simp: soft_del_repository_def)
  ultimately show ?thesis using i by (fastforce simp: pg_repos_def filter_empty_conv)
qed

lemma update_sem:
  assumes "schema_ok t" "filter (\<lambda>g. git_ID g = i) (pg_repos t) = [g]"
    and "sql_sem updateRepository now (repository_args (update_params i g chg)) t = (Inr rows, t')"
  shows "pg_repos t' = change_repo i (updated_repo chg now) (pg_repos t)"
proof -
  let ?p = "update_params i g chg"
  let ?f = "\<lambda>r. r\<lparr>sg_UpdatedAt := at_time now, sg_Name := rp_Name ?p, sg_Description := rp_Description ?p,
     sg_IsPrivate := rp_IsPrivate ?p, sg_OwnerID := rp_OwnerID ?p, sg_DefaultRef := rp_DefaultRef ?p\<rparr>"
  have t': "t' = t\<lparr>t_git_repository := map (\<lambda>r. if sg_ID r = toPgUUID i then ?f r else r) (t_git_repository t)\<rparr>"
    using assms(3) by (auto simp: repository_args_def update_params_def upd_repository_def Let_def split: if_splits)
  have "fromSqlcRepo (if sg_ID r = toPgUUID i then ?f r else r) =
      (if git_ID (fromSqlcRepo r) = i then updated_repo chg now (fromSqlcRepo r) else fromSqlcRepo r)"
    if r: "r \<in> set (t_git_repository t)" for r
  proof (cases "sg_ID r = toPgUUID i")
    case True
    then have "fromSqlcRepo r \<in> set (filter (\<lambda>g. git_ID g = i) (pg_repos t))" using r by (simp add: pg_repos_def)
    then have "fromSqlcRepo r = g" using assms(2) by simp
    with True show ?thesis
      by (auto simp: update_params_def updated_repo_def nullable_def fromSqlcRepo_def at_time_def Let_def)
  next
    case False
    with schema_ok_repo [OF assms(1) r] show ?thesis by (simp add: fromPgUUID_eq)
  qed
  then show ?thesis by (auto simp: t' pg_repos_def change_repo_def)
qed

lemma first_of_owner_Some:
  "first_of_owner ow rows = Some g \<Longrightarrow>
     \<exists>r \<in> set rows. sg_OwnerID r = ow \<and> \<not> sg_IsDeleted r \<and> g = fromSqlcRepo r"
  by (induction rows) (auto split: if_splits)

lemma first_of_owner_None:
  "first_of_owner ow rows = None \<longleftrightarrow> (\<forall>r \<in> set rows. sg_OwnerID r = ow \<longrightarrow> sg_IsDeleted r)"
  by (induction rows) auto

context postgres
begin

lemma gitstore_GetByID_ok:
  assumes "schema_ok (tbl w)" "gitstore_GetByID db i w = (Inr g, w')"
  shows "filter (\<lambda>g. git_ID g = i) (pg_repos (tbl w)) = [g] \<and> tbl w' = tbl w"
proof -
  have f: "found git_ErrRepoNotFound fromSqlcRepo (query_one db getRepositoryByID scan_repository [VUuid (toPgUUID i)] w) = (Inr g, w')"
    using assms(2) by (simp add: gitstore_GetByID_def GetRepositoryByID_def)
  from found_ok [OF selects_repositories(1) scan_row(5) f] obtain y ys where
    y: "filter (\<lambda>g. sg_ID g = toPgUUID i) (t_git_repository (tbl w)) = y # ys" "g = fromSqlcRepo y"
    by auto
  have "tbl w' = tbl w"
    using select_frame(1) [OF selects_repositories(1), of scan_repository "toPgUUID i" w] f
    by (metis snd_conv snd_found)
  with y repo_single [OF assms(1) y(1)] show ?thesis by (simp add: repos_with_id [OF assms(1)])
qed

lemma gitstore_Update_ok:
  assumes "schema_ok (tbl w)" "gitstore_Update db i chg w = (Inr g, w')"
  shows "\<exists>t. pg_repos (tbl w') = change_repo i (updated_repo chg t) (pg_repos (tbl w)) \<and>
    filter (\<lambda>g. git_ID g = i) (pg_repos (tbl w')) = [g]"
proof -
  from assms(2) obtain old w1 w2 where g1: "gitstore_GetByID db i w = (Inr old, w1)"
    and u: "Exec db updateRepository (repository_args (update_params i old chg)) w1 = (None, w2)"
    and g2: "gitstore_GetByID db i w2 = (Inr g, w')"
    by (auto simp: gitstore_Update_def UpdateRepository_def split: prod.splits sum.splits option.splits)
  note o = gitstore_GetByID_ok [OF assms(1) g1]
  obtain rows where sem: "sql_sem updateRepository (clock w1) (repository_args (update_params i old chg)) (tbl w) = (Inr rows, tbl w2)"
    using exec_ok [OF u] o by auto
  have "schema_ok (tbl w2)" using schema_ok_step(3) [OF u] o assms(1) by simp
  note n = gitstore_GetByID_ok [OF this g2]
  from update_sem [OF assms(1) _ sem] o n show ?thesis by auto
qed

lemma gitstore_SoftDelete_ok:
  assumes "schema_ok (tbl w)" "gitstore_SoftDelete db i w = (None, w')"
  shows "(\<exists>g \<in> set (pg_repos (tbl w)). git_ID g = i) \<and>
    (\<exists>t. pg_repos (tbl w') = change_repo i (deleted_repo t) (pg_repos (tbl w)))"
proof -
  from assms(2) obtain x where "query_one db softDeleteRepository scan_repository [VUuid (toPgUUID i)] w = (Inr x, w')"
    by (auto simp: gitstore_SoftDelete_def SoftDeleteRepository_def split: prod.splits)
  from query_one_ok [OF this] show ?thesis using softDelete_sem [OF assms(1)] by blast
qed

lemma gitstore_Create_ok:
  assumes "schema_ok (tbl w)" "gitstore_Create db inp w = (Inr g, w')"
  shows "created_repo inp g \<and> (\<forall>h \<in> set (pg_repos (tbl w)). git_ID h \<noteq> git_ID g) \<and>
    pg_repos (tbl w') = pg_repos (tbl w) @ [g]"
  using assms(2) createRepository_sem [OF assms(1), of "clock w" inp]
  by (fastforce simp: gitstore_Create_def CreateRepository_def simp del: sql_sem.simps
      split: prod.splits sum.splits dest!: query_one_ok)

end

sublocale postgres \<subseteq> pg_git: git_records "git_store db" "\<lambda>w. pg_repos (tbl w)" "\<lambda>w. schema_ok (tbl w)"
proof unfold_locales
  fix w w' i ow nm e g gs
  assume ok: "schema_ok (tbl w)"
  note by_name = select_many_ok [OF selects_repositories(3) scan_row(5)]
    and by_owner = select_many_ok [OF selects_repositories(2) scan_row(5)]
  show "gr_GetByID (git_store db) i w = (Inr g, w') \<Longrightarrow> filter (\<lambda>g. git_ID g = i) (pg_repos (tbl w)) = [g]"
    using gitstore_GetByID_ok [OF ok] by (simp add: git_store_def)
  show "gr_GetByID (git_store db) i w = (Inl e, w') \<Longrightarrow> errors_is e git_ErrRepoNotFound \<Longrightarrow>
      filter (\<lambda>g. git_ID g = i) (pg_repos (tbl w)) = []"
    using found_none [OF selects_repositories(1)]
    by (fastforce simp: git_store_def gitstore_GetByID_def GetRepositoryByID_def repos_with_id [OF ok])
  show "gr_GetByName (git_store db) ow nm w = (Inr g, w') \<Longrightarrow>
      g \<in> set (live_repos ow (pg_repos (tbl w))) \<and> git_Name g = nm"
    by (auto simp: git_store_def gitstore_GetByName_def GetRepositoryByRepositoryName_def live_repos_pg [OF ok]
        split: prod.splits sum.splits option.splits dest!: by_name first_of_owner_Some)
  show "gr_GetByName (git_store db) ow nm w = (Inl e, w') \<Longrightarrow> errors_is e git_ErrRepoNotFound \<Longrightarrow>
      \<forall>g \<in> set (live_repos ow (pg_repos (tbl w))). git_Name g \<noteq> nm"
    by (auto simp: git_store_def gitstore_GetByName_def GetRepositoryByRepositoryName_def live_repos_pg [OF ok]
        first_of_owner_None split: prod.splits sum.splits option.splits dest!: by_name query_many_foreign)
  show "gr_ListByOwner (git_store db) ow w = (Inr gs, w') \<Longrightarrow> gs = live_repos ow (pg_repos (tbl w))"
    by (auto simp: git_store_def gitstore_ListByOwner_def GetRepositoryByOwnerId_def live_repos_pg [OF ok]
        conj_commute split: prod.splits sum.splits dest!: by_owner)
  show "schema_ok (tbl (snd (gr_Delete (git_store db) i w)))"
    using ok by (auto simp: git_store_def gitstore_Delete_def gitstore_SoftDelete_def SoftDeleteRepository_def
        split: prod.splits dest: schema_ok_step(1))
  show "gr_Update (git_store db) i chg w = (Inr g, w') \<Longrightarrow>
      \<exists>t. pg_repos (tbl w') = change_repo i (updated_repo chg t) (pg_repos (tbl w)) \<and>
          filter (\<lambda>g. git_ID g = i) (pg_repos (tbl w')) = [g]" for chg
    using gitstore_Update_ok [OF ok] by (simp add: git_store_def)
qed (auto simp: git_store_def gitstore_Delete_def gitstore_Create_ok dest: gitstore_SoftDelete_ok)

section \<open>The directories\<close>

text \<open>
  What the service relies on of go-git: \<open>PlainInit\<close> makes a bare repository at a path that holds
  none and fails at one that does, and a repository is recognised by its file \<open>config\<close>. While the
  disk \<open>works\<close>, what is there is found.
\<close>

locale git_files =
  fixes lib :: "'w git_lib" and dirs :: "'w \<Rightarrow> string set" and works :: "'w \<Rightarrow> bool"
  assumes init_ok: "PlainInit lib p True b w = (None, w') \<Longrightarrow> p \<notin> dirs w \<and> dirs w' = insert p (dirs w)"
    and init_err: "PlainInit lib p True b w = (Some e, w') \<Longrightarrow>
        foreign e \<and> dirs w' \<in> {dirs w, insert p (dirs w)}"
    and stat_ok: "Stat lib p ''config'' w = (None, w') \<Longrightarrow> p \<in> dirs w"
    and stat_works: "works w \<Longrightarrow> p \<in> dirs w \<Longrightarrow> fst (Stat lib p ''config'' w) = None"
    and frame: "dirs (snd (Stat lib p f w)) = dirs w" "dirs (snd (uuid_New lib w)) = dirs w"
    and stays: "works w \<Longrightarrow> works (snd (uuid_New lib w))"
begin

lemma create_ok:
  assumes "git_Create lib dir inp w = (Inr g, w')"
  shows "validRepoName (gin_Name inp) \<and> git_Name g = gin_Name inp \<and> git_OwnerID g = gin_OwnerID inp \<and>
    git_Description g = gin_Description inp \<and> git_IsPrivate g = gin_IsPrivate inp \<and>
    git_DefaultRef g = gin_DefaultRef inp \<and>
    RepoPath dir (git_Name g) \<notin> dirs w \<and> dirs w' = insert (RepoPath dir (git_Name g)) (dirs w)"
  using assms frame(2) [of w]
  by (auto simp: git_Create_def Let_def split: if_splits prod.splits option.splits dest!: init_ok)

lemma create_taken:
  assumes "RepoPath dir (gin_Name inp) \<in> dirs w"
  shows "\<exists>e. fst (git_Create lib dir inp w) = Inl e"
proof (cases "git_Create lib dir inp w")
  case (Pair r w')
  show ?thesis
  proof (cases r)
    case (Inr g)
    with Pair assms create_ok [of dir inp w g w'] show ?thesis by metis
  qed (use Pair in simp)
qed

lemma create_dirs:
  "dirs (snd (git_Create lib dir inp w)) \<in> {dirs w, insert (RepoPath dir (gin_Name inp)) (dirs w)}"
  using frame(2) [of w]
  by (auto simp: git_Create_def Let_def split: prod.splits option.splits dest!: init_ok init_err)

lemma get_by_name_iff:
  assumes "works w"
  shows "(\<exists>g. fst (git_GetByName lib dir ow nm w) = Inr g) \<longleftrightarrow> RepoPath dir nm \<in> dirs w"
proof -
  obtain i w1 where n: "uuid_New lib w = (i, w1)" by (cases "uuid_New lib w")
  obtain e w2 where st: "Stat lib (RepoPath dir nm) ''config'' w1 = (e, w2)"
    by (cases "Stat lib (RepoPath dir nm) ''config'' w1")
  have "works w1" "dirs w1 = dirs w" using n stays [OF assms] frame(2) [of w] by auto
  then have "e = None \<longleftrightarrow> RepoPath dir nm \<in> dirs w"
    using st stat_ok stat_works [of w1 "RepoPath dir nm"] by auto
  then show ?thesis by (cases e) (simp_all add: git_GetByName_def n st)
qed

lemma get_by_name_result:
  "git_GetByName lib dir ow nm w = (Inr g, w') \<Longrightarrow> git_Name g = nm \<and> git_OwnerID g = ow"
  "git_GetByName lib dir ow nm w = (Inl e, w') \<Longrightarrow> errors_is e git_ErrRepoNotFound"
  by (auto simp: git_GetByName_def Let_def split: prod.splits option.splits)

lemma exists_iff:
  assumes "works w"
  shows "fst (Exists lib dir g w) \<longleftrightarrow> RepoPath dir (git_Name g) \<in> dirs w"
  using stat_works [OF assms, of "RepoPath dir (git_Name g)"]
  by (auto simp: Exists_def split: prod.splits dest: stat_ok)

end

lemma count_refs:
  "count_refs lib rs st = st\<lparr>BranchCount := BranchCount st + int (length (filter (\<lambda>r. IsBranch lib (gref_Name r)) rs)),
     TagCount := TagCount st + int (length (filter (\<lambda>r. IsTag lib (gref_Name r)) rs))\<rparr>"
  by (induction lib rs st rule: count_refs.induct) (simp_all add: Let_def)

text \<open>The disk of the simulated world.\<close>

definition sim_git :: "sim git_lib" where
  "sim_git = \<lparr>
     uuid_New = (\<lambda>w. (word_of_nat (sim_seed w), (tick w)\<lparr>sim_seed := sim_seed w + 1\<rparr>)),
     PlainInit = (\<lambda>p bare b w. if faulty w \<or> p \<in> set (sim_dirs w) then (Some sim_error, tick w)
                               else (None, (tick w)\<lparr>sim_dirs := p # sim_dirs w\<rparr>)),
     Stat = (\<lambda>p f w. if \<not> faulty w \<and> f = ''config'' \<and> p \<in> set (sim_dirs w) then (None, tick w)
                     else (Some sim_error, tick w)),
     IterReferences = (\<lambda>p w. (Inr ([\<lparr>gref_Name = ''HEAD'', gref_Hash = [], gref_Target = ''refs/heads/main''\<rparr>,
         \<lparr>gref_Name = ''refs/heads/main'', gref_Hash = ''1f'', gref_Target = []\<rparr>], None), tick w)),
     IterCommits = (\<lambda>p w. (Inr (1, None), tick w)),
     HeadHash = (\<lambda>p w. (Inr (Some ''1f''), tick w)),
     GetCommitTime = (\<lambda>p h w. (Inr 7, tick w)),
     IsBranch = (\<lambda>r. take 11 r = ''refs/heads/''),
     IsTag = (\<lambda>r. take 10 r = ''refs/tags/''),
     transport_UploadPack = (\<lambda>p s a inp w. ((''0000'', None), tick w)),
     transport_ReceivePack = (\<lambda>p s inp w. ((''0000'', None), tick w))\<rparr>"

lemma sim_dirs_tick [simp]: "sim_dirs (tick w) = sim_dirs w"
  by (simp add: tick_def)

interpretation sim_git: git_files sim_git "\<lambda>w. set (sim_dirs w)" sim_up
  by unfold_locales (auto simp: sim_git_def sim_error_def split: if_splits)

section \<open>Properties\<close>

context backend
begin

lemmas git_laws = pg_git.create_ok pg_git.get_ok pg_git.get_missing pg_git.by_name_ok pg_git.by_name_missing
  pg_git.list_ok pg_git.update_ok pg_git.delete_ok pg_git.keeps_ok

end

lemma git_store_simps [simp]:
  "gr_Create (git_store db) = gitstore_Create db" "gr_GetByID (git_store db) = gitstore_GetByID db"
  "gr_GetByName (git_store db) = gitstore_GetByName db" "gr_ListByOwner (git_store db) = gitstore_ListByOwner db"
  "gr_Update (git_store db) = gitstore_Update db" "gr_Delete (git_store db) = gitstore_Delete db"
  by (simp_all add: git_store_def)

text \<open>
  The records the store lists for an owner are that owner's and not deleted, in the order of
  their creation, all of them; one found by name is among them and has that name, and when it
  reports \<open>ErrRepoNotFound\<close> there is none.
\<close>

theorem git_list_and_lookup:
  assumes "backend db tbl clock up rc kv ut ent bc" "schema_ok (tbl w)"
  shows "(gitstore_ListByOwner db ow w = (Inr gs, w') \<longrightarrow>
       gs = filter (\<lambda>g. git_OwnerID g = ow \<and> \<not> git_IsDeleted g) (pg_repos (tbl w))) \<and>
    (gitstore_GetByName db ow nm w = (Inr g, w') \<longrightarrow>
       g \<in> set (pg_repos (tbl w)) \<and> git_OwnerID g = ow \<and> \<not> git_IsDeleted g \<and> git_Name g = nm) \<and>
    (gitstore_GetByName db ow nm w = (Inl (Sentinel git_ErrRepoNotFound), w') \<longrightarrow>
       (\<forall>g \<in> set (pg_repos (tbl w)). git_OwnerID g = ow \<and> git_Name g = nm \<longrightarrow> git_IsDeleted g))"
  using backend.git_laws(4-6) [OF assms, unfolded git_store_simps live_repos_def] by fastforce

text \<open>
  A successful \<open>Update\<close> of a repository record changes that record only, and of it only the
  fields given and the time of the update, and returns the record as it is stored afterwards.
\<close>

theorem git_update_frame:
  assumes "backend db tbl clock up rc kv ut ent bc" "schema_ok (tbl w)"
    and "gitstore_Update db i chg w = (Inr g, w')"
  shows "\<exists>t. pg_repos (tbl w') = map (\<lambda>h. if git_ID h = i then updated_repo chg t h else h) (pg_repos (tbl w)) \<and>
    filter (\<lambda>h. git_ID h = i) (pg_repos (tbl w')) = [g]"
  using backend.git_laws(7) [OF assms(1,2), unfolded git_store_simps change_repo_def, OF assms(3)] .

text \<open>
  Deleting a repository record marks it: every other record stays as it is, and afterwards
  neither \<open>ListByOwner\<close> nor \<open>GetByName\<close> returns a record with that id. \<open>GetByID\<close> still does.
\<close>

theorem git_delete_hides:
  assumes "backend db tbl clock up rc kv ut ent bc" "schema_ok (tbl w)"
    and "gitstore_Delete db i w = (None, w')"
  shows "filter (\<lambda>g. git_ID g \<noteq> i) (pg_repos (tbl w')) = filter (\<lambda>g. git_ID g \<noteq> i) (pg_repos (tbl w)) \<and>
    (gitstore_ListByOwner db ow w' = (Inr gs, w1) \<longrightarrow> (\<forall>g \<in> set gs. git_ID g \<noteq> i)) \<and>
    (gitstore_GetByName db ow nm w' = (Inr g, w2) \<longrightarrow> git_ID g \<noteq> i) \<and>
    (gitstore_GetByID db i w' = (Inr h, w3) \<longrightarrow> git_IsDeleted h) \<and>
    \<not> (gitstore_GetByID db i w' = (Inl (Sentinel git_ErrRepoNotFound), w3))"
proof -
  note laws = backend.git_laws [OF assms(1), unfolded git_store_simps live_repos_def]
  from laws(8) [OF assms(2,3)] obtain t where
    t: "pg_repos (tbl w') = change_repo i (deleted_repo t) (pg_repos (tbl w))"
    and ex: "\<exists>g \<in> set (pg_repos (tbl w)). git_ID g = i" by blast
  have ok: "schema_ok (tbl w')" using laws(9) [OF assms(2), of i] assms(3) by simp
  have same: "filter (\<lambda>g. git_ID g = i) (pg_repos (tbl w')) =
      map (deleted_repo t) (filter (\<lambda>g. git_ID g = i) (pg_repos (tbl w)))"
    by (simp add: t change_repo_same)
  have del: "git_IsDeleted g" if "g \<in> set (pg_repos (tbl w'))" "git_ID g = i" for g
  proof -
    have "g \<in> set (filter (\<lambda>g. git_ID g = i) (pg_repos (tbl w')))" using that by simp
    then show ?thesis unfolding same by auto
  qed
  have "filter (\<lambda>g. git_ID g \<noteq> i) (pg_repos (tbl w')) = filter (\<lambda>g. git_ID g \<noteq> i) (pg_repos (tbl w))"
    by (simp add: t change_repo_others)
  moreover have "gitstore_GetByID db i w' \<noteq> (Inl (Sentinel git_ErrRepoNotFound), w3)"
    using laws(3) [OF ok, of i "Sentinel git_ErrRepoNotFound" w3] ex by (auto simp: same filter_empty_conv)
  moreover have "git_IsDeleted h" if "gitstore_GetByID db i w' = (Inr h, w3)"
    using laws(2) [OF ok that] unfolding same by auto
  moreover have "git_ID x \<noteq> i" if "gitstore_ListByOwner db ow w' = (Inr gs, w1)" "x \<in> set gs" for x
    using laws(6) [OF ok that(1)] that(2) del by auto
  moreover have "git_ID g \<noteq> i" if "gitstore_GetByName db ow nm w' = (Inr g, w2)"
    using laws(4) [OF ok that] del by auto
  ultimately show ?thesis by blast
qed

text \<open>
  A repository the service creates has the name and the fields asked for and takes a directory
  that held none. From then on it exists, it is found by its name whoever asks, and nobody, not
  even another owner, can create a repository whose name leads to the same directory.
\<close>

theorem git_create_claims_directory:
  assumes "git_files lib dirs works" "git_Create lib dir inp w = (Inr g, w')" "works w'"
  shows "ValidateRepoName (gin_Name inp) = None \<and> git_Name g = gin_Name inp \<and> git_OwnerID g = gin_OwnerID inp \<and>
    git_Description g = gin_Description inp \<and> git_IsPrivate g = gin_IsPrivate inp \<and>
    git_DefaultRef g = gin_DefaultRef inp \<and>
    RepoPath dir (gin_Name inp) \<notin> dirs w \<and> dirs w' = insert (RepoPath dir (gin_Name inp)) (dirs w) \<and>
    fst (Exists lib dir g w') \<and>
    (\<exists>h. fst (git_GetByName lib dir ow (gin_Name inp) w') = Inr h \<and> git_OwnerID h = ow) \<and>
    (RepoPath dir (gin_Name inp2) = RepoPath dir (gin_Name inp) \<longrightarrow>
       (\<exists>e. fst (git_Create lib dir inp2 w') = Inl e))"
proof -
  have nm: "git_Name g = gin_Name inp" using git_files.create_ok [OF assms(1,2)] by blast
  note c = git_files.create_ok [OF assms(1,2), unfolded nm]
  obtain h w2 where "git_GetByName lib dir ow (gin_Name inp) w' = (Inr h, w2)"
    using git_files.get_by_name_iff [OF assms(1,3), of dir ow "gin_Name inp"] c
    by (metis insertI1 prod.collapse)
  with git_files.get_by_name_result(1) [OF assms(1) this] c
    git_files.exists_iff [OF assms(1,3), of dir g, unfolded nm] git_files.create_taken [OF assms(1), of dir inp2 w']
  show ?thesis by (simp add: ValidateRepoName_def nm)
qed

text \<open>
  \<open>GetStats\<close> never fails. When the references can be listed, its branches and tags are those of
  the references listed; when the commits can, its commits are those counted. The size is always 0.
\<close>

theorem git_stats_count:
  "\<exists>st. fst (GetStats lib dir g w) = Inr st \<and> SizeBytes st = 0 \<and>
    (\<forall>refs e w1. IterReferences lib (RepoPath dir (git_Name g)) w = (Inr (refs, e), w1) \<longrightarrow>
       BranchCount st = int (length (filter (\<lambda>r. IsBranch lib (gref_Name r)) refs)) \<and>
       TagCount st = int (length (filter (\<lambda>r. IsTag lib (gref_Name r)) refs)) \<and>
       (\<forall>n e2 w2. IterCommits lib (RepoPath dir (git_Name g)) w1 = (Inr (n, e2), w2) \<longrightarrow>
          CommitCount st = int n))"
  by (auto simp: GetStats_def Let_def count_refs split: prod.splits sum.splits option.splits)

section \<open>Witnesses\<close>

lemmas git_eval [sim_eval] = gitstore_Create_def gitstore_GetByID_def gitstore_GetByName_def
  gitstore_ListByOwner_def gitstore_Update_def gitstore_SoftDelete_def gitstore_Delete_def CreateRepository_def
  GetRepositoryByID_def GetRepositoryByRepositoryName_def GetRepositoryByOwnerId_def UpdateRepository_def
  SoftDeleteRepository_def update_params_def or_keep_def repository_args_def fromSqlcRepo_def fromPgUUID_def

definition demo_repo :: git_create_input where
  "demo_repo = \<lparr>gin_Id = 7, gin_Name = ''demo'', gin_Description = [], gin_IsPrivate = True, gin_OwnerID = 0,
     gin_DefaultRef = ''main''\<rparr>"

definition sim_repo :: sim where
  "sim_repo = snd (gitstore_Create sim_db demo_repo sim_ada)"

lemma sim_repo_ok: "schema_ok (sim_tables sim_repo)"
proof -
  have "gitstore_Create sim_db demo_repo sim_ada = (r, w') \<Longrightarrow> schema_ok (sim_tables w')" for r w'
    using sim_ada_ok sim_pg.schema_ok_step(1)
    by (auto simp: gitstore_Create_def CreateRepository_def split: prod.splits sum.splits)
  then show ?thesis unfolding sim_repo_def by (metis prod.collapse)
qed

definition rename_demo :: git_update_input where
  "rename_demo = \<lparr>gup_Name = Some ''demo2'', gup_Description = None, gup_IsPrivate = None, gup_OwnerId = None,
     gup_DefaultRef = None\<rparr>"

theorem git_list_and_lookup_witness:
  "\<exists>g w'. gitstore_GetByName sim_db 0 ''demo'' sim_repo = (Inr g, w') \<and> git_OwnerID g = 0 \<and> git_Name g = ''demo''"
proof -
  obtain g w' where "gitstore_GetByName sim_db 0 ''demo'' sim_repo = (Inr g, w')"
    by (simp add: sim_repo_def demo_repo_def sim_ada_def ada_def sim_eval)
  with git_list_and_lookup [OF sim.backend_axioms sim_repo_ok, of 0 _ w' "''demo''" g] show ?thesis by blast
qed

theorem git_update_frame_witness:
  "\<exists>g w'. gitstore_Update sim_db 7 rename_demo sim_repo = (Inr g, w') \<and>
     filter (\<lambda>h. git_ID h = 7) (pg_repos (sim_tables w')) = [g]"
proof -
  obtain g w' where "gitstore_Update sim_db 7 rename_demo sim_repo = (Inr g, w')"
    by (simp add: sim_repo_def demo_repo_def rename_demo_def sim_ada_def ada_def sim_eval)
  with git_update_frame [OF sim.backend_axioms sim_repo_ok this] show ?thesis by blast
qed

theorem git_delete_hides_witness:
  "\<exists>w'. gitstore_Delete sim_db 7 sim_repo = (None, w') \<and>
     (\<forall>gs w1. gitstore_ListByOwner sim_db 0 w' = (Inr gs, w1) \<longrightarrow> (\<forall>g \<in> set gs. git_ID g \<noteq> 7))"
proof -
  obtain w' where d: "gitstore_Delete sim_db 7 sim_repo = (None, w')"
    by (simp add: sim_repo_def demo_repo_def sim_ada_def ada_def sim_eval)
  with git_delete_hides [OF sim.backend_axioms sim_repo_ok d] show ?thesis by blast
qed

theorem git_create_claims_directory_witness:
  "\<exists>g w'. git_Create sim_git ''/srv'' demo_repo sim_init = (Inr g, w') \<and>
     (\<exists>e. fst (git_Create sim_git ''/srv'' (demo_repo\<lparr>gin_OwnerID := 1\<rparr>) w') = Inl e)"
proof -
  have "validRepoName ''demo''" by (simp add: validRepoName_def name_first_def name_rest_def)
  then obtain g w' where c: "git_Create sim_git ''/srv'' demo_repo sim_init = (Inr g, w')" and u: "sim_up w'"
    by (simp add: git_Create_def demo_repo_def sim_git_def sim_eval sim_up_def)
  have same: "RepoPath ''/srv'' (gin_Name (demo_repo\<lparr>gin_OwnerID := 1\<rparr>)) = RepoPath ''/srv'' (gin_Name demo_repo)"
    by simp
  from git_create_claims_directory [OF sim_git.git_files_axioms c u, of 1 "demo_repo\<lparr>gin_OwnerID := 1\<rparr>"]
  have "\<exists>e. fst (git_Create sim_git ''/srv'' (demo_repo\<lparr>gin_OwnerID := 1\<rparr>) w') = Inl e"
    by (simp only: same simp_thms)
  with c show ?thesis by blast
qed

lemma sim_git_reads:
  "IterReferences sim_git p w = (Inr ([\<lparr>gref_Name = ''HEAD'', gref_Hash = [], gref_Target = ''refs/heads/main''\<rparr>,
     \<lparr>gref_Name = ''refs/heads/main'', gref_Hash = ''1f'', gref_Target = []\<rparr>], None), tick w)"
  "IterCommits sim_git p w = (Inr (1, None), tick w)" "IsBranch sim_git r \<longleftrightarrow> take 11 r = ''refs/heads/''"
  "IsTag sim_git r \<longleftrightarrow> take 10 r = ''refs/tags/''"
  by (simp_all add: sim_git_def)

theorem git_stats_count_witness:
  "\<exists>st. fst (GetStats sim_git ''/srv'' zero_repository sim_init) = Inr st \<and>
     BranchCount st = 1 \<and> TagCount st = 0 \<and> CommitCount st = 1"
  using git_stats_count [of sim_git "''/srv''" zero_repository sim_init]
  by (simp add: sim_git_reads) blast

end
