(* ===== verification/Http.thy ===== *)
theory Http
  imports Json Sso GitRepos
begin

text \<open>
  What the handlers of \<^verbatim>\<open>internal/api/http\<close> see of \<open>net/http\<close>, the server's \<open>Config\<close>, and
  \<^verbatim>\<open>middleware.go\<close>: cookies, token extraction, authentication and JSON responses.
\<close>

section \<open>Requests\<close>

text \<open>
  The headers with their canonical names, the cookies and the query in the order they came. The
  multiplexer fills in \<open>rq_PathValue\<close>; \<open>rq_UserID\<close> is the value of the context under \<open>userIDKey\<close>.
\<close>

record http_request =
  rq_Method :: string
  rq_Path :: string
  rq_Query :: "(string \<times> string) list"
  rq_Header :: "(string \<times> string) list"
  rq_Cookies :: "(string \<times> string) list"
  rq_Body :: string
  rq_RemoteAddr :: string
  rq_PathValue :: "string \<Rightarrow> string"
  rq_UserID :: "uuid option"

text \<open>\<open>Header.Get\<close>, \<open>URL.Query().Get\<close>: the first value, or the empty string; \<open>Request.Cookie\<close>.\<close>

definition first_value :: "(string \<times> string) list \<Rightarrow> string \<Rightarrow> string" where
  "first_value xs k = (case map_of xs k of Some v \<Rightarrow> v | None \<Rightarrow> [])"

definition header_get :: "http_request \<Rightarrow> string \<Rightarrow> string" where
  "header_get r = first_value (rq_Header r)"

definition query_get :: "http_request \<Rightarrow> string \<Rightarrow> string" where
  "query_get r = first_value (rq_Query r)"

definition request_cookie :: "http_request \<Rightarrow> string \<Rightarrow> string option" where
  "request_cookie r = map_of (rq_Cookies r)"

section \<open>Responses\<close>

datatype same_site = SameSiteStrictMode

record cookie =
  ck_Name :: string
  ck_Value :: string
  ck_Path :: string
  ck_MaxAge :: int
  ck_HttpOnly :: bool
  ck_Secure :: bool
  ck_SameSite :: same_site

text \<open>
  An \<open>http.ResponseWriter\<close>: the headers to be sent, the status and the headers already sent
  (status 0: none yet) and the body. Once the status is sent, later ones and later headers are
  without effect, and the first write of a body sends 200 if nothing was sent before. The last two
  fields are those of the \<open>statusWriter\<close> that \<^verbatim>\<open>pkg/logger/middleware.go\<close> wraps around it.
\<close>

record response_writer =
  rw_Header :: "string \<rightharpoonup> string"
  rw_Cookies :: "cookie list"
  rw_Status :: nat
  rw_Sent :: "string \<rightharpoonup> string"
  rw_SentCookies :: "cookie list"
  rw_Body :: string
  sw_status :: nat
  sw_bytesOut :: nat

definition new_writer :: response_writer where
  "new_writer = \<lparr>rw_Header = Map.empty, rw_Cookies = [], rw_Status = 0, rw_Sent = Map.empty, rw_SentCookies = [],
     rw_Body = [], sw_status = 0, sw_bytesOut = 0\<rparr>"

definition set_header :: "string \<Rightarrow> string \<Rightarrow> response_writer \<Rightarrow> response_writer" where
  "set_header k v rw = rw\<lparr>rw_Header := (rw_Header rw)(k \<mapsto> v)\<rparr>"

definition http_SetCookie :: "cookie \<Rightarrow> response_writer \<Rightarrow> response_writer" where
  "http_SetCookie c rw = rw\<lparr>rw_Cookies := rw_Cookies rw @ [c]\<rparr>"

definition send_header :: "nat \<Rightarrow> response_writer \<Rightarrow> response_writer" where
  "send_header code rw =
     (if rw_Status rw \<noteq> 0 then rw
      else rw\<lparr>rw_Status := code, rw_Sent := rw_Header rw, rw_SentCookies := rw_Cookies rw\<rparr>)"

definition WriteHeader :: "nat \<Rightarrow> response_writer \<Rightarrow> response_writer" where
  "WriteHeader code rw = send_header code (rw\<lparr>sw_status := code\<rparr>)"

definition write_body :: "string \<Rightarrow> response_writer \<Rightarrow> response_writer" where
  "write_body s rw =
     (let rw1 = send_header 200 (if sw_status rw = 0 then rw\<lparr>sw_status := 200\<rparr> else rw) in
      rw1\<lparr>rw_Body := rw_Body rw1 @ s, sw_bytesOut := sw_bytesOut rw1 + length s\<rparr>)"

text \<open>\<open>http.Error\<close>, and \<open>http.Redirect\<close> to an absolute URL.\<close>

definition http_Error :: "string \<Rightarrow> nat \<Rightarrow> response_writer \<Rightarrow> response_writer" where
  "http_Error msg code rw =
     write_body (msg @ [CHR 0x0A]) (WriteHeader code
       (set_header ''X-Content-Type-Options'' ''nosniff'' (set_header ''Content-Type'' ''text/plain; charset=utf-8'' rw)))"

fun html_escape :: "string \<Rightarrow> string" where
  "html_escape [] = []"
| "html_escape (c # cs) =
     (if c = CHR ''&'' then ''&amp;'' else if c = CHR ''<'' then ''&lt;'' else if c = CHR ''>'' then ''&gt;''
      else if c = CHR 0x22 then ''&#34;'' else if c = CHR 0x27 then ''&#39;'' else [c]) @ html_escape cs"

definition http_Redirect :: "http_request \<Rightarrow> string \<Rightarrow> response_writer \<Rightarrow> response_writer" where
  "http_Redirect r url rw =
     (let get = (rq_Method r = ''GET'');
          rw1 = set_header ''Location'' url rw;
          rw2 = (if rw_Header rw ''Content-Type'' = None \<and> (get \<or> rq_Method r = ''HEAD'')
                 then set_header ''Content-Type'' ''text/html; charset=utf-8'' rw1 else rw1);
          rw3 = WriteHeader 307 rw2
      in if rw_Header rw ''Content-Type'' = None \<and> get
         then write_body (''<a href='' @ [CHR 0x22] @ html_escape url @ [CHR 0x22] @ ''>Temporary Redirect</a>.'' @ [CHR 0x0A, CHR 0x0A]) rw3
         else rw3)"

text \<open>A response as sent: nothing was sent before.\<close>

definition fresh_writer :: "response_writer \<Rightarrow> bool" where
  "fresh_writer rw \<longleftrightarrow> rw_Status rw = 0"

lemma fresh_new [simp]: "fresh_writer new_writer"
  by (simp add: fresh_writer_def new_writer_def)

lemma fresh_updates [simp]:
  "fresh_writer (set_header k v rw) = fresh_writer rw" "fresh_writer (http_SetCookie c rw) = fresh_writer rw"
  by (simp_all add: fresh_writer_def set_header_def http_SetCookie_def)

section \<open>Handlers and the server's configuration\<close>

type_synonym 'w handler = "http_request \<Rightarrow> response_writer \<Rightarrow> 'w \<Rightarrow> response_writer \<times> 'w"

text \<open>
  \<open>Config\<close> in \<^verbatim>\<open>http.go\<close>. A service is its repository, its caches and the libraries it calls; a nil
  rate limit or health check is \<open>None\<close>.
\<close>

record 'w config =
  cf_ReposDir :: string
  cf_RepoStore :: "'w git_Repository"
  cf_GitService :: "'w git_lib"
  cf_Users :: "'w user_Repository"
  cf_Bcrypt :: "'w bcrypt"
  cf_Entropy :: "'w entropy"
  cf_UUID :: uuid_text
  cf_Sessions :: "'w session_Repository"
  cf_Tokens :: "'w token_store"
  cf_SSO :: "'w sso_Repository"
  cf_States :: "'w state_store"
  cf_GoogleLib :: "'w google_lib"
  cf_Google :: google_config
  cf_TOTPLib :: "'w totp_lib"
  cf_TOTP :: "'w totp_store"
  cf_TOTPIssuer :: string
  cf_Orgs :: "'w organization_Repository"
  cf_Secure :: bool
  cf_IPRateLimit :: "('w handler \<Rightarrow> 'w handler) option"
  cf_UserRateLimit :: "('w handler \<Rightarrow> 'w handler) option"
  cf_AppVersion :: string
  cf_DBHealth :: "'w go_err option"
  cf_RedisHealth :: "'w go_err option"

section \<open>\<open>middleware.go\<close>\<close>

definition AccessCookieName :: string where "AccessCookieName = ''access_token''"
definition RefreshCookieName :: string where "RefreshCookieName = ''refresh_token''"

definition writeJSON :: "nat \<Rightarrow> json \<Rightarrow> response_writer \<Rightarrow> response_writer" where
  "writeJSON status v rw =
     write_body (json_text v @ [CHR 0x0A]) (WriteHeader status (set_header ''Content-Type'' ''application/json'' rw))"

definition error_json :: "string \<Rightarrow> json" where
  "error_json msg = JObj [(''error'', JStr msg)]"

definition message_json :: "string \<Rightarrow> json" where
  "message_json msg = JObj [(''message'', JStr msg)]"

definition extractAccessToken :: "http_request \<Rightarrow> string" where
  "extractAccessToken r =
     (case request_cookie r AccessCookieName of
        Some v \<Rightarrow> if v \<noteq> [] then v else (case cut_prefix ''Bearer '' (header_get r ''Authorization'') of Some t \<Rightarrow> t | None \<Rightarrow> [])
      | None \<Rightarrow> (case cut_prefix ''Bearer '' (header_get r ''Authorization'') of Some t \<Rightarrow> t | None \<Rightarrow> []))"

definition Auth :: "(string \<Rightarrow> ('w, uuid) go) \<Rightarrow> 'w handler \<Rightarrow> 'w handler" where
  "Auth validate next r rw w =
     (let token = extractAccessToken r in
      if token = [] then (writeJSON 401 (error_json ''missing or invalid token'') rw, w)
      else case validate token w of
        (Inl e, w1) \<Rightarrow> (writeJSON 401 (error_json ''invalid or expired token'') rw, w1)
      | (Inr userID, w1) \<Rightarrow> next (r\<lparr>rq_UserID := Some userID\<rparr>) rw w1)"

definition UserIDFromContext :: "http_request \<Rightarrow> uuid option" where
  "UserIDFromContext r = rq_UserID r"

definition SetAccessCookie :: "string \<Rightarrow> int \<Rightarrow> bool \<Rightarrow> response_writer \<Rightarrow> response_writer" where
  "SetAccessCookie token maxAge secure =
     http_SetCookie \<lparr>ck_Name = AccessCookieName, ck_Value = token, ck_Path = ''/'', ck_MaxAge = maxAge,
       ck_HttpOnly = True, ck_Secure = secure, ck_SameSite = SameSiteStrictMode\<rparr>"

definition SetRefreshCookie :: "string \<Rightarrow> int \<Rightarrow> bool \<Rightarrow> response_writer \<Rightarrow> response_writer" where
  "SetRefreshCookie token maxAge secure =
     http_SetCookie \<lparr>ck_Name = RefreshCookieName, ck_Value = token, ck_Path = ''/auth/refresh'', ck_MaxAge = maxAge,
       ck_HttpOnly = True, ck_Secure = secure, ck_SameSite = SameSiteStrictMode\<rparr>"

definition ClearAccessCookie :: "bool \<Rightarrow> response_writer \<Rightarrow> response_writer" where
  "ClearAccessCookie secure =
     http_SetCookie \<lparr>ck_Name = AccessCookieName, ck_Value = [], ck_Path = ''/'', ck_MaxAge = -1,
       ck_HttpOnly = True, ck_Secure = secure, ck_SameSite = SameSiteStrictMode\<rparr>"

definition ClearRefreshCookie :: "bool \<Rightarrow> response_writer \<Rightarrow> response_writer" where
  "ClearRefreshCookie secure =
     http_SetCookie \<lparr>ck_Name = RefreshCookieName, ck_Value = [], ck_Path = ''/auth/refresh'', ck_MaxAge = -1,
       ck_HttpOnly = True, ck_Secure = secure, ck_SameSite = SameSiteStrictMode\<rparr>"

text \<open>What a handler answers, when nothing was sent before it.\<close>

lemma writeJSON_simps [simp]:
  "rw_Status (writeJSON st v rw) = (if fresh_writer rw then st else rw_Status rw)"
  "rw_Body (writeJSON st v rw) = rw_Body rw @ json_text v @ [CHR 0x0A]" if "st \<noteq> 0"
  using that
  by (simp_all add: writeJSON_def write_body_def WriteHeader_def send_header_def set_header_def fresh_writer_def Let_def)

lemma writeJSON_cookies [simp]:
  "fresh_writer rw \<Longrightarrow> st \<noteq> 0 \<Longrightarrow> rw_SentCookies (writeJSON st v rw) = rw_Cookies rw"
  by (simp add: writeJSON_def write_body_def WriteHeader_def send_header_def set_header_def fresh_writer_def Let_def)

lemma http_Error_status [simp]:
  "code \<noteq> 0 \<Longrightarrow> rw_Status (http_Error msg code rw) = (if fresh_writer rw then code else rw_Status rw)"
  by (simp add: http_Error_def write_body_def WriteHeader_def send_header_def set_header_def fresh_writer_def Let_def)

text \<open>The same cookies a browser sends back: those whose path covers the path of the request.\<close>

definition path_match :: "string \<Rightarrow> string \<Rightarrow> bool" where
  "path_match cookie_path p \<longleftrightarrow>
     p = cookie_path \<or> (\<exists>t. p = cookie_path @ t) \<and> (last cookie_path = slash \<or> p ! length cookie_path = slash)"

section \<open>The services the server is wired to\<close>

text \<open>
  \<^verbatim>\<open>cmd/http-api/main.go\<close> gives every service the store adapters over one database and one Redis.
\<close>

definition wired ::
  "'w config \<Rightarrow> 'w dbtx \<Rightarrow> 'w redis_client \<Rightarrow> uuid_text \<Rightarrow> 'w entropy \<Rightarrow> 'w bcrypt \<Rightarrow> bool" where
  "wired cfg db rc ut ent bc \<longleftrightarrow>
     cf_RepoStore cfg = git_store db \<and> cf_Users cfg = user_store db \<and> cf_Sessions cfg = pg_session_store db \<and>
     cf_Tokens cfg = redis_token_store rc \<and> cf_SSO cfg = sso_store db \<and> cf_States cfg = redis_state_store rc \<and>
     cf_TOTP cfg = redis_totp_store rc \<and> cf_Orgs cfg = organization_store db \<and> cf_UUID cfg = ut \<and>
     cf_Entropy cfg = ent \<and> cf_Bcrypt cfg = bc"

lemma wiredD:
  assumes "wired cfg db rc ut ent bc"
  shows "cf_RepoStore cfg = git_store db" "cf_Users cfg = user_store db" "cf_Sessions cfg = pg_session_store db"
    "cf_Tokens cfg = redis_token_store rc" "cf_SSO cfg = sso_store db" "cf_States cfg = redis_state_store rc"
    "cf_TOTP cfg = redis_totp_store rc" "cf_Orgs cfg = organization_store db" "cf_UUID cfg = ut"
    "cf_Entropy cfg = ent" "cf_Bcrypt cfg = bc"
  using assms by (simp_all add: wired_def)

definition sim_cfg :: "sim config" where
  "sim_cfg = \<lparr>cf_ReposDir = ''/srv'', cf_RepoStore = git_store sim_db, cf_GitService = sim_git,
     cf_Users = user_store sim_db, cf_Bcrypt = sim_bcrypt, cf_Entropy = sim_ent, cf_UUID = uuid_std,
     cf_Sessions = pg_session_store sim_db, cf_Tokens = redis_token_store sim_rc, cf_SSO = sso_store sim_db,
     cf_States = redis_state_store sim_rc, cf_GoogleLib = sim_google, cf_Google = demo_google,
     cf_TOTPLib = sim_totp, cf_TOTP = redis_totp_store sim_rc, cf_TOTPIssuer = ''gitfed'',
     cf_Orgs = organization_store sim_db, cf_Secure = True, cf_IPRateLimit = None, cf_UserRateLimit = None,
     cf_AppVersion = ''dev'', cf_DBHealth = None, cf_RedisHealth = None\<rparr>"

lemma sim_wired: "wired sim_cfg sim_db sim_rc uuid_std sim_ent sim_bcrypt"
  by (simp add: wired_def sim_cfg_def)

text \<open>Requests that only carry a body, or a bearer token.\<close>

definition post_body :: "string \<Rightarrow> string \<Rightarrow> http_request" where
  "post_body path body = \<lparr>rq_Method = ''POST'', rq_Path = path, rq_Query = [], rq_Header = [], rq_Cookies = [],
     rq_Body = body, rq_RemoteAddr = ''192.0.2.1:1234'', rq_PathValue = (\<lambda>_. []), rq_UserID = None\<rparr>"

text \<open>
  C8: a handler's answer carries the status it was given and the content type of JSON, and its body,
  a value in valid UTF-8 without numbers, parses back to that value with one newline left over.
\<close>

theorem response_parses:
  assumes "json_ok v" "st \<noteq> 0"
  shows "json_parse (rw_Body (writeJSON st v new_writer)) = Some (v, [CHR 0x0A]) \<and>
    rw_Status (writeJSON st v new_writer) = st \<and>
    rw_Sent (writeJSON st v new_writer) ''Content-Type'' = Some ''application/json''"
proof (intro conjI)
  have "rw_Body (writeJSON st v new_writer) = json_text v @ [CHR 0x0A]"
    using assms(2) by (simp add: new_writer_def)
  moreover have "json_parse (json_text v @ [CHR 0x0A]) = Some (v, [CHR 0x0A])"
    unfolding json_parse_def by (rule json_roundtrip(1) [OF assms(1) order_refl])
  ultimately show "json_parse (rw_Body (writeJSON st v new_writer)) = Some (v, [CHR 0x0A])"
    by (simp only:)
qed (use assms(2) in \<open>simp_all add: writeJSON_def write_body_def WriteHeader_def send_header_def set_header_def
    new_writer_def Let_def\<close>)

theorem response_parses_witness:
  "json_parse (rw_Body (writeJSON 403 (error_json ''forbidden'') new_writer)) = Some (error_json ''forbidden'', [CHR 0x0A])"
proof -
  have "json_ok (error_json ''forbidden'')" by (simp add: error_json_def decode_rune_def Let_def)
  from response_parses [OF this, of 403] show ?thesis by simp
qed

end
