(* ===== verification/AuthApi.thy ===== *)
theory AuthApi
  imports Http
begin

text \<open>
  The presenters of \<^verbatim>\<open>internal/api/http\<close> through which a user gets an account and a session:
  \<^verbatim>\<open>user_presenter.go\<close>, \<^verbatim>\<open>session_presenter.go\<close>, \<^verbatim>\<open>totp_presenter.go\<close> and \<^verbatim>\<open>sso_presenter.go\<close>.
\<close>

section \<open>Registration\<close>

definition maxNameLen :: nat where "maxNameLen = 255"
definition maxUsernameLen :: nat where "maxUsernameLen = 255"
definition maxEmailLen :: nat where "maxEmailLen = 255"
definition maxPasswordLen :: nat where "maxPasswordLen = 72"
definition minPasswordLen :: nat where "minPasswordLen = 8"

lemmas input_limits = maxNameLen_def maxUsernameLen_def maxEmailLen_def maxPasswordLen_def minPasswordLen_def

text \<open>
  \<open>emailRegex\<close>, the anchored expression of the source. No character of the first class is an \<open>@\<close>
  and none of the last a dot, so one scan from each end finds the only possible division.
\<close>

definition is_letter :: "char \<Rightarrow> bool" where
  "is_letter c \<longleftrightarrow> (let n = (of_char c :: nat) in 65 \<le> n \<and> n \<le> 90 \<or> 97 \<le> n \<and> n \<le> 122)"

definition local_char :: "char \<Rightarrow> bool" where
  "local_char c \<longleftrightarrow> is_letter c \<or> is_digit c \<or> c \<in> set ''._%+-''"

definition domain_char :: "char \<Rightarrow> bool" where
  "domain_char c \<longleftrightarrow> is_letter c \<or> is_digit c \<or> c \<in> set ''.-''"

definition domain_ok :: "string \<Rightarrow> bool" where
  "domain_ok d \<longleftrightarrow>
     2 \<le> length (takeWhile is_letter (rev d)) \<and>
     (case dropWhile is_letter (rev d) of
        [] \<Rightarrow> False
      | c # h \<Rightarrow> c = CHR ''.'' \<and> h \<noteq> [] \<and> list_all domain_char h)"

definition emailRegex :: "string \<Rightarrow> bool" where
  "emailRegex s \<longleftrightarrow>
     takeWhile local_char s \<noteq> [] \<and>
     (case dropWhile local_char s of [] \<Rightarrow> False | c # d \<Rightarrow> c = CHR ''@'' \<and> domain_ok d)"

text \<open>\<open>registerRequest\<close>, as decoded, and \<open>userResponse\<close>.\<close>

definition registerRequest :: fields where
  "registerRequest = [(''name'', FString), (''username'', FString), (''password'', FString), (''email'', FString)]"

definition validateRegisterInput :: "register_input \<Rightarrow> string option" where
  "validateRegisterInput req =
     (if maxNameLen < length (in_Name req) then Some ''name too long''
      else if maxUsernameLen < length (in_Username req) then Some ''username too long''
      else if maxEmailLen < length (in_Email req) then Some ''email too long''
      else if \<not> emailRegex (in_Email req) then Some ''invalid email format''
      else if length (in_Password req) < minPasswordLen then Some ''password must be at least 8 characters''
      else if maxPasswordLen < length (in_Password req) then Some ''password too long''
      else None)"

definition userResponse :: "uuid_text \<Rightarrow> user \<Rightarrow> json" where
  "userResponse ut u = JObj [(''user_id'', JStr (uuid_String ut (user_ID u))), (''name'', JStr (user_Name u)),
     (''username'', JStr (user_Username u)), (''email'', JStr (user_Email u))]"

definition deny :: "nat \<Rightarrow> string \<Rightarrow> response_writer \<Rightarrow> 'w \<Rightarrow> response_writer \<times> 'w" where
  "deny status msg rw w = (writeJSON status (error_json msg) rw, w)"

definition register_input_of :: "decoded \<Rightarrow> register_input" where
  "register_input_of d = \<lparr>in_Name = TrimSpace (str_field d ''name''), in_Username = TrimSpace (str_field d ''username''),
     in_Password = str_field d ''password'', in_Email = TrimSpace (str_field d ''email'')\<rparr>"

definition UserPresenter_Register :: "'w config \<Rightarrow> 'w handler" where
  "UserPresenter_Register cfg r rw w =
     (case decode_body 1024 registerRequest (rq_Body r) of
        None \<Rightarrow> deny 400 ''invalid request body'' rw w
      | Some d \<Rightarrow>
     (let req = register_input_of d in
      if in_Name req = [] \<or> in_Username req = [] \<or> in_Password req = [] \<or> in_Email req = []
      then deny 400 ''all fields are required'' rw w
      else case validateRegisterInput req of
        Some msg \<Rightarrow> deny 400 msg rw w
      | None \<Rightarrow>
     (case Register (cf_Users cfg) (cf_Bcrypt cfg) (cf_Entropy cfg) req w of
        (Inl e, w1) \<Rightarrow>
          if errors_is e user_ErrEmailTaken then deny 409 ''email already taken'' rw w1
          else if errors_is e user_ErrUsernameTaken then deny 409 ''username already taken'' rw w1
          else deny 500 ''internal server error'' rw w1
      | (Inr u, w1) \<Rightarrow> (writeJSON 201 (userResponse (cf_UUID cfg) u) rw, w1))))"

section \<open>Sessions\<close>

definition accessCookieMaxAge :: int where "accessCookieMaxAge = 15 * 60"
definition refreshCookieMaxAge :: int where "refreshCookieMaxAge = 7 * 24 * 60 * 60"

definition loginRequest :: fields where
  "loginRequest = [(''email'', FString), (''password'', FString)]"

text \<open>\<open>loginResponse\<close> with its \<open>loginUserDTO\<close>, and \<open>refreshResponse\<close>.\<close>

definition loginResponse :: "uuid_text \<Rightarrow> token_pair \<Rightarrow> user \<Rightarrow> json" where
  "loginResponse ut pair u = JObj [(''access_token'', JStr (AccessToken pair)),
     (''refresh_token'', JStr (RefreshToken pair)), (''user'', userResponse ut u)]"

definition refreshResponse :: "string \<Rightarrow> json" where
  "refreshResponse accessToken = JObj [(''access_token'', JStr accessToken)]"

text \<open>What \<open>Login\<close> checks of its input, and the message when it is refused.\<close>

definition login_refusal :: "string \<Rightarrow> string \<Rightarrow> string option" where
  "login_refusal email password =
     (if email = [] \<or> password = [] then Some ''email and password are required''
      else if maxEmailLen < length email then Some ''email too long''
      else if maxPasswordLen < length password then Some ''password too long''
      else None)"

definition Login_session :: "'w config \<Rightarrow> user \<Rightarrow> response_writer \<Rightarrow> 'w \<Rightarrow> response_writer \<times> 'w" where
  "Login_session cfg u rw w =
     (case session_Create (cf_Sessions cfg) (cf_Tokens cfg) (cf_Entropy cfg) (cf_UUID cfg) (user_ID u) w of
        (Inl e, w1) \<Rightarrow> deny 500 ''internal server error'' rw w1
      | (Inr pair, w1) \<Rightarrow>
          (writeJSON 200 (loginResponse (cf_UUID cfg) pair u)
             (SetRefreshCookie (RefreshToken pair) refreshCookieMaxAge (cf_Secure cfg)
               (SetAccessCookie (AccessToken pair) accessCookieMaxAge (cf_Secure cfg) rw)), w1))"

definition SessionPresenter_Login :: "'w config \<Rightarrow> 'w handler" where
  "SessionPresenter_Login cfg r rw w =
     (case decode_body 1024 loginRequest (rq_Body r) of
        None \<Rightarrow> deny 400 ''invalid request body'' rw w
      | Some d \<Rightarrow>
     (let email = TrimSpace (str_field d ''email''); password = TrimSpace (str_field d ''password'') in
      case login_refusal email password of
        Some msg \<Rightarrow> deny 400 msg rw w
      | None \<Rightarrow>
     (case user_GetByEmail (cf_Users cfg) email w of
        (Inl e, w1) \<Rightarrow>
          if errors_is e user_ErrNotFound then deny 401 ''invalid credentials'' rw w1
          else deny 500 ''internal server error'' rw w1
      | (Inr u, w1) \<Rightarrow>
     (case VerifyPassword (cf_Bcrypt cfg) (user_Password u) password of
        Some e \<Rightarrow>
          if errors_is e bcrypt_ErrMismatchedHashAndPassword then deny 401 ''invalid credentials'' rw w1
          else deny 500 ''internal server error'' rw w1
      | None \<Rightarrow> Login_session cfg u rw w1))))"

definition extractRefreshToken :: "http_request \<Rightarrow> string" where
  "extractRefreshToken r =
     (case request_cookie r RefreshCookieName of
        Some v \<Rightarrow> if v \<noteq> [] then v else (case cut_prefix ''Bearer '' (header_get r ''Authorization'') of Some t \<Rightarrow> t | None \<Rightarrow> [])
      | None \<Rightarrow> (case cut_prefix ''Bearer '' (header_get r ''Authorization'') of Some t \<Rightarrow> t | None \<Rightarrow> []))"

definition SessionPresenter_Refresh :: "'w config \<Rightarrow> 'w handler" where
  "SessionPresenter_Refresh cfg r rw w =
     (let refreshToken = extractRefreshToken r in
      if refreshToken = [] then deny 401 ''missing refresh token'' rw w
      else case Refresh (cf_Sessions cfg) (cf_Tokens cfg) (cf_Entropy cfg) (cf_UUID cfg) refreshToken w of
        (Inl e, w1) \<Rightarrow>
          if errors_is e session_ErrInvalidRefreshToken then deny 401 ''invalid or expired refresh token'' rw w1
          else deny 500 ''internal server error'' rw w1
      | (Inr accessToken, w1) \<Rightarrow>
          (writeJSON 200 (refreshResponse accessToken)
             (SetAccessCookie accessToken accessCookieMaxAge (cf_Secure cfg) rw), w1))"

definition SessionPresenter_Logout :: "'w config \<Rightarrow> 'w handler" where
  "SessionPresenter_Logout cfg r rw w =
     (let refreshToken = extractRefreshToken r in
      if refreshToken = [] then deny 401 ''missing refresh token'' rw w
      else case Revoke (cf_Sessions cfg) (cf_Tokens cfg) refreshToken w of
        (Some e, w1) \<Rightarrow>
          if errors_is e session_ErrSessionNotFound then deny 404 ''session not found'' rw w1
          else deny 500 ''internal server error'' rw w1
      | (None, w1) \<Rightarrow>
          (writeJSON 200 (message_json ''logged out'')
             (ClearRefreshCookie (cf_Secure cfg) (ClearAccessCookie (cf_Secure cfg) rw)), w1))"

section \<open>One-time passwords\<close>

definition TOTPPresenter_Setup :: "'w config \<Rightarrow> 'w handler" where
  "TOTPPresenter_Setup cfg r rw w =
     (case UserIDFromContext r of
        None \<Rightarrow> deny 401 ''unauthorized'' rw w
      | Some userID \<Rightarrow>
     (case totp_Setup (cf_TOTPLib cfg) (cf_TOTP cfg) (cf_TOTPIssuer cfg) (uuid_String (cf_UUID cfg) userID)
             (uuid_String (cf_UUID cfg) userID) w of
        (Inl e, w1) \<Rightarrow> deny 500 ''internal server error'' rw w1
      | (Inr result, w1) \<Rightarrow>
          (writeJSON 200 (JObj [(''secret'', JStr (totp_Secret result)), (''url'', JStr (totp_URL result))]) rw, w1)))"

definition totpVerifyRequest :: fields where
  "totpVerifyRequest = [(''code'', FString)]"

definition TOTPPresenter_Verify :: "'w config \<Rightarrow> 'w handler" where
  "TOTPPresenter_Verify cfg r rw w =
     (case UserIDFromContext r of
        None \<Rightarrow> deny 401 ''unauthorized'' rw w
      | Some userID \<Rightarrow>
     (case decode_body 1024 totpVerifyRequest (rq_Body r) of
        None \<Rightarrow> deny 400 ''code is required'' rw w
      | Some d \<Rightarrow>
      if str_field d ''code'' = [] then deny 400 ''code is required'' rw w
      else case totp_Verify (cf_TOTPLib cfg) (cf_TOTP cfg) (uuid_String (cf_UUID cfg) userID) (str_field d ''code'') w of
        (Inl e, w1) \<Rightarrow> deny 500 ''internal server error'' rw w1
      | (Inr valid, w1) \<Rightarrow>
          if \<not> valid then deny 401 ''invalid totp code'' rw w1
          else (writeJSON 200 (message_json ''totp verified'') rw, w1)))"

section \<open>Single sign-on\<close>

definition SSOPresenter_GoogleRedirect :: "'w config \<Rightarrow> 'w handler" where
  "SSOPresenter_GoogleRedirect cfg r rw w =
     (case GoogleAuthURL (cf_States cfg) (cf_GoogleLib cfg) (cf_UUID cfg) (cf_Google cfg) w of
        (Inl e, w1) \<Rightarrow> deny 500 ''internal server error'' rw w1
      | (Inr url, w1) \<Rightarrow> (http_Redirect r url rw, w1))"

text \<open>The account of an e-mail address, registered with an empty password when there is none.\<close>

definition sso_user :: "'w config \<Rightarrow> google_user_info \<Rightarrow> ('w, user) go" where
  "sso_user cfg info w =
     (case user_GetByEmail (cf_Users cfg) (gi_Email info) w of
        (Inr u, w1) \<Rightarrow> (Inr u, w1)
      | (Inl e, w1) \<Rightarrow>
          if errors_is e user_ErrNotFound
          then Register (cf_Users cfg) (cf_Bcrypt cfg) (cf_Entropy cfg)
                 \<lparr>in_Name = gi_Name info, in_Username = gi_Email info, in_Password = [], in_Email = gi_Email info\<rparr> w1
          else (Inl e, w1))"

definition sso_session :: "'w config \<Rightarrow> user \<Rightarrow> response_writer \<Rightarrow> 'w \<Rightarrow> response_writer \<times> 'w" where
  "sso_session cfg u rw w =
     (case session_Create (cf_Sessions cfg) (cf_Tokens cfg) (cf_Entropy cfg) (cf_UUID cfg) (user_ID u) w of
        (Inl e, w1) \<Rightarrow> deny 500 ''internal server error'' rw w1
      | (Inr pair, w1) \<Rightarrow>
          (writeJSON 200
             (JObj [(''access_token'', JStr (AccessToken pair)), (''email'', JStr (user_Email u)),
                (''name'', JStr (user_Name u)), (''refresh_token'', JStr (RefreshToken pair)),
                (''user_id'', JStr (uuid_String (cf_UUID cfg) (user_ID u)))])
             (SetRefreshCookie (RefreshToken pair) refreshCookieMaxAge (cf_Secure cfg)
               (SetAccessCookie (AccessToken pair) accessCookieMaxAge (cf_Secure cfg) rw)), w1))"

definition SSOPresenter_GoogleCallback :: "'w config \<Rightarrow> 'w handler" where
  "SSOPresenter_GoogleCallback cfg r rw w =
     (let state = query_get r ''state''; code = query_get r ''code'' in
      if state = [] \<or> code = [] then deny 400 ''missing state or code'' rw w
      else case GoogleCallback (cf_States cfg) (cf_GoogleLib cfg) (cf_Google cfg) state code w of
        (Inl e, w1) \<Rightarrow>
          if errors_is e sso_ErrInvalidState then deny 400 ''invalid oauth state'' rw w1
          else deny 500 ''oauth failed'' rw w1
      | (Inr info, w1) \<Rightarrow>
     (case sso_user cfg info w1 of
        (Inl e, w2) \<Rightarrow> deny 500 ''internal server error'' rw w2
      | (Inr u, w2) \<Rightarrow>
     (case FindOrCreateSSO (cf_SSO cfg) (cf_Entropy cfg) (user_ID u) ProviderGoogle (gi_Name info) (gi_Email info) w2 of
        (Inl e, w3) \<Rightarrow> deny 500 ''internal server error'' rw w3
      | (Inr _, w3) \<Rightarrow> sso_session cfg u rw w3)))"

section \<open>The expression for e-mail addresses\<close>

text \<open>The words the expression matches, read off its text.\<close>

definition email_language :: "string \<Rightarrow> bool" where
  "email_language s \<longleftrightarrow>
     (\<exists>l d t. s = l @ ''@'' @ d @ ''.'' @ t \<and> l \<noteq> [] \<and> list_all local_char l \<and>
        d \<noteq> [] \<and> list_all domain_char d \<and> 2 \<le> length t \<and> list_all is_letter t)"

lemma takeWhile_stop:
  assumes "list_all p xs" "\<not> p c"
  shows "takeWhile p (xs @ c # ys) = xs" "dropWhile p (xs @ c # ys) = c # ys"
  using assms by (induction xs) auto

lemma not_letter_dot [simp]: "\<not> is_letter CHR ''.''"
  by (simp add: is_letter_def)

lemma not_local_at [simp]: "\<not> local_char CHR ''@''"
  by (simp add: local_char_def is_letter_def is_digit_def)

lemma domain_ok_iff:
  "domain_ok x \<longleftrightarrow> (\<exists>d t. x = d @ ''.'' @ t \<and> d \<noteq> [] \<and> list_all domain_char d \<and> 2 \<le> length t \<and> list_all is_letter t)"
proof
  assume "domain_ok x"
  then obtain h where h: "dropWhile is_letter (rev x) = CHR ''.'' # h" "h \<noteq> []" "list_all domain_char h"
    and l: "2 \<le> length (takeWhile is_letter (rev x))"
    by (auto simp: domain_ok_def split: list.splits)
  let ?t = "takeWhile is_letter (rev x)"
  have "rev x = ?t @ CHR ''.'' # h" using takeWhile_dropWhile_id [of is_letter "rev x"] h(1) by simp
  then have "x = rev h @ ''.'' @ rev ?t" by (metis append_Cons append_Nil append_assoc rev.simps(2) rev_append rev_rev_ident)
  moreover have "list_all is_letter (rev ?t)" using set_takeWhileD [of _ is_letter "rev x"] by (auto simp: list_all_iff)
  ultimately show "\<exists>d t. x = d @ ''.'' @ t \<and> d \<noteq> [] \<and> list_all domain_char d \<and> 2 \<le> length t \<and> list_all is_letter t"
    using h l by (intro exI [of _ "rev h"] exI [of _ "rev ?t"]) (simp add: list_all_iff)
next
  assume "\<exists>d t. x = d @ ''.'' @ t \<and> d \<noteq> [] \<and> list_all domain_char d \<and> 2 \<le> length t \<and> list_all is_letter t"
  then obtain d t where x: "x = d @ ''.'' @ t" "d \<noteq> []" "list_all domain_char d" "2 \<le> length t" "list_all is_letter t"
    by blast
  have "rev x = rev t @ CHR ''.'' # rev d" using x(1) by simp
  moreover have "list_all is_letter (rev t)" using x(5) by (simp add: list_all_iff)
  ultimately show "domain_ok x" using takeWhile_stop [of is_letter "rev t" "CHR ''.''" "rev d"] x(2-4)
    by (simp add: domain_ok_def list_all_iff)
qed

lemma emailRegex_language: "emailRegex s \<longleftrightarrow> email_language s"
proof
  assume "emailRegex s"
  then obtain x where x: "dropWhile local_char s = CHR ''@'' # x" "domain_ok x" "takeWhile local_char s \<noteq> []"
    by (auto simp: emailRegex_def split: list.splits)
  moreover have "s = takeWhile local_char s @ ''@'' @ x" using takeWhile_dropWhile_id [of local_char s] x(1) by simp
  moreover have "list_all local_char (takeWhile local_char s)"
    using set_takeWhileD [of _ local_char s] by (auto simp: list_all_iff)
  ultimately show "email_language s" unfolding email_language_def domain_ok_iff by metis
next
  assume "email_language s"
  then obtain l d t where s: "s = l @ CHR ''@'' # (d @ ''.'' @ t)" "l \<noteq> []" "list_all local_char l"
    "d \<noteq> []" "list_all domain_char d" "2 \<le> length t" "list_all is_letter t"
    unfolding email_language_def by auto
  have "domain_ok (d @ ''.'' @ t)" using s domain_ok_iff by blast
  with s takeWhile_stop [of local_char l "CHR ''@''" "d @ ''.'' @ t"] show "emailRegex s" by (simp add: emailRegex_def)
qed

lemma char_classes:
  "is_letter c \<Longrightarrow> c \<noteq> CHR 0x00 \<and> (of_char c :: nat) < 128" "is_digit c \<Longrightarrow> c \<noteq> CHR 0x00 \<and> (of_char c :: nat) < 128"
  by (auto simp: is_letter_def is_digit_def Let_def)

lemma email_ascii: assumes "emailRegex s" shows "ascii_text s"
proof -
  let ?a = "\<lambda>c. c \<noteq> CHR 0x00 \<and> (of_char c :: nat) < 128"
  have cl: "local_char c \<Longrightarrow> ?a c" "domain_char c \<Longrightarrow> ?a c" "is_letter c \<Longrightarrow> ?a c" for c
    using char_classes [of c] by (auto simp: local_char_def domain_char_def)
  obtain l d t where s: "s = l @ ''@'' @ d @ ''.'' @ t" "list_all local_char l" "list_all domain_char d" "list_all is_letter t"
    using assms unfolding emailRegex_language email_language_def by blast
  have "list_all ?a l" by (rule list.pred_mono_strong [OF s(2)]) (use cl(1) in blast)
  moreover have "list_all ?a d" by (rule list.pred_mono_strong [OF s(3)]) (use cl(2) in blast)
  moreover have "list_all ?a t" by (rule list.pred_mono_strong [OF s(4)]) (use cl(3) in blast)
  ultimately show ?thesis by (simp add: s(1) ascii_text_def)
qed

section \<open>Authentication\<close>

lemma deny_simps [simp]:
  "snd (deny st msg rw w) = w" "fresh_writer rw \<Longrightarrow> st \<noteq> 0 \<Longrightarrow> rw_Status (fst (deny st msg rw w)) = st"
  by (simp_all add: deny_def)

context backend
begin

lemma GetByEmail_up:
  assumes "up w" "text_ok em" "active (\<lambda>v. user_Email v = em) (pg_accounts (tbl w)) = u # us"
  shows "fst (ur_GetByEmail (user_store db) em w) = Inr u"
proof -
  let ?xs = "filter (\<lambda>u. su_Email u = em \<and> \<not> su_IsDeleted u) (t_users (tbl w))"
  have "sql_sem getUserByEmail (clock w) [VStr em] (tbl w) = (Inr (map row_user ?xs), tbl w)"
    using assms(2) by (simp add: sel_users_def)
  from found_up [where scan = scan_user, OF assms(1) this scan_row(1)] assms(3) show ?thesis
    by (auto simp: user_store_def store_GetByEmail_def GetUserByEmail_def active_pg split: list.splits)
qed

lemma ValidateAccess_frame:
  "tbl (snd (ValidateAccess (redis_token_store rc) ut t w)) = tbl w"
  "kv (snd (ValidateAccess (redis_token_store rc) ut t w)) = kv w"
  using redis_tbl(2) [of "accessKey t" w] get_frame [of "accessKey t" w]
  by (auto simp: ValidateAccess_def redis_token_store_def GetAccessToken_def split: prod.splits sum.splits)

lemma Auth_cases:
  assumes "Auth (session_Validate (redis_token_store rc) ut) next r rw w = (rw', w')"
  obtains
    (passed) s e u w1 where "access_tokens (kv w) (extractAccessToken r) = Some (s, e)" "clock w < e" "uuid_Parse ut s = Inr u"
      "tbl w1 = tbl w" "kv w1 = kv w" "next (r\<lparr>rq_UserID := Some u\<rparr>) rw w1 = (rw', w')"
  | (refused) msg where "rw' = writeJSON 401 (error_json msg) rw" "tbl w' = tbl w" "kv w' = kv w"
proof (cases "extractAccessToken r = []")
  case True
  with assms show ?thesis by (intro refused [of "''missing or invalid token''"]) (simp_all add: Auth_def)
next
  case False
  obtain q w1 where v: "ValidateAccess (redis_token_store rc) ut (extractAccessToken r) w = (q, w1)" by (rule prod.exhaust)
  have f: "tbl w1 = tbl w" "kv w1 = kv w" using ValidateAccess_frame [of "extractAccessToken r" w] v by simp_all
  show ?thesis
  proof (cases q)
    case (Inl e)
    with assms v f False show ?thesis by (intro refused [of "''invalid or expired token''"]) (auto simp: Auth_def session_Validate_def)
  next
    case (Inr u)
    from pg_session_service.ValidateAccess_ok [OF v [unfolded Inr]] obtain s e where
      "access_tokens (kv w) (extractAccessToken r) = Some (s, e)" "clock w < e" "uuid_Parse ut s = Inr u"
      by (auto simp: live_def access_tokens_def split: option.splits if_splits simp del: live_views)
    with assms v f False Inr show ?thesis by (intro passed [of s e u w1]) (simp_all add: Auth_def session_Validate_def)
  qed
qed

end

text \<open>
  C5: \<open>Auth\<close> runs the handler behind it only for a request whose token Redis holds and has not let
  expire, with the user the token was issued to in the context; every other request is answered with
  401 and leaves the database and Redis as they were.
\<close>

theorem auth_guards_handler:
  assumes "backend db tbl clock up rc kv ut ent bc" "fresh_writer rw"
    and "Auth (session_Validate (redis_token_store rc) ut) next r rw w = (rw', w')"
  shows "(\<exists>s e u w1. access_tokens (kv w) (extractAccessToken r) = Some (s, e) \<and> clock w < e \<and> uuid_Parse ut s = Inr u \<and>
       tbl w1 = tbl w \<and> kv w1 = kv w \<and> next (r\<lparr>rq_UserID := Some u\<rparr>) rw w1 = (rw', w')) \<or>
    rw_Status rw' = 401 \<and> tbl w' = tbl w \<and> kv w' = kv w"
proof (rule backend.Auth_cases [OF assms(1,3)])
  fix msg assume "rw' = writeJSON 401 (error_json msg) rw" "tbl w' = tbl w" "kv w' = kv w"
  with assms(2) show ?thesis by simp
qed blast

lemma sim_token_nonempty [simp]: "hex_encode (sim_bytes s 32) \<noteq> []" "[] \<noteq> hex_encode (sim_bytes s 32)"
proof -
  have l: "length (hex_encode (sim_bytes s 32)) = 64" by (simp add: sim_bytes_def)
  show "hex_encode (sim_bytes s 32) \<noteq> []" using l by (metis list.size(3) zero_neq_numeral)
  then show "[] \<noteq> hex_encode (sim_bytes s 32)" by metis
qed

theorem auth_guards_handler_witness:
  "\<exists>rw' w'. Auth (session_Validate (redis_token_store sim_rc) uuid_std) (SessionPresenter_Logout sim_cfg)
     (post_body ''/auth/logout'' []) new_writer sim_login = (rw', w') \<and> rw_Status rw' = 401 \<and>
     sim_tables w' = sim_tables sim_login"
proof -
  let ?r = "post_body ''/auth/logout'' []"
  have a: "Auth (session_Validate (redis_token_store sim_rc) uuid_std) (SessionPresenter_Logout sim_cfg) ?r new_writer sim_login =
     (writeJSON 401 (error_json ''missing or invalid token'') new_writer, sim_login)"
    by (simp add: Auth_def extractAccessToken_def request_cookie_def header_get_def first_value_def post_body_def cut_prefix_def)
  have n: "access_tokens (sim_kv sim_login) (extractAccessToken ?r) = None"
    by (simp add: extractAccessToken_def request_cookie_def header_get_def first_value_def post_body_def cut_prefix_def
        sim_login_def sim_ada_def ada_def sim_eval access_tokens_def accessKey_def refreshKey_def)
  from auth_guards_handler [OF sim.backend_axioms fresh_new a] a n show ?thesis by auto
qed

section \<open>Accounts and sessions through the API\<close>

lemma active_mem: "active p us = u # vs \<Longrightarrow> u \<in> set us \<and> p u \<and> \<not> user_IsDeleted u"
  by (metis (no_types, lifting) active_def filter_eq_ConsD in_set_conv_decomp)

context backend
begin

lemma GetByEmail_frame: "tbl (snd (ur_GetByEmail (user_store db) em w)) = tbl w" "kv (snd (ur_GetByEmail (user_store db) em w)) = kv w"
    "clock w \<le> clock (snd (ur_GetByEmail (user_store db) em w))"
  using select_frame(1) [OF selects_users(2), of scan_user em w] db_kv(2) [of getUserByEmail "[VStr em]" w]
    db_clock(2) [of w getUserByEmail "[VStr em]"]
  by (auto simp: user_store_def store_GetByEmail_def GetUserByEmail_def found_def query_one_def
      split: prod.splits sum.splits option.splits)

text \<open>Every way through \<open>Login\<close> that is answered with 200.\<close>

lemma Login_200:
  assumes "wired cfg db rc ut ent bc" "schema_ok (tbl w)" "fresh_writer rw"
    and "SessionPresenter_Login cfg r rw w = (rw', w')" "rw_Status rw' = 200"
  obtains d u w1 tp where "decode_body 1024 loginRequest (rq_Body r) = Some d"
    "u \<in> set (pg_accounts (tbl w))" "\<not> user_IsDeleted u" "user_Email u = TrimSpace (str_field d ''email'')"
    "VerifyPassword bc (user_Password u) (TrimSpace (str_field d ''password'')) = None"
    "tbl w1 = tbl w" "kv w1 = kv w" "clock w \<le> clock w1" "Create_session db rc ent ut (user_ID u) w1 = (Inr tp, w')"
    "rw' = writeJSON 200 (loginResponse ut tp u)
       (SetRefreshCookie (RefreshToken tp) refreshCookieMaxAge (cf_Secure cfg)
         (SetAccessCookie (AccessToken tp) accessCookieMaxAge (cf_Secure cfg) rw))"
proof -
  note w = wiredD [OF assms(1)]
  obtain d where d: "decode_body 1024 loginRequest (rq_Body r) = Some d"
    using assms(3-5) by (cases "decode_body 1024 loginRequest (rq_Body r)") (auto simp: SessionPresenter_Login_def deny_def)
  let ?em = "TrimSpace (str_field d ''email'')" and ?pw = "TrimSpace (str_field d ''password'')"
  have n: "login_refusal ?em ?pw = None"
    using assms(3-5) d by (cases "login_refusal ?em ?pw") (auto simp: SessionPresenter_Login_def deny_def)
  obtain q w1 where q: "ur_GetByEmail (user_store db) ?em w = (q, w1)" by (rule prod.exhaust)
  then obtain u where u: "q = Inr u"
    using assms(3-5) d n w(2)
    by (cases q) (auto simp: SessionPresenter_Login_def user_GetByEmail_def deny_def split: if_splits)
  have v: "VerifyPassword bc (user_Password u) ?pw = None"
    using assms(3-5) d n w(2,11) q u
    by (cases "VerifyPassword bc (user_Password u) ?pw")
       (auto simp: SessionPresenter_Login_def user_GetByEmail_def deny_def split: if_splits)
  obtain c w2 where c: "Create_session db rc ent ut (user_ID u) w1 = (c, w2)" by (rule prod.exhaust)
  have l: "SessionPresenter_Login cfg r rw w = Login_session cfg u rw w1"
    using d n q u v w(2,11) by (simp add: SessionPresenter_Login_def user_GetByEmail_def)
  from c obtain tp where tp: "c = Inr tp"
    using assms(3-5) l w by (cases c) (auto simp: Login_session_def Create_session_def deny_def)
  obtain us where "active (\<lambda>v. user_Email v = ?em) (pg_accounts (tbl w)) = u # us"
    using pg_users.by_email.get_ok assms(2) q u by blast
  then have m: "u \<in> set (pg_accounts (tbl w))" "\<not> user_IsDeleted u" "user_Email u = ?em" using active_mem by blast+
  show ?thesis
  proof (rule that [OF d m v])
    show "tbl w1 = tbl w" "kv w1 = kv w" "clock w \<le> clock w1" using GetByEmail_frame [where em = ?em and w = w] q by simp_all
    show "Create_session db rc ent ut (user_ID u) w1 = (Inr tp, w')"
      using assms(4) l w c tp by (simp add: Login_session_def Create_session_def)
    show "rw' = writeJSON 200 (loginResponse ut tp u)
       (SetRefreshCookie (RefreshToken tp) refreshCookieMaxAge (cf_Secure cfg)
         (SetAccessCookie (AccessToken tp) accessCookieMaxAge (cf_Secure cfg) rw))"
      using assms(4) l w c tp by (simp add: Login_session_def Create_session_def)
  qed
qed

lemma Auth_live:
  assumes "request_cookie r AccessCookieName = Some t" "t \<noteq> []" "up w"
    and "live (access_tokens (kv w)) (clock w) t = Some (uuid_String ut u)"
  shows "\<exists>w1. tbl w1 = tbl w \<and> kv w1 = kv w \<and>
    Auth (session_Validate (redis_token_store rc) ut) next r rw w = next (r\<lparr>rq_UserID := Some u\<rparr>) rw w1"
proof -
  have t: "extractAccessToken r = t" using assms(1,2) by (simp add: extractAccessToken_def)
  obtain q w1 where v: "ValidateAccess (redis_token_store rc) ut t w = (q, w1)" by (rule prod.exhaust)
  moreover have "q = Inr u" using pg_session_service.ValidateAccess_live [OF assms(3,4)] v by simp
  moreover have "tbl w1 = tbl w" "kv w1 = kv w" using ValidateAccess_frame [of t w] v by simp_all
  ultimately show ?thesis using t assms(2) by (intro exI [of _ w1]) (simp add: Auth_def session_Validate_def)
qed

end

text \<open>
  C3: a login answered with 200 was made with the e-mail address of an account that is not deleted
  and a password its hash accepts. It sets two cookies, of the access and of the refresh token, and
  for fifteen minutes a request that brings the first one back gets past \<open>Auth\<close> as that account.
\<close>

theorem login_authenticates:
  assumes "backend db tbl clock up rc kv ut ent bc" "wired cfg db rc ut ent bc" "schema_ok (tbl w)" "fresh_writer rw"
    and "SessionPresenter_Login cfg r rw w = (rw', w1)" "rw_Status rw' = 200"
  shows "\<exists>d u (tp :: token_pair). decode_body 1024 loginRequest (rq_Body r) = Some d \<and>
    u \<in> set (pg_accounts (tbl w)) \<and> \<not> user_IsDeleted u \<and> user_Email u = TrimSpace (str_field d ''email'') \<and>
    VerifyPassword bc (user_Password u) (TrimSpace (str_field d ''password'')) = None \<and>
    map (\<lambda>c. (ck_Name c, ck_Value c)) (rw_SentCookies rw') = map (\<lambda>c. (ck_Name c, ck_Value c)) (rw_Cookies rw) @
      [(AccessCookieName, AccessToken tp), (RefreshCookieName, RefreshToken tp)] \<and>
    (\<forall>r2 rw2 w2. request_cookie r2 AccessCookieName = Some (AccessToken tp) \<and> up w2 \<and>
       access_tokens (kv w2) (AccessToken tp) = access_tokens (kv w1) (AccessToken tp) \<and>
       clock w2 < clock w + AccessTokenTTL \<longrightarrow>
       (\<exists>w3. tbl w3 = tbl w2 \<and> kv w3 = kv w2 \<and>
          Auth (session_Validate (redis_token_store rc) ut) next r2 rw2 w2 = next (r2\<lparr>rq_UserID := Some (user_ID u)\<rparr>) rw2 w3))"
proof (rule backend.Login_200 [OF assms])
  fix d and u :: user and w0 and tp :: token_pair
  let ?t = "AccessToken tp"
  assume l: "decode_body 1024 loginRequest (rq_Body r) = Some d" "u \<in> set (pg_accounts (tbl w))" "\<not> user_IsDeleted u"
    "user_Email u = TrimSpace (str_field d ''email'')"
    "VerifyPassword bc (user_Password u) (TrimSpace (str_field d ''password'')) = None"
    and w0: "tbl w0 = tbl w" "kv w0 = kv w" "clock w \<le> clock w0"
    and c: "Create_session db rc ent ut (user_ID u) w0 = (Inr tp, w1)"
    and rw: "rw' = writeJSON 200 (loginResponse ut tp u)
       (SetRefreshCookie (RefreshToken tp) refreshCookieMaxAge (cf_Secure cfg)
         (SetAccessCookie ?t accessCookieMaxAge (cf_Secure cfg) rw))"
  have ok: "schema_ok (tbl w0)" using w0 assms(3) by simp
  note s = backend.session_facts(1-5) [OF assms(1) ok c [unfolded Create_session_def]]
  have cookies: "map (\<lambda>c. (ck_Name c, ck_Value c)) (rw_SentCookies rw') = map (\<lambda>c. (ck_Name c, ck_Value c)) (rw_Cookies rw) @
      [(AccessCookieName, ?t), (RefreshCookieName, RefreshToken tp)]"
    using assms(4) by (simp add: rw SetRefreshCookie_def SetAccessCookie_def http_SetCookie_def fresh_writer_def)
  have "\<exists>w3. tbl w3 = tbl w2 \<and> kv w3 = kv w2 \<and>
      Auth (session_Validate (redis_token_store rc) ut) next r2 rw2 w2 = next (r2\<lparr>rq_UserID := Some (user_ID u)\<rparr>) rw2 w3"
    if "request_cookie r2 AccessCookieName = Some ?t" "up w2" "access_tokens (kv w2) ?t = access_tokens (kv w1) ?t"
      "clock w2 < clock w + AccessTokenTTL" for r2 rw2 w2
  proof (rule backend.Auth_live [OF assms(1) that(1) _ that(2)])
    show "?t \<noteq> []" using s(1) by auto
    obtain e where "access_tokens (kv w1) ?t = Some (uuid_String ut (user_ID u), e)" "clock w0 + AccessTokenTTL \<le> e"
      using s(4) by (auto simp: expires_within_def)
    with that w0 show "live (access_tokens (kv w2)) (clock w2) ?t = Some (uuid_String ut (user_ID u))"
      by (simp add: live_def del: live_views)
  qed
  with l cookies show ?thesis by (intro exI [of _ d] exI [of _ u] exI [of _ tp]) blast
qed

context backend
begin

lemma Register_handler_cases:
  assumes "wired cfg db rc ut ent bc" "schema_ok (tbl w)" "fresh_writer rw"
    and "UserPresenter_Register cfg r rw w = (rw', w')"
  obtains
    (created) d v where "rw_Status rw' = 201" "decode_body 1024 registerRequest (rq_Body r) = Some d"
      "in_Name (register_input_of d) \<noteq> []" "in_Username (register_input_of d) \<noteq> []"
      "validateRegisterInput (register_input_of d) = None"
      "Register (user_store db) bc ent (register_input_of d) w = (Inr v, w')"
      "rw' = writeJSON 201 (userResponse ut v) rw"
  | (refused) "rw_Status rw' \<in> {400, 409}" "pg_accounts (tbl w') = pg_accounts (tbl w)"
  | (failed) "rw_Status rw' = 500"
proof -
  note w = wiredD [OF assms(1)]
  show ?thesis
  proof (cases "decode_body 1024 registerRequest (rq_Body r)")
    case None
    with assms(3,4) show ?thesis by (intro refused) (auto simp: UserPresenter_Register_def deny_def)
  next
    case (Some d)
    let ?q = "register_input_of d"
    consider "in_Name ?q = [] \<or> in_Username ?q = [] \<or> in_Password ?q = [] \<or> in_Email ?q = []"
      | msg where "validateRegisterInput ?q = Some msg"
        "\<not> (in_Name ?q = [] \<or> in_Username ?q = [] \<or> in_Password ?q = [] \<or> in_Email ?q = [])"
      | "validateRegisterInput ?q = None"
        "\<not> (in_Name ?q = [] \<or> in_Username ?q = [] \<or> in_Password ?q = [] \<or> in_Email ?q = [])"
      by (meson option.exhaust)
    then show ?thesis
    proof cases
      case 1
      with Some assms(3,4) show ?thesis by (intro refused) (auto simp: UserPresenter_Register_def deny_def Let_def)
    next
      case 2
      with Some assms(3,4) show ?thesis by (intro refused) (auto simp: UserPresenter_Register_def deny_def Let_def)
    next
      case 3
      obtain x w1 where x: "Register (user_store db) bc ent ?q w = (x, w1)" by (rule prod.exhaust)
      show ?thesis
      proof (cases x)
        case (Inl e)
        with Some 3 assms(4) x w have h: "(rw', w') =
          (if errors_is e user_ErrEmailTaken then deny 409 ''email already taken'' rw w1
           else if errors_is e user_ErrUsernameTaken then deny 409 ''username already taken'' rw w1
           else deny 500 ''internal server error'' rw w1)"
          by (simp add: UserPresenter_Register_def Let_def)
        have acc: "errors_is e user_ErrEmailTaken \<or> errors_is e user_ErrUsernameTaken \<Longrightarrow>
          pg_accounts (tbl w1) = pg_accounts (tbl w)"
          using pg_user_service.Register_failure(2,3) [OF assms(2) x [unfolded Inl]] by blast
        show ?thesis
        proof (cases "errors_is e user_ErrEmailTaken \<or> errors_is e user_ErrUsernameTaken")
          case True
          with h acc assms(3) show ?thesis by (intro refused) (auto simp: deny_def split: if_splits)
        next
          case False
          with h assms(3) show ?thesis by (intro failed) (simp add: deny_def)
        qed
      next
        case (Inr v)
        with Some 3 assms(3,4) x w show ?thesis
          by (intro created [of d v]) (auto simp: UserPresenter_Register_def Let_def)
      qed
    qed
  qed
qed

end

lemma validateRegisterInput_None:
  "validateRegisterInput q = None \<longleftrightarrow> length (in_Name q) \<le> 255 \<and> length (in_Username q) \<le> 255 \<and>
     length (in_Email q) \<le> 255 \<and> emailRegex (in_Email q) \<and> 8 \<le> length (in_Password q) \<and> length (in_Password q) \<le> 72"
  by (simp add: validateRegisterInput_def input_limits not_less)


text \<open>
  After a registration answered with 201, a login with the same e-mail address and password
  passes the credential check and goes on to open a session for the new account, provided that the
  password neither begins nor ends with white space. If it does and the hash function tells the
  trimmed password from the given one, the login is refused: \<open>Login\<close> trims the password, \<open>Register\<close> does not.
\<close>

theorem register_then_login:
  assumes "backend db tbl clock up rc kv ut ent bc" "wired cfg db rc ut ent bc" "schema_ok (tbl w)" "fresh_writer rw"
    and "UserPresenter_Register cfg r rw w = (rw', w1)" "rw_Status rw' = 201" "up w1"
    and "decode_body 1024 registerRequest (rq_Body r) = Some d" "decode_body 1024 loginRequest (rq_Body r2) = Some d2"
    and "str_field d2 ''email'' = str_field d ''email''" "str_field d2 ''password'' = str_field d ''password''"
  shows "\<exists>v w2. pg_accounts (tbl w1) = pg_accounts (tbl w) @ [v] \<and> tbl w2 = tbl w1 \<and>
    (TrimSpace (str_field d ''password'') = str_field d ''password'' \<longrightarrow>
       SessionPresenter_Login cfg r2 rw2 w1 = Login_session cfg v rw2 w2) \<and>
    (VerifyPassword bc (user_Password v) (TrimSpace (str_field d ''password'')) =
         Some (Sentinel bcrypt_ErrMismatchedHashAndPassword) \<and> TrimSpace (str_field d ''password'') \<noteq> [] \<longrightarrow>
       SessionPresenter_Login cfg r2 rw2 w1 = deny 401 ''invalid credentials'' rw2 w2)"
proof (rule backend.Register_handler_cases [OF assms(1-5)])
  fix d' v
  let ?em = "TrimSpace (str_field d ''email'')" and ?pw = "str_field d ''password''"
  assume a: "decode_body 1024 registerRequest (rq_Body r) = Some d'"
    "validateRegisterInput (register_input_of d') = None" "Register (user_store db) bc ent (register_input_of d') w = (Inr v, w1)"
  have d: "d' = d" using a(1) assms(8) by simp
  from a(2) have lim: "emailRegex ?em" "length ?em \<le> 255" "8 \<le> length ?pw" "length ?pw \<le> 72"
    by (simp_all add: d validateRegisterInput_None register_input_of_def)
  then have em: "?em \<noteq> []" "text_ok ?em" using email_ascii varchar_ascii(1) by (auto simp: emailRegex_def)
  from backend.pg_Register(1) [OF assms(1,3) a(3)] have acc: "pg_accounts (tbl w1) = pg_accounts (tbl w) @ [v]"
    and r: "registered bc (register_input_of d) v" and fr: "fresh_account (pg_accounts (tbl w)) v" by (simp_all add: d)
  have v: "user_Email v = ?em" "\<not> user_IsDeleted v" "VerifyPassword bc (user_Password v) ?pw = None"
    using r by (simp_all add: registered_def register_input_of_def)
  have "active (\<lambda>x. user_Email x = ?em) (pg_accounts (tbl w1)) = [v]"
    using fr v by (auto simp: acc active_def fresh_account_def list_all_iff filter_empty_conv)
  from backend.GetByEmail_up [OF assms(1,7) em(2) this]
  obtain w2 where g: "ur_GetByEmail (user_store db) ?em w1 = (Inr v, w2)" by (metis prod.collapse)
  have t: "tbl w2 = tbl w1" using backend.GetByEmail_frame(1) [OF assms(1), where em = ?em and w = w1] g by simp
  have l: "length (TrimSpace ?pw) \<le> 72" using lim(4) length_TrimSpace [of ?pw] by simp
  note login = SessionPresenter_Login_def user_GetByEmail_def login_refusal_def input_limits Let_def
  have "SessionPresenter_Login cfg r2 rw2 w1 = Login_session cfg v rw2 w2" if "TrimSpace ?pw = ?pw"
    using that assms(9-11) em lim g v wiredD [OF assms(2)] by (auto simp: login)
  moreover have "SessionPresenter_Login cfg r2 rw2 w1 = deny 401 ''invalid credentials'' rw2 w2"
    if "VerifyPassword bc (user_Password v) (TrimSpace ?pw) = Some (Sentinel bcrypt_ErrMismatchedHashAndPassword)"
      "TrimSpace ?pw \<noteq> []"
    using that assms(9-11) em lim l g v wiredD [OF assms(2)] by (auto simp: login)
  ultimately show ?thesis using acc t by blast
qed (use assms(6) in auto)

section \<open>An account and a session in the simulated services\<close>

definition sim_register_body :: string where
  "sim_register_body = json_text (JObj [(''name'', JStr ''Ada''), (''username'', JStr ''ada''),
     (''password'', JStr ''secret12''), (''email'', JStr ''ada@x.org'')])"

definition sim_login_body :: string where
  "sim_login_body = json_text (JObj [(''email'', JStr ''ada@x.org''), (''password'', JStr ''secret12'')])"

definition sim_registered :: sim where
  "sim_registered = snd (UserPresenter_Register sim_cfg (post_body ''/auth/register'' sim_register_body) new_writer sim_init)"

lemmas decode_eval = decode_value_def set_field_def field_for_def registerRequest_def loginRequest_def

lemma sim_register_decoded:
  "decode_body 1024 registerRequest sim_register_body =
     Some [''name'' \<mapsto> JStr ''Ada'', ''username'' \<mapsto> JStr ''ada'', ''password'' \<mapsto> JStr ''secret12'', ''email'' \<mapsto> JStr ''ada@x.org'']"
  unfolding sim_register_body_def
  by (subst decode_body_text, simp add: decode_rune_def Let_def,
      rule order_trans [OF json_size_bound(1)], simp, simp add: decode_eval)

lemma sim_login_decoded:
  "decode_body 1024 loginRequest sim_login_body = Some [''email'' \<mapsto> JStr ''ada@x.org'', ''password'' \<mapsto> JStr ''secret12'']"
  unfolding sim_login_body_def
  by (subst decode_body_text, simp add: decode_rune_def Let_def,
      rule order_trans [OF json_size_bound(1)], simp, simp add: decode_eval)

definition ada_input :: register_input where
  "ada_input = ada\<lparr>in_Password := ''secret12''\<rparr>"

lemma sim_trimmed:
  "TrimSpace ''Ada'' = ''Ada''" "TrimSpace ''ada'' = ''ada''" "TrimSpace ''secret12'' = ''secret12''"
  "TrimSpace ''ada@x.org'' = ''ada@x.org''"
  by (simp_all add: TrimSpace_def trim_chunks_def is_space_def decode_rune_def Let_def)

lemma sim_email: "emailRegex ''ada@x.org''"
  by (simp add: emailRegex_def domain_ok_def local_char_def domain_char_def is_letter_def is_digit_def)

lemma sim_register_input:
  "register_input_of [''name'' \<mapsto> JStr ''Ada'', ''username'' \<mapsto> JStr ''ada'', ''password'' \<mapsto> JStr ''secret12'',
     ''email'' \<mapsto> JStr ''ada@x.org''] = ada_input"
  by (simp add: register_input_of_def str_field_def sim_trimmed ada_def ada_input_def)

lemma sim_register_account:
  "\<exists>v w. Register (user_store sim_db) sim_bcrypt sim_ent ada_input sim_init = (Inr v, w) \<and> sim_up w"
  by (simp add: ada_def ada_input_def sim_eval sim_up_def)

lemma sim_register:
  obtains rw' where
    "UserPresenter_Register sim_cfg (post_body ''/auth/register'' sim_register_body) new_writer sim_init = (rw', sim_registered)"
    "rw_Status rw' = 201" "sim_up sim_registered"
proof -
  obtain v w where v: "Register (user_store sim_db) sim_bcrypt sim_ent ada_input sim_init = (Inr v, w)" "sim_up w"
    using sim_register_account by blast
  have f: "in_Name ada_input \<noteq> [] \<and> in_Username ada_input \<noteq> [] \<and> in_Password ada_input \<noteq> [] \<and> in_Email ada_input \<noteq> []"
    "validateRegisterInput ada_input = None"
    by (simp_all add: ada_input_def ada_def validateRegisterInput_None sim_email)
  have "UserPresenter_Register sim_cfg (post_body ''/auth/register'' sim_register_body) new_writer sim_init =
      (writeJSON 201 (userResponse uuid_std v) new_writer, w)"
    using v f by (simp add: UserPresenter_Register_def post_body_def sim_register_decoded sim_register_input sim_cfg_def)
  with v(2) that show thesis by (simp add: sim_registered_def)
qed


lemma sim_register_login_fields:
  "str_field [''email'' \<mapsto> JStr ''ada@x.org'', ''password'' \<mapsto> JStr ''secret12''] f =
   str_field [''name'' \<mapsto> JStr ''Ada'', ''username'' \<mapsto> JStr ''ada'', ''password'' \<mapsto> JStr ''secret12'', ''email'' \<mapsto> JStr ''ada@x.org''] f"
  if "f = ''email'' \<or> f = ''password''"
  using that by (auto simp: str_field_def)

theorem register_then_login_witness:
  "\<exists>v w2. pg_accounts (sim_tables sim_registered) = [v] \<and>
     SessionPresenter_Login sim_cfg (post_body ''/auth/login'' sim_login_body) new_writer sim_registered =
       Login_session sim_cfg v new_writer w2"
proof (rule sim_register)
  fix rw'
  let ?d = "[''name'' \<mapsto> JStr ''Ada'', ''username'' \<mapsto> JStr ''ada'', ''password'' \<mapsto> JStr ''secret12'', ''email'' \<mapsto> JStr ''ada@x.org'']"
  assume r: "UserPresenter_Register sim_cfg (post_body ''/auth/register'' sim_register_body) new_writer sim_init =
      (rw', sim_registered)" and st: "rw_Status rw' = 201" "sim_up sim_registered"
  have d: "decode_body 1024 registerRequest (rq_Body (post_body ''/auth/register'' sim_register_body)) = Some ?d"
    "decode_body 1024 loginRequest (rq_Body (post_body ''/auth/login'' sim_login_body)) =
       Some [''email'' \<mapsto> JStr ''ada@x.org'', ''password'' \<mapsto> JStr ''secret12'']"
    by (simp_all add: post_body_def sim_register_decoded sim_login_decoded)
  have t: "TrimSpace (str_field ?d ''password'') = str_field ?d ''password''" by (simp add: str_field_def sim_trimmed)
  have e: "pg_accounts (sim_tables sim_init) = []" by (simp add: pg_accounts_def sim_init_def empty_tables_def)
  from register_then_login [OF sim.backend_axioms sim_wired sim_init_ok(1) fresh_new r st d
      sim_register_login_fields sim_register_login_fields, of new_writer] t e show ?thesis by auto
qed

text \<open>The session the login opens in a world where \<open>ada\<close> is the only user.\<close>

lemma sim_login_account:
  "\<exists>u w2. ur_GetByEmail (user_store sim_db) ''ada@x.org'' sim_ada = (Inr u, w2) \<and> user_ID u = 0 \<and>
     VerifyPassword sim_bcrypt (user_Password u) ''secret'' = None \<and>
     (\<exists>tp w3. Create_session sim_db sim_rc sim_ent uuid_std 0 w2 = (Inr tp, w3))"
  by (simp add: sim_ada_def ada_def VerifyPassword_def fromSqlcUser_def fromPgUUID_def sim_eval numeral_2_eq_2)

definition ada_login :: http_request where
  "ada_login = post_body ''/auth/login'' (json_text (JObj [(''email'', JStr ''ada@x.org''), (''password'', JStr ''secret'')]))"

lemma ada_login_decoded:
  "decode_body 1024 loginRequest (rq_Body ada_login) = Some [''email'' \<mapsto> JStr ''ada@x.org'', ''password'' \<mapsto> JStr ''secret'']"
  unfolding ada_login_def post_body_def http_request.simps
  by (subst decode_body_text, simp add: decode_rune_def Let_def,
      rule order_trans [OF json_size_bound(1)], simp, simp add: decode_eval)

lemma ada_login_200:
  "\<exists>rw' w1. SessionPresenter_Login sim_cfg ada_login new_writer sim_ada = (rw', w1) \<and> rw_Status rw' = 200"
proof -
  obtain u w2 tp w3 where u: "ur_GetByEmail (user_store sim_db) ''ada@x.org'' sim_ada = (Inr u, w2)" "user_ID u = 0"
    "VerifyPassword sim_bcrypt (user_Password u) ''secret'' = None"
    "Create_session sim_db sim_rc sim_ent uuid_std 0 w2 = (Inr tp, w3)"
    using sim_login_account by blast
  have t: "TrimSpace ''secret'' = ''secret''"
    by (simp add: TrimSpace_def trim_chunks_def is_space_def decode_rune_def Let_def)
  have "SessionPresenter_Login sim_cfg ada_login new_writer sim_ada = Login_session sim_cfg u new_writer w2"
    using u by (simp add: SessionPresenter_Login_def ada_login_decoded str_field_def sim_trimmed t login_refusal_def input_limits
        user_GetByEmail_def sim_cfg_def)
  with u show ?thesis
    by (simp add: Login_session_def sim_cfg_def Create_session_def SetRefreshCookie_def SetAccessCookie_def)
qed

theorem login_authenticates_witness:
  "\<exists>rw' w1. SessionPresenter_Login sim_cfg ada_login new_writer sim_ada = (rw', w1) \<and>
     (\<exists>u (tp :: token_pair). u \<in> set (pg_accounts (sim_tables sim_ada)) \<and>
        map (\<lambda>c. (ck_Name c, ck_Value c)) (rw_SentCookies rw') =
          [(AccessCookieName, AccessToken tp), (RefreshCookieName, RefreshToken tp)])"
proof -
  obtain rw' w1 where l: "SessionPresenter_Login sim_cfg ada_login new_writer sim_ada = (rw', w1)" "rw_Status rw' = 200"
    using ada_login_200 by blast
  have n: "rw_Cookies new_writer = []" by (simp add: new_writer_def)
  from login_authenticates [OF sim.backend_axioms sim_wired sim_ada_ok fresh_new l] obtain u and tp :: token_pair
    where "u \<in> set (pg_accounts (sim_tables sim_ada))" "map (\<lambda>c. (ck_Name c, ck_Value c)) (rw_SentCookies rw') =
      map (\<lambda>c. (ck_Name c, ck_Value c)) (rw_Cookies new_writer) @ [(AccessCookieName, AccessToken tp), (RefreshCookieName, RefreshToken tp)]"
    by blast
  with l(1) n show ?thesis by (intro exI [of _ rw'] exI [of _ w1] conjI exI [of _ u] exI [of _ tp]) simp_all
qed

end
