(* ===== verification/ResourceApi.thy ===== *)
theory ResourceApi
  imports AuthApi
begin

text \<open>
  The presenters for what a user owns: \<^verbatim>\<open>organization_presenter.go\<close> and \<^verbatim>\<open>repository_presenter.go\<close>. Their
  handlers run behind \<open>Auth\<close> and read the user from the context of the request.
\<close>

section \<open>Organizations\<close>

definition createOrganizationRequest :: fields where
  "createOrganizationRequest = [(''name'', FString), (''description'', FString)]"

definition addOrganizationUserRequest :: fields where
  "addOrganizationUserRequest = [(''user_id'', FString)]"

text \<open>A member with \<open>omitempty\<close> is left out when it is the empty string.\<close>

definition omitempty :: "string \<Rightarrow> string \<Rightarrow> (string \<times> json) list" where
  "omitempty key v = (if v = [] then [] else [(key, JStr v)])"

definition toOrganizationResponse :: "uuid_text \<Rightarrow> organization \<Rightarrow> json" where
  "toOrganizationResponse ut org = JObj ([(''id'', JStr (uuid_String ut (org_ID org))), (''name'', JStr (org_Name org))] @
     omitempty ''description'' (org_Description org))"

fun userBelongsToOrg :: "organization list \<Rightarrow> uuid \<Rightarrow> bool" where
  "userBelongsToOrg [] orgID = False"
| "userBelongsToOrg (org # orgs) orgID = (if org_ID org = orgID then True else userBelongsToOrg orgs orgID)"

definition ensureCreatorMembership :: "'w config \<Rightarrow> uuid \<Rightarrow> uuid \<Rightarrow> 'w go_err" where
  "ensureCreatorMembership cfg orgID userID w =
     (case org_AddUser (cf_Orgs cfg) orgID userID w of
        (Some e, w1) \<Rightarrow> (Some e, snd (org_DeleteByID (cf_Orgs cfg) orgID w1))
      | (None, w1) \<Rightarrow> (None, w1))"

definition OrganizationPresenter_Create :: "'w config \<Rightarrow> 'w handler" where
  "OrganizationPresenter_Create cfg r rw w =
     (case UserIDFromContext r of
        None \<Rightarrow> deny 401 ''unauthorized'' rw w
      | Some authUserID \<Rightarrow>
     (case decode_body 1024 createOrganizationRequest (rq_Body r) of
        None \<Rightarrow> deny 400 ''invalid request body'' rw w
      | Some d \<Rightarrow>
     (let nm = TrimSpace (str_field d ''name''); description = TrimSpace (str_field d ''description'') in
      if nm = [] then deny 400 ''name is required'' rw w
      else case org_Create (cf_Orgs cfg) (cf_Entropy cfg) \<lparr>oin_Name = nm, oin_Description = description\<rparr> w of
        (Inl e, w1) \<Rightarrow> deny 500 ''internal server error'' rw w1
      | (Inr org, w1) \<Rightarrow>
     (case ensureCreatorMembership cfg (org_ID org) authUserID w1 of
        (Some e, w2) \<Rightarrow> deny 500 ''internal server error'' rw w2
      | (None, w2) \<Rightarrow> (writeJSON 201 (toOrganizationResponse (cf_UUID cfg) org) rw, w2)))))"

definition OrganizationPresenter_List :: "'w config \<Rightarrow> 'w handler" where
  "OrganizationPresenter_List cfg r rw w =
     (case UserIDFromContext r of
        None \<Rightarrow> deny 401 ''unauthorized'' rw w
      | Some authUserID \<Rightarrow>
     (case org_GetByUserID (cf_Orgs cfg) authUserID w of
        (Inl e, w1) \<Rightarrow> deny 500 ''internal server error'' rw w1
      | (Inr orgs, w1) \<Rightarrow> (writeJSON 200 (JArr (map (toOrganizationResponse (cf_UUID cfg)) orgs)) rw, w1)))"

text \<open>The part of \<open>AddUser\<close> after the identifiers were read.\<close>

definition AddUser_authorized :: "'w config \<Rightarrow> uuid \<Rightarrow> uuid \<Rightarrow> uuid \<Rightarrow> response_writer \<Rightarrow> 'w \<Rightarrow> response_writer \<times> 'w" where
  "AddUser_authorized cfg authUserID orgID userID rw w =
     (case org_GetByUserID (cf_Orgs cfg) authUserID w of
        (Inl e, w1) \<Rightarrow> deny 500 ''internal server error'' rw w1
      | (Inr authUserOrgs, w1) \<Rightarrow>
      if \<not> userBelongsToOrg authUserOrgs orgID then deny 403 ''forbidden'' rw w1
      else case org_AddUser (cf_Orgs cfg) orgID userID w1 of
        (Some e, w2) \<Rightarrow>
          if errors_is e organization_ErrNotFound then deny 404 ''organization not found'' rw w2
          else deny 500 ''internal server error'' rw w2
      | (None, w2) \<Rightarrow> (writeJSON 200 (message_json ''user added'') rw, w2))"

definition OrganizationPresenter_AddUser :: "'w config \<Rightarrow> 'w handler" where
  "OrganizationPresenter_AddUser cfg r rw w =
     (case UserIDFromContext r of
        None \<Rightarrow> deny 401 ''unauthorized'' rw w
      | Some authUserID \<Rightarrow>
     (case uuid_Parse (cf_UUID cfg) (rq_PathValue r ''orgID'') of
        Inl _ \<Rightarrow> deny 400 ''invalid org id'' rw w
      | Inr orgID \<Rightarrow>
     (case decode_body 1024 addOrganizationUserRequest (rq_Body r) of
        None \<Rightarrow> deny 400 ''invalid request body'' rw w
      | Some d \<Rightarrow>
     (case uuid_Parse (cf_UUID cfg) (TrimSpace (str_field d ''user_id'')) of
        Inl _ \<Rightarrow> deny 400 ''invalid user id'' rw w
      | Inr userID \<Rightarrow> AddUser_authorized cfg authUserID orgID userID rw w))))"

section \<open>Repositories\<close>

definition createRepositoryRequest :: fields where
  "createRepositoryRequest = [(''name'', FString), (''description'', FString), (''is_private'', FBool), (''default_ref'', FString)]"

definition toRepositoryResponse :: "uuid_text \<Rightarrow> git_repository \<Rightarrow> json" where
  "toRepositoryResponse ut repo = JObj ([(''id'', JStr (uuid_String ut (git_ID repo))), (''name'', JStr (git_Name repo))] @
     omitempty ''description'' (git_Description repo) @ [(''is_private'', JBool (git_IsPrivate repo)),
     (''owner_id'', JStr (uuid_String ut (git_OwnerID repo)))] @ omitempty ''default_ref'' (git_DefaultRef repo))"

definition repository_input :: "decoded \<Rightarrow> uuid \<Rightarrow> uuid \<Rightarrow> git_create_input" where
  "repository_input d i owner = \<lparr>gin_Id = i, gin_Name = TrimSpace (str_field d ''name''),
     gin_Description = TrimSpace (str_field d ''description''), gin_IsPrivate = bool_field d ''is_private'',
     gin_OwnerID = owner, gin_DefaultRef = TrimSpace (str_field d ''default_ref'')\<rparr>"

text \<open>The record is taken back when the repository could not be made on disk.\<close>

definition repository_rollback :: "'w config \<Rightarrow> uuid \<Rightarrow> 'w \<Rightarrow> 'w" where
  "repository_rollback cfg i w =
     (case gr_SoftDelete (cf_RepoStore cfg) i w of
        (Some _, w1) \<Rightarrow> snd (gr_Delete (cf_RepoStore cfg) i w1)
      | (None, w1) \<Rightarrow> w1)"

definition RepositoryPresenter_Create :: "'w config \<Rightarrow> 'w handler" where
  "RepositoryPresenter_Create cfg r rw w =
     (case UserIDFromContext r of
        None \<Rightarrow> deny 401 ''unauthorized'' rw w
      | Some authUserID \<Rightarrow>
     (case decode_body 1024 createRepositoryRequest (rq_Body r) of
        None \<Rightarrow> deny 400 ''invalid request body'' rw w
      | Some d \<Rightarrow>
      if gin_Name (repository_input d 0 authUserID) = [] then deny 400 ''name is required'' rw w
      else if ValidateRepoName (gin_Name (repository_input d 0 authUserID)) \<noteq> None
      then deny 400 ''invalid repository name'' rw w
      else case uuid_New (cf_GitService cfg) w of
        (repoID, w1) \<Rightarrow>
     (case gr_Create (cf_RepoStore cfg) (repository_input d repoID authUserID) w1 of
        (Inl e, w2) \<Rightarrow>
          if errors_is e git_ErrRepoAlreadyExists then deny 409 ''repository already exists'' rw w2
          else deny 500 ''internal server error'' rw w2
      | (Inr repo, w2) \<Rightarrow>
     (case git_Create (cf_GitService cfg) (cf_ReposDir cfg) (repository_input d 0 authUserID) w2 of
        (Inl e, w3) \<Rightarrow> deny 500 ''internal server error'' rw (repository_rollback cfg (git_ID repo) w3)
      | (Inr _, w3) \<Rightarrow> (writeJSON 201 (toRepositoryResponse (cf_UUID cfg) repo) rw, w3)))))"

definition RepositoryPresenter_List :: "'w config \<Rightarrow> 'w handler" where
  "RepositoryPresenter_List cfg r rw w =
     (case UserIDFromContext r of
        None \<Rightarrow> deny 401 ''unauthorized'' rw w
      | Some authUserID \<Rightarrow>
     (case gr_ListByOwner (cf_RepoStore cfg) authUserID w of
        (Inl e, w1) \<Rightarrow> deny 500 ''internal server error'' rw w1
      | (Inr repos, w1) \<Rightarrow> (writeJSON 200 (JArr (map (toRepositoryResponse (cf_UUID cfg)) repos)) rw, w1)))"

definition RepositoryPresenter_Delete :: "'w config \<Rightarrow> 'w handler" where
  "RepositoryPresenter_Delete cfg r rw w =
     (case UserIDFromContext r of
        None \<Rightarrow> deny 401 ''unauthorized'' rw w
      | Some authUserID \<Rightarrow>
     (case uuid_Parse (cf_UUID cfg) (TrimSpace (rq_PathValue r ''id'')) of
        Inl _ \<Rightarrow> deny 400 ''invalid repository id'' rw w
      | Inr repoID \<Rightarrow>
     (case gr_GetByID (cf_RepoStore cfg) repoID w of
        (Inl e, w1) \<Rightarrow>
          if errors_is e git_ErrRepoNotFound then deny 404 ''repository not found'' rw w1
          else deny 500 ''internal server error'' rw w1
      | (Inr repo, w1) \<Rightarrow>
      if git_OwnerID repo \<noteq> authUserID then deny 403 ''forbidden'' rw w1
      else case gr_SoftDelete (cf_RepoStore cfg) repoID w1 of
        (Some e, w2) \<Rightarrow>
          if errors_is e git_ErrRepoNotFound then deny 404 ''repository not found'' rw w2
          else deny 500 ''internal server error'' rw w2
      | (None, w2) \<Rightarrow> (WriteHeader 204 rw, w2))))"

end
