(* ===== verification/ResourceProps.thy ===== *)
theory ResourceProps
  imports ResourceApi
begin

text \<open>
  Who may change what: the handlers of organizations and repositories over the database.
\<close>

section \<open>Organizations\<close>

lemma userBelongsToOrg_iff: "userBelongsToOrg gs i \<longleftrightarrow> i \<in> org_ID ` set gs"
  by (induction gs) auto

context backend
begin

lemma org_AddUser_err:
  assumes "schema_ok (tbl w)" "org_AddUser (organization_store db) i u w = (Some e, w')"
  shows "pg_orgs (tbl w') = pg_orgs (tbl w) \<and> (pg_members (tbl w') = pg_members (tbl w) \<or>
    u \<in> pg_user_ids (tbl w) \<and> pg_members (tbl w') = insert (i, u) (pg_members (tbl w)))"
proof -
  have "Exec db addUserToOrganization [VUuid (toPgUUID i), VUuid (toPgUUID u)] w = (Some e, w')"
    using assms(2) by (simp add: org_AddUser_def organization_store_def orgstore_AddUser_def AddUserToOrganization_def)
  then show ?thesis
  proof (cases rule: exec_err_cases)
    case (2 rows)
    from addUser_sem [OF assms(1) this] show ?thesis by blast
  qed simp
qed

lemma org_GetByUserID_result:
  assumes "schema_ok (tbl w)" "org_GetByUserID (organization_store db) u w = (r, w')"
  shows "tbl w' = tbl w" "r = Inr gs \<Longrightarrow> userBelongsToOrg gs i \<longleftrightarrow> (i, u) \<in> pg_members (tbl w)"
proof -
  show t: "tbl w' = tbl w"
    using assms(2) select_frame(2) [OF selects_organizations(2), where scan = scan_organization]
    by (auto simp: org_GetByUserID_def organization_store_def orgstore_GetByUserID_def GetOrganizationsByUserID_def
        split: prod.splits sum.splits dest: arg_cong [where f = "\<lambda>p. tbl (snd p)"])
  assume "r = Inr gs"
  with assms have "gs = filter (\<lambda>g. (org_ID g, u) \<in> pg_members (tbl w)) (pg_orgs (tbl w))"
    using org_laws(6) by (simp add: org_GetByUserID_def)
  with pg_members_exist [OF assms(1), of i u] show "userBelongsToOrg gs i \<longleftrightarrow> (i, u) \<in> pg_members (tbl w)"
    by (auto simp: userBelongsToOrg_iff with_id_def filter_empty_conv)
qed

lemma AddUser_authorized_cases:
  assumes "wired cfg db rc ut ent bc" "schema_ok (tbl w)" "fresh_writer rw"
    and "AddUser_authorized cfg a i u rw w = (rw', w')"
  obtains "rw_Status rw' = 200" "(i, a) \<in> pg_members (tbl w)" "(i, u) \<notin> pg_members (tbl w)" "u \<in> pg_user_ids (tbl w)"
      "pg_members (tbl w') = insert (i, u) (pg_members (tbl w))" "pg_orgs (tbl w') = pg_orgs (tbl w)"
    | "rw_Status rw' = 403" "(i, a) \<notin> pg_members (tbl w)" "tbl w' = tbl w"
    | "rw_Status rw' = 500" "tbl w' = tbl w"
    | "rw_Status rw' = 500" "(i, a) \<in> pg_members (tbl w)" "u \<in> pg_user_ids (tbl w)"
      "pg_members (tbl w') = insert (i, u) (pg_members (tbl w))" "pg_orgs (tbl w') = pg_orgs (tbl w)"
    | "rw_Status rw' = 500" "pg_members (tbl w') = pg_members (tbl w)" "pg_orgs (tbl w') = pg_orgs (tbl w)"
proof -
  note wires [simp] = wiredD [OF assms(1)]
  obtain x w1 where g: "org_GetByUserID (organization_store db) a w = (x, w1)" by (rule prod.exhaust)
  note same = org_GetByUserID_result [OF assms(2) g]
  show ?thesis
  proof (cases x)
    case (Inl e)
    with assms(3,4) g same(1) show ?thesis by (auto simp: AddUser_authorized_def deny_def intro: that(3))
  next
    case (Inr gs)
    note m = same(2) [OF Inr, of i]
    show ?thesis
    proof (cases "(i, a) \<in> pg_members (tbl w)")
      case False
      with assms(3,4) g Inr m same(1) show ?thesis by (auto simp: AddUser_authorized_def deny_def intro: that(2))
    next
      case True
      obtain y w2 where y: "org_AddUser (organization_store db) i u w1 = (y, w2)" by (rule prod.exhaust)
      have ok: "schema_ok (tbl w1)" using same(1) assms(2) by simp
      show ?thesis
      proof (cases y)
        case None
        with y have "or_AddUser (organization_store db) i u w1 = (None, w2)" by (simp add: org_AddUser_def)
        from org_laws(4) [OF ok this] None assms(3,4) g Inr m same(1) True y show ?thesis
          by (auto simp: AddUser_authorized_def intro: that(1))
      next
        case (Some e)
        have "Exec db addUserToOrganization [VUuid (toPgUUID i), VUuid (toPgUUID u)] w1 = (Some e, w2)"
          using y Some by (simp add: org_AddUser_def organization_store_def orgstore_AddUser_def AddUserToOrganization_def)
        from exec_err [OF this] have "\<not> errors_is e organization_ErrNotFound" by (simp add: foreign_def)
        with Some assms(3,4) g Inr m True y have r: "rw_Status rw' = 500" "w' = w2"
          by (auto simp: AddUser_authorized_def deny_def)
        show ?thesis using org_AddUser_err [OF ok y [unfolded Some]] same(1) r True that(4,5) by auto
      qed
    qed
  qed
qed

end



section \<open>Repositories\<close>

context backend
begin

lemma gitstore_GetByID_same:
  assumes "gitstore_GetByID db i w = (r, w')"
  shows "tbl w' = tbl w"
  using assms select_frame(1) [OF selects_repositories(1), of scan_repository "toPgUUID i" w]
  by (auto simp: gitstore_GetByID_def GetRepositoryByID_def dest: arg_cong [where f = "\<lambda>p. tbl (snd p)"])

lemma gitstore_SoftDelete_err:
  assumes "schema_ok (tbl w)" "gitstore_SoftDelete db i w = (Some e, w')"
  shows "\<not> errors_is e git_ErrRepoNotFound \<and> (pg_repos (tbl w') = pg_repos (tbl w) \<or>
    (\<exists>t. pg_repos (tbl w') = change_repo i (deleted_repo t) (pg_repos (tbl w))))"
proof -
  let ?args = "[VUuid (toPgUUID i)]"
  have q: "query_one db softDeleteRepository scan_repository ?args w = (Inl e, w')"
    using assms(2) by (auto simp: gitstore_SoftDelete_def SoftDeleteRepository_def err_of_def split: prod.splits sum.splits)
  have "tbl w' \<in> {tbl w, snd (sql_sem softDeleteRepository (clock w) ?args (tbl w))}"
    using query_one_none [OF q] query_one_err [OF q] by (metis insertCI snd_conv)
  moreover have "snd (sql_sem softDeleteRepository (clock w) ?args (tbl w)) = tbl w \<or>
      (\<exists>t. pg_repos (snd (sql_sem softDeleteRepository (clock w) ?args (tbl w))) = change_repo i (deleted_repo t) (pg_repos (tbl w)))"
  proof (cases "sql_sem softDeleteRepository (clock w) ?args (tbl w)")
    case (Pair r t)
    show ?thesis
    proof (cases "\<exists>row rows. r = Inr (row # rows)")
      case True
      with Pair softDelete_sem [OF assms(1)] show ?thesis by fastforce
    next
      case False
      with Pair have "filter (\<lambda>g. sg_ID g = toPgUUID i) (t_git_repository (tbl w)) = []"
        by (cases "filter (\<lambda>g. sg_ID g = toPgUUID i) (t_git_repository (tbl w))") (auto simp: soft_del_repository_def)
      with Pair have "t = tbl w"
        by (auto simp: soft_del_repository_def filter_empty_conv map_idI cong: map_cong)
      with Pair show ?thesis by simp
    qed
  qed
  ultimately show ?thesis using query_one_foreign [OF q, of git_ErrRepoNotFound] by auto
qed

end

text \<open>
  C10: Only the owner deletes a repository. The handler changes no record but the one of the path, and
  that one only if the caller owns it; 204 says that it is marked as deleted now, 403 that it exists,
  belongs to somebody else, and is as it was. 404 says that there is no such record.
\<close>

theorem repository_deletion:
  assumes "backend db tbl clock up rc kv ut ent bc" "wired cfg db rc ut ent bc" "schema_ok (tbl w)" "fresh_writer rw"
    and "rq_UserID r = Some a" "RepositoryPresenter_Delete cfg r rw w = (rw', w')"
    and "uuid_Parse ut (TrimSpace (rq_PathValue r ''id'')) = Inr i"
  shows "(pg_repos (tbl w') \<noteq> pg_repos (tbl w) \<longrightarrow>
      (\<exists>g t. filter (\<lambda>g. git_ID g = i) (pg_repos (tbl w)) = [g] \<and> git_OwnerID g = a \<and>
         pg_repos (tbl w') = change_repo i (deleted_repo t) (pg_repos (tbl w)))) \<and>
    (rw_Status rw' = 204 \<longrightarrow>
      (\<exists>g t. filter (\<lambda>g. git_ID g = i) (pg_repos (tbl w)) = [g] \<and> git_OwnerID g = a \<and>
         pg_repos (tbl w') = change_repo i (deleted_repo t) (pg_repos (tbl w)))) \<and>
    (rw_Status rw' = 403 \<longrightarrow> tbl w' = tbl w \<and>
      (\<exists>g. filter (\<lambda>g. git_ID g = i) (pg_repos (tbl w)) = [g] \<and> git_OwnerID g \<noteq> a)) \<and>
    (rw_Status rw' = 404 \<longrightarrow> tbl w' = tbl w \<and> (\<forall>g \<in> set (pg_repos (tbl w)). git_ID g \<noteq> i))"
proof -
  note [simp] = RepositoryPresenter_Delete_def UserIDFromContext_def wiredD [OF assms(2)] assms(5,7) deny_def git_store_def
  obtain x w1 where g: "gitstore_GetByID db i w = (x, w1)" by (rule prod.exhaust)
  have same: "tbl w1 = tbl w" using backend.gitstore_GetByID_same [OF assms(1) g] .
  show ?thesis
  proof (cases x)
    case (Inl e)
    have "errors_is e git_ErrRepoNotFound \<Longrightarrow> \<forall>g \<in> set (pg_repos (tbl w)). git_ID g \<noteq> i"
      using backend.git_laws(3) [OF assms(1,3), unfolded git_store_simps, OF g [unfolded Inl]] by (simp add: filter_empty_conv)
    with Inl g same assms(4,6) show ?thesis by (auto split: if_splits)
  next
    case (Inr h)
    have one: "filter (\<lambda>g. git_ID g = i) (pg_repos (tbl w)) = [h]"
      using backend.git_laws(2) [OF assms(1,3), unfolded git_store_simps, OF g [unfolded Inr]] by simp
    obtain y w2 where y: "gitstore_SoftDelete db i w1 = (y, w2)" by (rule prod.exhaust)
    have ok: "schema_ok (tbl w1)" using same assms(3) by simp
    show ?thesis
    proof (cases "git_OwnerID h = a")
      case False
      with Inr g same one assms(4,6) show ?thesis by auto
    next
      case True
      show ?thesis
      proof (cases y)
        case None
        from backend.git_laws(8) [OF assms(1) ok, unfolded git_store_simps gitstore_Delete_def, OF y [unfolded None]] None True Inr g same y one assms(4,6)
        show ?thesis by (auto simp: WriteHeader_def send_header_def fresh_writer_def)
      next
        case (Some e)
        from backend.gitstore_SoftDelete_err [OF assms(1) ok y [unfolded Some]] Some True Inr g same y one assms(4,6)
        show ?thesis by auto
      qed
    qed
  qed
qed

definition delete_demo :: http_request where
  "delete_demo = (post_body ''/repos/7'' [])
     \<lparr>rq_Method := ''DELETE'', rq_PathValue := (\<lambda>_. ''00000000-0000-0000-0000-000000000007''), rq_UserID := Some 0\<rparr>"

lemma delete_demo_user: "rq_UserID delete_demo = Some 0"
  by (simp add: delete_demo_def)

lemma delete_demo_id: "uuid_Parse uuid_std (TrimSpace (rq_PathValue delete_demo ''id'')) = Inr 7"
proof -
  have "TrimSpace ''00000000-0000-0000-0000-000000000007'' = ''00000000-0000-0000-0000-000000000007''"
    by (simp add: TrimSpace_def trim_chunks_def is_space_def decode_rune_def Let_def)
  moreover have "uuid_Parse uuid_std ''00000000-0000-0000-0000-000000000007'' = Inr 7"
    by (simp add: uuid_std_def uuid_std_Parse_def Let_def hex_text_value_def hex_val_def digit_val_def)
  ultimately show ?thesis by (simp add: delete_demo_def)
qed

lemma sim_demo_found: "\<exists>g w1 w2. gitstore_GetByID sim_db 7 sim_repo = (Inr g, w1) \<and> git_OwnerID g = 0 \<and>
    gitstore_SoftDelete sim_db 7 w1 = (None, w2)"
  by (simp add: sim_repo_def demo_repo_def sim_ada_def ada_def sim_eval)

lemma delete_demo_204:
  "\<exists>rw' w'. RepositoryPresenter_Delete sim_cfg delete_demo new_writer sim_repo = (rw', w') \<and> rw_Status rw' = 204"
  using sim_demo_found
  by (auto simp: RepositoryPresenter_Delete_def delete_demo_id delete_demo_user UserIDFromContext_def wiredD [OF sim_wired] git_store_def
      WriteHeader_def send_header_def new_writer_def)

theorem repository_deletion_witness:
  "\<exists>rw' w' t. RepositoryPresenter_Delete sim_cfg delete_demo new_writer sim_repo = (rw', w') \<and> rw_Status rw' = 204 \<and>
     pg_repos (sim_tables w') = change_repo 7 (deleted_repo t) (pg_repos (sim_tables sim_repo))"
proof -
  obtain rw' w' where r: "RepositoryPresenter_Delete sim_cfg delete_demo new_writer sim_repo = (rw', w')" "rw_Status rw' = 204"
    using delete_demo_204 by blast
  with repository_deletion [OF sim.backend_axioms sim_wired sim_repo_ok fresh_new delete_demo_user r(1) delete_demo_id]
  show ?thesis by blast
qed

section \<open>Repositories on disk and in the database\<close>








section \<open>The founder of an organization\<close>

context backend
begin

lemma org_Create_up:
  assumes "schema_ok (tbl w)" "org_Create (organization_store db) ent inp w = (r, w')"
  shows "up w \<Longrightarrow> up w'" "schema_ok (tbl w')" "r = Inl e \<Longrightarrow> up w \<Longrightarrow> tbl w' = tbl w"
proof -
  obtain x w1 where n: "NewV7 ent w = (x, w1)" by (rule prod.exhaust)
  have n1: "tbl w1 = tbl w" "up w \<Longrightarrow> up w1" using entropy_tbl(2) [of w] entropy_up(2) [of w] n by simp_all
  define g where "g = \<lparr>org_ID = projr x, org_Name = oin_Name inp, org_Description = oin_Description inp\<rparr>"
  define args where "args = [VUuid (toPgUUID (org_ID g)), VStr (org_Name g), VText (nullable (org_Description g))]"
  have all: "(up w \<longrightarrow> up w') \<and> schema_ok (tbl w') \<and> (r = Inl e \<longrightarrow> up w \<longrightarrow> tbl w' = tbl w)"
  proof (cases x)
    case (Inl e')
    with assms n n1 show ?thesis by (auto simp: org_Create_def)
  next
    case (Inr i)
    obtain y w2 where q: "query_one db createOrganization scan_organization args w1 = (y, w2)" by (rule prod.exhaust)
    have w2: "w' = w2" "r = Inl e \<Longrightarrow> \<exists>e'. y = Inl e'"
      using assms(2) n Inr q by (auto simp: org_Create_def organization_store_def orgstore_Create_def CreateOrganization_def
          g_def args_def split: sum.splits)
    have ok: "schema_ok (tbl w1)" using n1 assms(1) by simp
    note sem = createOrganization_sem [OF ok, of "clock w1" g, folded args_def]
    have "tbl w2 = tbl w" if y: "y = Inl e'" and u: "up w" for e'
    proof (rule ccontr)
      assume "tbl w2 \<noteq> tbl w"
      moreover have "sql_sem createOrganization (clock w1) args (tbl w1) \<noteq> (Inr [], t')" for t' using sem by blast
      ultimately obtain row rows where s: "sql_sem createOrganization (clock w1) args (tbl w1) = (Inr (row # rows), tbl w2)"
        using insert_err [OF q [unfolded y]] n1(1) by auto
      with sem obtain h where "row = row_organization h" "rows = []" by blast
      with query_one_up [where scan = scan_organization, OF n1(2) [OF u] s] q y show False by auto
    qed
    with w2 schema_ok_step(1) [OF q ok] query_one_frame(1) [OF n1(2), of createOrganization scan_organization args] q
    show ?thesis by auto
  qed
  then show "up w \<Longrightarrow> up w'" "schema_ok (tbl w')" "r = Inl e \<Longrightarrow> up w \<Longrightarrow> tbl w' = tbl w" by blast+
qed

lemma ensureCreatorMembership_err:
  assumes "wired cfg db rc ut ent bc" "schema_ok (tbl w)" "up w" "ensureCreatorMembership cfg i a w = (Some e, w')"
    and "\<forall>u. (i, u) \<notin> pg_members (tbl w)"
  shows "pg_orgs (tbl w') = filter (\<lambda>g. org_ID g \<noteq> i) (pg_orgs (tbl w)) \<and> pg_members (tbl w') = pg_members (tbl w)"
proof -
  let ?args = "[VUuid (toPgUUID i), VUuid (toPgUUID a)]"
  obtain w1 where x: "Exec db addUserToOrganization ?args w = (Some e, w1)"
    and d: "snd (Exec db deleteOrganizationByID [VUuid (toPgUUID i)] w1) = w'"
    using assms(4) by (auto simp: ensureCreatorMembership_def wiredD [OF assms(1)] org_AddUser_def org_DeleteByID_def
        organization_store_def orgstore_AddUser_def AddUserToOrganization_def orgstore_DeleteByID_def DeleteOrganizationByID_def
        split: prod.splits option.splits)
  have t1: "tbl w1 = tbl w" using x
  proof (cases rule: exec_err_cases)
    case (2 rows)
    from exec_up [OF assms(3) this] x show ?thesis by simp
  qed
  have up: "up w1" using db_up(1) [OF assms(3), of addUserToOrganization ?args] x by simp
  obtain t' where s: "sql_sem deleteOrganizationByID (clock w1) [VUuid (toPgUUID i)] (tbl w1) = (Inr [], t')"
    by (simp add: del_organization_def)
  have "Exec db deleteOrganizationByID [VUuid (toPgUUID i)] w1 = (None, w')"
    using exec_up [OF up s] d by (cases "Exec db deleteOrganizationByID [VUuid (toPgUUID i)] w1") simp
  from exec_ok [OF this] obtain rows
    where "sql_sem deleteOrganizationByID (clock w1) [VUuid (toPgUUID i)] (tbl w) = (Inr rows, tbl w')" unfolding t1 by blast
  from deleteOrganization_sem [OF assms(2) this] assms(5) show ?thesis by auto
qed

end





end
