(* ===== verification/Float64.thy ===== *)
theory Float64
  imports Complex_Main GoStrings "HOL-Library.Log_Nat"
begin

text \<open>
  The 64-bit floating point numbers of Go and Lua, as far as the program uses them: a number is the
  rational it stands for, and every operation is the exact one followed by \<open>fl\<close>, rounding to 53
  significant bits, ties to even. The range of exponents is not bounded here; the operations of the
  program overflow nowhere, and where they underflow (the fractions of \<open>ParseDuration\<close>) only
  the integer part is used, which is 0 with and without the bound.
\<close>

section \<open>Rounding\<close>

definition rne :: "rat \<Rightarrow> int" where
  "rne q = (let n = \<lfloor>q\<rfloor>; r = q - of_int n in
     if r < 1 / 2 then n else if 1 / 2 < r then n + 1 else if even n then n else n + 1)"

definition ilog2 :: "rat \<Rightarrow> int" where
  "ilog2 x = (let (p, q) = quotient_of x; k = int (floorlog 2 (nat p)) - int (floorlog 2 (nat q)) in
     if 2 powi k \<le> x then k else k - 1)"

definition fl_pos :: "rat \<Rightarrow> rat" where
  "fl_pos x = (let u = 2 powi (ilog2 x - 52) in of_int (rne (x / u)) * u)"

definition fl :: "rat \<Rightarrow> rat" where
  "fl x = (if x = 0 then 0 else if x < 0 then - fl_pos (- x) else fl_pos x)"

lemma rne_of_int [simp]: "rne (of_int n) = n"
  by (simp add: rne_def)

lemma rne_bounds: "\<lfloor>q\<rfloor> \<le> rne q" "rne q \<le> \<lfloor>q\<rfloor> + 1" "of_int (rne q) - q \<le> 1 / 2" "q - of_int (rne q) \<le> 1 / 2"
  by (auto simp: rne_def Let_def) linarith+

lemma rne_mono:
  assumes "p \<le> q"
  shows "rne p \<le> rne q"
proof (cases "\<lfloor>p\<rfloor> = \<lfloor>q\<rfloor>")
  case True
  with assms show ?thesis by (auto simp: rne_def Let_def)
next
  case False
  with assms have "\<lfloor>p\<rfloor> + 1 \<le> \<lfloor>q\<rfloor>" using floor_mono [OF assms] by simp
  with rne_bounds [of p] rne_bounds [of q] show ?thesis by linarith
qed

lemma ilog2_bounds:
  assumes "0 < x"
  shows "2 powi ilog2 x \<le> x" "x < 2 powi (ilog2 x + 1)"
proof -
  obtain p q where pq: "quotient_of x = (p, q)" by (rule prod.exhaust)
  have q: "0 < q" and x: "x = of_int p / of_int q" using quotient_of_denom_pos [OF pq] quotient_of_div [OF pq] by auto
  with assms have p: "0 < p" by (simp add: zero_less_divide_iff)
  define a where "a = floorlog 2 (nat p)"
  define b where "b = floorlog 2 (nat q)"
  have a: "2 ^ (a - 1) \<le> nat p" "nat p < 2 ^ a" and b: "2 ^ (b - 1) \<le> nat q" "nat q < 2 ^ b"
    using floorlog_bounds [of "nat p" 2] floorlog_bounds [of "nat q" 2] p q by (simp_all add: a_def b_def)
  have ab: "0 < a" "0 < b" using p q by (simp_all add: a_def b_def floorlog_eq_zero_iff neq0_conv [symmetric] del: neq0_conv)
  have np: "(of_nat (nat p) :: rat) = of_int p" "(of_nat (nat q) :: rat) = of_int q" using p q by (simp_all add: of_nat_nat)
  have r: "(2::rat) ^ (a - 1) \<le> of_int p" "of_int p < (2::rat) ^ a" "(2::rat) ^ (b - 1) \<le> of_int q" "of_int q < (2::rat) ^ b"
    using of_nat_mono [OF a(1), where 'a = rat] of_nat_less_iff [where 'a = rat, THEN iffD2, OF a(2)]
      of_nat_mono [OF b(1), where 'a = rat] of_nat_less_iff [where 'a = rat, THEN iffD2, OF b(2)] np by simp_all
  define k where "k = int a - int b"
  have i: "ilog2 x = (if 2 powi k \<le> x then k else k - 1)"
    by (simp add: ilog2_def pq Let_def k_def a_def b_def)
  have "x < 2 ^ a / 2 ^ (b - 1)" unfolding x using r p q by (intro frac_less) simp_all
  also have "2 ^ a / 2 ^ (b - 1) = (2::rat) powi (k + 1)"
    using ab by (cases b) (simp_all add: k_def power_int_diff power_int_add)
  finally have up: "x < 2 powi (k + 1)" .
  have "2 powi (k - 1) = (2::rat) ^ (a - 1) / 2 ^ b"
    using ab by (cases a) (simp_all add: k_def power_int_diff power_int_add)
  also have "2 ^ (a - 1) / 2 ^ b \<le> x" unfolding x using r p q by (intro frac_le) simp_all
  finally have lo: "2 powi (k - 1) \<le> x" .
  show "2 powi ilog2 x \<le> x" "x < 2 powi (ilog2 x + 1)" using up lo i by (auto split: if_splits)
qed

lemma ilog2_mono: "0 < x \<Longrightarrow> x \<le> y \<Longrightarrow> ilog2 x \<le> ilog2 y"
proof (rule ccontr)
  assume a: "0 < x" "x \<le> y" "\<not> ilog2 x \<le> ilog2 y"
  then have "(2::rat) powi (ilog2 y + 1) \<le> 2 powi ilog2 x" by (intro power_int_increasing) simp_all
  with ilog2_bounds [of x] ilog2_bounds [of y] a show False by linarith
qed

lemma scaled:
  assumes "0 < x"
  shows "2 ^ 52 \<le> x / 2 powi (ilog2 x - 52)" "x / 2 powi (ilog2 x - 52) < 2 ^ 53"
proof -
  have e: "(2::rat) powi ilog2 x = 2 ^ 52 * 2 powi (ilog2 x - 52)" "(2::rat) powi (ilog2 x + 1) = 2 ^ 53 * 2 powi (ilog2 x - 52)"
    using power_int_add [of "2::rat" 52 "ilog2 x - 52"] power_int_add [of "2::rat" 53 "ilog2 x - 52"]
    by (simp_all add: add.commute)
  have u: "(0::rat) < 2 powi (ilog2 x - 52)" by simp
  show "2 ^ 52 \<le> x / 2 powi (ilog2 x - 52)" using ilog2_bounds(1) [OF assms] u unfolding e(1) by (subst pos_le_divide_eq)
  show "x / 2 powi (ilog2 x - 52) < 2 ^ 53" using ilog2_bounds(2) [OF assms] u unfolding e(2) by (subst pos_divide_less_eq)
qed

lemma fl_pos_bounds:
  assumes "0 < x"
  shows "2 powi ilog2 x \<le> fl_pos x" "fl_pos x \<le> 2 powi (ilog2 x + 1)"
proof -
  let ?u = "2 powi (ilog2 x - 52) :: rat"
  have "(2::int) ^ 52 \<le> rne (x / ?u)" "rne (x / ?u) \<le> 2 ^ 53"
    using rne_mono [of "2 ^ 52" "x / ?u"] rne_mono [of "x / ?u" "2 ^ 53"] scaled [OF assms]
      rne_of_int [of "2 ^ 52"] rne_of_int [of "2 ^ 53"] by simp_all
  then have r: "(2::rat) ^ 52 \<le> of_int (rne (x / ?u))" "of_int (rne (x / ?u)) \<le> (2::rat) ^ 53"
    by (simp_all flip: of_int_power_le_of_int_cancel_iff of_int_le_of_int_power_cancel_iff)
  have e: "(2::rat) powi ilog2 x = 2 ^ 52 * ?u" "(2::rat) powi (ilog2 x + 1) = 2 ^ 53 * ?u"
    using power_int_add [of "2::rat" 52 "ilog2 x - 52"] power_int_add [of "2::rat" 53 "ilog2 x - 52"]
    by (simp_all add: add.commute)
  show "2 powi ilog2 x \<le> fl_pos x" "fl_pos x \<le> 2 powi (ilog2 x + 1)"
    unfolding fl_pos_def Let_def e using r by (intro mult_right_mono; simp)+
qed

lemma fl_pos_mono:
  assumes "0 < x" "x \<le> y"
  shows "fl_pos x \<le> fl_pos y"
proof (cases "ilog2 x = ilog2 y")
  case True
  have "x / 2 powi (ilog2 x - 52) \<le> y / 2 powi (ilog2 x - 52)" using assms(2) by (intro divide_right_mono) simp_all
  then have "rne (x / 2 powi (ilog2 x - 52)) \<le> rne (y / 2 powi (ilog2 x - 52))" by (rule rne_mono)
  then show ?thesis unfolding fl_pos_def Let_def True [symmetric] by (intro mult_right_mono) simp_all
next
  case False
  with ilog2_mono [OF assms] have "(2::rat) powi (ilog2 x + 1) \<le> 2 powi ilog2 y" by (intro power_int_increasing) simp_all
  with fl_pos_bounds(2) [OF assms(1)] fl_pos_bounds(1) [of y] assms show ?thesis by linarith
qed

lemma fl_pos_gt0: "0 < x \<Longrightarrow> 0 < fl_pos x"
  using fl_pos_bounds(1) [of x] zero_less_power_int [of "2::rat" "ilog2 x"] by linarith

lemma fl_0 [simp]: "fl 0 = 0"
  by (simp add: fl_def)

lemma fl_minus: "fl (- x) = - fl x"
  by (simp add: fl_def)

lemma fl_mono: "x \<le> y \<Longrightarrow> fl x \<le> fl y"
  using fl_pos_mono [of x y] fl_pos_mono [of "- y" "- x"] fl_pos_gt0 [of y] fl_pos_gt0 [of "- x"]
  by (auto simp: fl_def)

lemma fl_nonneg: "0 \<le> x \<Longrightarrow> 0 \<le> fl x"
  using fl_mono [of 0 x] by simp

lemma fl_pos_exact:
  assumes "0 < n" "n \<le> 2 ^ 53"
  shows "fl_pos (of_int n) = of_int n"
proof -
  let ?x = "of_int n :: rat" and ?e = "ilog2 (of_int n)"
  have e: "?e \<le> 53"
  proof (rule ccontr)
    assume "\<not> ?e \<le> 53"
    then have "(2::rat) powi 54 \<le> 2 powi ?e" by (intro power_int_increasing) simp_all
    with ilog2_bounds(1) [of ?x] assms(1) have "(2::rat) ^ 54 \<le> ?x" by simp
    moreover have "?x \<le> 2 ^ 53" using assms(2) by (simp flip: of_int_le_of_int_power_cancel_iff)
    ultimately show False by simp
  qed
  have "\<exists>m. ?x / 2 powi (?e - 52) = of_int m"
  proof (cases "?e = 53")
    case True
    with ilog2_bounds(1) [of ?x] assms(1) have "(2::rat) ^ 53 \<le> ?x" by simp
    then have "2 ^ 53 \<le> n" by (simp flip: of_int_power_le_of_int_cancel_iff)
    with assms(2) have "n = 2 ^ 53" by simp
    with True show ?thesis by (intro exI [of _ "2 ^ 52"]) simp
  next
    case False
    with e have "?e \<le> 52" by simp
    then have "(2::rat) powi (?e - 52) = inverse (2 ^ nat (52 - ?e))"
      using power_int_minus [of "2::rat" "52 - ?e"] by (simp add: power_int_nonneg_exp)
    then have "?x / 2 powi (?e - 52) = of_int (n * 2 ^ nat (52 - ?e))" by (simp add: divide_inverse)
    then show ?thesis by blast
  qed
  then obtain m where m: "?x / 2 powi (?e - 52) = of_int m" by blast
  have "fl_pos ?x = of_int m * 2 powi (?e - 52)" by (simp only: fl_pos_def Let_def m rne_of_int)
  also have "\<dots> = ?x" using m by (metis nonzero_divide_eq_eq power_int_not_zero zero_neq_numeral)
  finally show ?thesis .
qed

lemma fl_of_int: "\<bar>n\<bar> \<le> 2 ^ 53 \<Longrightarrow> fl (of_int n) = of_int n"
  using fl_pos_exact [of n] fl_pos_exact [of "- n"] by (auto simp: fl_def)

lemma ilog2_unique:
  assumes "2 powi k \<le> x" "x < 2 powi (k + 1)"
  shows "ilog2 x = k"
proof -
  have x: "0 < x" using assms(1) zero_less_power_int [of "2::rat" k] by linarith
  have "\<not> ilog2 x < k"
  proof
    assume "ilog2 x < k"
    then have "(2::rat) powi (ilog2 x + 1) \<le> 2 powi k" by (intro power_int_increasing) simp_all
    with ilog2_bounds(2) [OF x] assms(1) show False by linarith
  qed
  moreover have "\<not> k < ilog2 x"
  proof
    assume "k < ilog2 x"
    then have "(2::rat) powi (k + 1) \<le> 2 powi ilog2 x" by (intro power_int_increasing) simp_all
    with ilog2_bounds(1) [OF x] assms(2) show False by linarith
  qed
  ultimately show ?thesis by simp
qed

lemma fl_pos_scale:
  assumes "0 < x"
  shows "fl_pos (x * 2 powi k) = fl_pos x * 2 powi k"
proof -
  have "ilog2 (x * 2 powi k) = ilog2 x + k"
  proof (rule ilog2_unique)
    have "(2::rat) powi (ilog2 x + k) = 2 powi ilog2 x * 2 powi k" "(2::rat) powi (ilog2 x + k + 1) = 2 powi (ilog2 x + 1) * 2 powi k"
      by (simp_all add: power_int_add ac_simps)
    then show "2 powi (ilog2 x + k) \<le> x * 2 powi k" "x * 2 powi k < 2 powi (ilog2 x + k + 1)"
      using ilog2_bounds [OF assms] by simp_all
  qed
  moreover have "x * 2 powi k / 2 powi (ilog2 x + k - 52) = x / 2 powi (ilog2 x - 52)"
    by (simp add: power_int_add power_int_diff)
  ultimately show ?thesis by (simp add: fl_pos_def Let_def power_int_add power_int_diff)
qed

lemma fl_scale: "fl (x * 2 powi k) = fl x * 2 powi k"
proof -
  have u: "(0::rat) < 2 powi k" by simp
  consider "x = 0" | "0 < x" | "x < 0" by linarith
  then show ?thesis
  proof cases
    case 2
    have "\<not> x * 2 powi k < 0" "x * 2 powi k \<noteq> 0" using mult_pos_pos [OF 2 u] by linarith+
    with 2 fl_pos_scale [OF 2, of k] show ?thesis by (simp add: fl_def)
  next
    case 3
    with mult_neg_pos [OF 3 u] fl_pos_scale [of "- x" k] show ?thesis by (simp add: fl_def)
  qed simp
qed

text \<open>Numbers with at most 53 bits, wherever their binary point is, are not rounded.\<close>

lemma fl_dyadic: "\<bar>n\<bar> \<le> 2 ^ 53 \<Longrightarrow> fl (of_int n / 2 ^ k) = of_int n / 2 ^ k"
  using fl_scale [of "of_int n" "- int k"] fl_of_int [of n] by (simp add: power_int_minus divide_inverse)

section \<open>Decimal text\<close>

text \<open>\<open>fmt.Sprintf("%.6f")\<close> and Lua's \<open>string.format("%.3f")\<close>: the exact value, rounded to that many digits.\<close>

definition sprintf_f :: "nat \<Rightarrow> rat \<Rightarrow> string" where
  "sprintf_f d x =
     (let n = nat (rne (\<bar>x\<bar> * 10 ^ d)); f = nat_text (n mod 10 ^ d) in
      (if x < 0 then ''-'' else []) @ nat_text (n div 10 ^ d) @ ''.'' @ replicate (d - length f) (CHR ''0'') @ f)"

text \<open>
  Reading back what \<open>sprintf_f\<close> writes, as \<open>strconv.ParseFloat\<close> and Lua's \<open>tonumber\<close> do: an optional
  sign, digits, and a point with digits. The other forms these functions accept are not needed.
\<close>

definition dec_step :: "nat \<Rightarrow> char \<Rightarrow> nat" where
  "dec_step a c = 10 * a + (of_char c - 48)"

definition digits_value :: "string \<Rightarrow> nat option" where
  "digits_value s = (if s = [] \<or> \<not> list_all is_digit s then None
     else Some (foldl dec_step 0 s))"

definition parse_decimal :: "string \<Rightarrow> rat option" where
  "parse_decimal s =
     (let (neg, d) = (case s of c # cs \<Rightarrow> if c = CHR ''-'' then (True, cs) else (False, s) | [] \<Rightarrow> (False, []));
          i = takeWhile (\<lambda>c. c \<noteq> CHR ''.'') d; f = drop 1 (dropWhile (\<lambda>c. c \<noteq> CHR ''.'') d) in
      case digits_value (i @ f) of
        None \<Rightarrow> None
      | Some n \<Rightarrow> Some (fl ((if neg then - 1 else 1) * (of_nat n / 10 ^ length f))))"

lemma digits_foldl: "foldl dec_step a s = a * 10 ^ length s + foldl dec_step 0 s"
proof (induction s arbitrary: a)
  case (Cons c s)
  have "dec_step a c = 10 * a + dec_step 0 c" by (simp add: dec_step_def)
  with Cons.IH [of "dec_step a c"] Cons.IH [of "dec_step 0 c"] show ?case by (simp add: algebra_simps)
qed simp

lemma not_digits: "\<not> is_digit (CHR ''.'')" "\<not> is_digit (CHR ''-'')"
  by (simp_all add: is_digit_def)

lemma nat_text_digits: "list_all is_digit (nat_text n)"
proof (induction n rule: nat_text.induct)
  case (1 n)
  then show ?case by (cases "n < 10") (simp_all add: nat_text.simps [of n] is_digit_def of_char_mod_256)
qed

lemma nat_text_value: "foldl dec_step 0 (nat_text n) = n"
proof (induction n rule: nat_text.induct)
  case (1 n)
  then show ?case by (cases "n < 10") (simp_all add: nat_text.simps [of n] of_char_mod_256 dec_step_def)
qed

lemma length_nat_text: "0 < d \<Longrightarrow> n < 10 ^ d \<Longrightarrow> length (nat_text n) \<le> d"
proof (induction n arbitrary: d rule: nat_text.induct)
  case (1 n)
  show ?case
  proof (cases "n < 10")
    case True
    with 1(2) show ?thesis by (simp add: nat_text.simps [of n])
  next
    case False
    with 1(3) obtain e where e: "d = Suc e" "0 < e" by (cases d; cases "d - 1") auto
    with 1(3) have "n div 10 < 10 ^ e" by (simp add: div_less_iff_less_mult mult.commute)
    with 1(1) [OF False e(2)] e show ?thesis using False by (simp add: nat_text.simps [of n])
  qed
qed

text \<open>Reading the text of a number gives the number rounded to the digits written.\<close>

lemma parse_sprintf_f:
  assumes "0 \<le> x" "0 < d"
  shows "parse_decimal (sprintf_f d x) = Some (fl (of_int (rne (x * 10 ^ d)) / 10 ^ d))"
proof -
  define n where "n = nat (rne (x * 10 ^ d))"
  define i where "i = nat_text (n div 10 ^ d)"
  define f where "f = replicate (d - length (nat_text (n mod 10 ^ d))) (CHR ''0'') @ nat_text (n mod 10 ^ d)"
  have rn: "0 \<le> rne (x * 10 ^ d)" using rne_mono [of 0 "x * 10 ^ d"] assms(1) rne_of_int [of 0] by simp
  have zero: "foldl dec_step (0::nat) (replicate k (CHR ''0'')) = 0" for k
    by (induction k) (simp_all add: dec_step_def)
  have len: "length f = d" using length_nat_text [OF assms(2), of "n mod 10 ^ d"] by (simp add: f_def)
  have fv: "foldl dec_step 0 f = n mod 10 ^ d"
    by (simp add: f_def zero nat_text_value)
  have "foldl dec_step 0 (i @ f) = n"
    using digits_foldl [of "n div 10 ^ d" f] len fv div_mult_mod_eq [of n "10 ^ d"] by (simp add: i_def nat_text_value)
  moreover have dig: "list_all is_digit (i @ f)" using nat_text_digits by (auto simp: i_def f_def is_digit_def list_all_iff)
  ultimately have v: "digits_value (i @ f) = Some n" using len assms(2) by (auto simp: digits_value_def)
  have nodot: "c \<noteq> CHR ''.''" if "c \<in> set i" for c
    using that dig not_digits by (auto simp: list_all_iff)
  have i0: "i \<noteq> []" "hd i \<noteq> CHR ''-''"
    using nat_text_hd [of "n div 10 ^ d"] dig not_digits by (auto simp: i_def neq_Nil_conv)
  then obtain c cs where ic: "i = c # cs" "c \<noteq> CHR ''-''" by (cases i) auto
  have tw: "takeWhile (\<lambda>c. c \<noteq> CHR ''.'') (i @ ''.'' @ f) = i" "dropWhile (\<lambda>c. c \<noteq> CHR ''.'') (i @ ''.'' @ f) = ''.'' @ f"
    using nodot by (simp_all add: takeWhile_append dropWhile_append)
  have "sprintf_f d x = i @ ''.'' @ f"
    using assms(1) by (simp add: sprintf_f_def Let_def i_def f_def n_def)
  moreover have "parse_decimal (i @ ''.'' @ f) = Some (fl (of_nat n / 10 ^ d))"
    using ic tw v len by (simp add: parse_decimal_def Let_def)
  ultimately show ?thesis using rn by (simp add: n_def)
qed

lemma parse_Itoa:
  assumes "0 \<le> n" "n \<le> 2 ^ 53"
  shows "parse_decimal (Itoa n) = Some (of_int n)"
proof -
  let ?i = "nat_text (nat n)"
  have d: "c \<noteq> CHR ''.'' \<and> c \<noteq> CHR ''-''" if "c \<in> set ?i" for c
    using that nat_text_digits [of "nat n"] not_digits by (auto simp: list_all_iff)
  obtain c cs where i: "?i = c # cs" using nat_text_hd [of "nat n"] by (cases ?i) auto
  have tw: "takeWhile (\<lambda>c. c \<noteq> CHR ''.'') cs = cs" "dropWhile (\<lambda>c. c \<noteq> CHR ''.'') cs = []" using d i by auto
  have "digits_value ?i = Some (nat n)"
    using nat_text_digits [of "nat n"] nat_text_value [of "nat n"] i by (simp add: digits_value_def)
  then show ?thesis
    using assms d [of c] i fl_of_int [of n] by (simp add: parse_decimal_def Itoa_def Let_def tw)
qed

end
