(* ===== verification/RateLimit.thy ===== *)
theory RateLimit
  imports Http Float64 "HOL-Library.Signed_Division"
begin

text \<open>
  \<^verbatim>\<open>internal/ratelimit/middleware.go\<close>: the middleware that limits requests by client address and by
  user. The token bucket behind it, a script that runs in Redis, is the parameter \<open>allow\<close>.
\<close>

section \<open>Addresses\<close>

text \<open>\<open>strings.IndexByte\<close> and \<open>LastIndexByte\<close>; \<open>None\<close> for -1.\<close>

definition index_byte :: "char \<Rightarrow> string \<Rightarrow> nat option" where
  "index_byte c s = (if c \<in> set s then Some (length (takeWhile (\<lambda>x. x \<noteq> c) s)) else None)"

definition last_index_byte :: "char \<Rightarrow> string \<Rightarrow> nat option" where
  "last_index_byte c s = (if c \<in> set s then Some (length s - 1 - length (takeWhile (\<lambda>x. x \<noteq> c) (rev s))) else None)"

text \<open>\<open>net.SplitHostPort\<close>: host and port, or an error.\<close>

definition SplitHostPort :: "string \<Rightarrow> (string \<times> string) option" where
  "SplitHostPort hp =
     (case last_index_byte (CHR '':'') hp of
        None \<Rightarrow> None
      | Some i \<Rightarrow>
          if hd hp = CHR ''['' then
            (case index_byte (CHR '']'') hp of
               None \<Rightarrow> None
             | Some e \<Rightarrow>
                 if e + 1 \<noteq> i \<or> CHR ''['' \<in> set (drop 1 hp) \<or> CHR '']'' \<in> set (drop (e + 1) hp) then None
                 else Some (drop 1 (take e hp), drop (i + 1) hp))
          else if CHR '':'' \<in> set (take i hp) \<or> CHR ''['' \<in> set hp \<or> CHR '']'' \<in> set hp then None
          else Some (take i hp, drop (i + 1) hp))"

definition clientIP :: "http_request \<Rightarrow> string" where
  "clientIP r =
     (let xff = header_get r ''X-Forwarded-For'' in
      if xff \<noteq> [] then
        (case index_byte (CHR '','') xff of
           Some i \<Rightarrow> if 0 < i then TrimSpace (take i xff) else TrimSpace xff
         | None \<Rightarrow> TrimSpace xff)
      else case SplitHostPort (rq_RemoteAddr r) of None \<Rightarrow> rq_RemoteAddr r | Some (host, _) \<Rightarrow> host)"

section \<open>The middleware\<close>

text \<open>
  \<open>AllowFunc\<close>: whether the request of a key may pass at a rate per second and with a burst, the
  tokens left, and the time to wait in nanoseconds.
\<close>

type_synonym 'w allow_func = "string \<Rightarrow> rat \<Rightarrow> int \<Rightarrow> ('w, bool \<times> int \<times> int) go"

definition per_second :: "int \<Rightarrow> rat" where
  "per_second ratePerMin = fl (fl (of_int ratePerMin) / 60)"

definition writeRateLimitHeaders :: "int \<Rightarrow> int \<Rightarrow> response_writer \<Rightarrow> response_writer" where
  "writeRateLimitHeaders limit remaining rw =
     set_header ''X-RateLimit-Remaining'' (Itoa remaining) (set_header ''X-RateLimit-Limit'' (Itoa limit) rw)"

text \<open>\<open>Duration.Seconds\<close> and \<open>math.Ceil\<close>: the seconds to wait, rounded up, at least one.\<close>

definition Seconds :: "int \<Rightarrow> rat" where
  "Seconds d = fl (fl (of_int (d sdiv second)) + fl (fl (of_int (d smod second)) / 10 ^ 9))"

definition retry_seconds :: "int \<Rightarrow> int" where
  "retry_seconds retryAfter = (let secs = \<lceil>Seconds retryAfter\<rceil> in if secs < 1 then 1 else secs)"

definition writeLimited :: "int \<Rightarrow> response_writer \<Rightarrow> response_writer" where
  "writeLimited retryAfter rw =
     write_body (json_text (error_json ''rate limit exceeded'') @ [CHR 0x0A])
       (WriteHeader 429 (set_header ''Content-Type'' ''application/json''
         (set_header ''Retry-After'' (Itoa (retry_seconds retryAfter)) rw)))"

text \<open>Both middlewares ask for a key and go on in the same way.\<close>

definition limited :: "'w allow_func \<Rightarrow> string \<Rightarrow> int \<Rightarrow> int \<Rightarrow> 'w handler \<Rightarrow> 'w handler" where
  "limited allow key ratePerMin burst next r rw w =
     (case allow key (per_second ratePerMin) burst w of
        (Inl e, w1) \<Rightarrow> next r rw w1
      | (Inr (allowed, remaining, retryAfter), w1) \<Rightarrow>
          (let rw1 = writeRateLimitHeaders burst remaining rw in
           if \<not> allowed then (writeLimited retryAfter rw1, w1) else next r rw1 w1))"

definition IPMiddleware :: "'w allow_func \<Rightarrow> int \<Rightarrow> int \<Rightarrow> 'w handler \<Rightarrow> 'w handler" where
  "IPMiddleware allow ratePerMin burst next r = limited allow (''rl:ip:'' @ clientIP r) ratePerMin burst next r"

definition UserMiddleware ::
  "'w allow_func \<Rightarrow> (http_request \<Rightarrow> string option) \<Rightarrow> int \<Rightarrow> int \<Rightarrow> 'w handler \<Rightarrow> 'w handler" where
  "UserMiddleware allow extract ratePerMin burst next r =
     (case extract r of
        None \<Rightarrow> next r
      | Some uid \<Rightarrow> if uid = [] then next r else limited allow (''rl:user:'' @ uid) ratePerMin burst next r)"

section \<open>Properties\<close>

lemma fresh_headers [simp]: "fresh_writer (writeRateLimitHeaders l m rw) = fresh_writer rw"
  by (simp add: writeRateLimitHeaders_def)

lemma writeLimited_simps [simp]:
  assumes "fresh_writer rw"
  shows "rw_Status (writeLimited d rw) = 429" "rw_Sent (writeLimited d rw) ''Retry-After'' = Some (Itoa (retry_seconds d))"
  using assms by (simp_all add: writeLimited_def write_body_def WriteHeader_def send_header_def set_header_def fresh_writer_def Let_def)

text \<open>
  Rounded up means that the seconds cover the wait. The sum of the whole seconds and the fraction is
  rounded to the next double, which is more than the whole seconds as long as there are less than
  \<open>2 ^ 22\<close> of them (some 48 days): \<open>1 / 2 ^ 30\<close> is less than a nanosecond.
\<close>

lemma ceiling_Seconds:
  assumes "0 \<le> d" "d < 2 ^ 22 * second"
  shows "\<lceil>Seconds d\<rceil> = d div second + (if d mod second = 0 then 0 else 1)"
proof -
  have s: "0 < second" by (simp add: second_def)
  define m n where "m = d div second" and "n = d mod second"
  have m: "0 \<le> m" "m < 2 ^ 22" "0 \<le> n" "n < 10 ^ 9"
    using assms s by (simp_all add: m_def n_def pos_imp_zdiv_nonneg_iff div_pos_pos_trivial second_def)
  have sd: "d sdiv second = m" "d smod second = n"
    using assms(1) by (cases "d = 0"; simp add: m_def n_def signed_divide_int_def signed_modulo_int_def second_def)+
  define f where "f = fl (of_int n / 10 ^ 9)"
  have S: "Seconds d = fl (of_int m + f)"
    using m fl_of_int [of m] fl_of_int [of n] by (simp add: Seconds_def sd f_def)
  have f: "f \<le> 1" using fl_mono [of "of_int n / 10 ^ 9" "of_int 1"] fl_of_int [of 1] m by (simp add: f_def)
  have up: "Seconds d \<le> of_int (m + 1)"
    using fl_mono [of "of_int m + f" "of_int (m + 1)"] fl_of_int [of "m + 1"] f m by (simp add: S)
  show ?thesis
  proof (cases "n = 0")
    case True
    then have "Seconds d = of_int m" using m fl_of_int [of m] by (simp add: S f_def)
    with True show ?thesis by (simp add: m_def n_def)
  next
    case False
    have "of_int 1 / (2::rat) ^ 30 \<le> of_int n / 10 ^ 9"
    proof -
      have "(1::rat) \<le> of_int n" using False m by simp
      then show ?thesis by (simp add: field_simps)
    qed
    then have "of_int 1 / 2 ^ 30 \<le> f" using fl_mono fl_dyadic [of 1 30] unfolding f_def by fastforce
    then have "of_int (m * 2 ^ 30 + 1) / 2 ^ 30 \<le> of_int m + f" by (simp add: field_simps)
    from fl_mono [OF this] fl_dyadic [of "m * 2 ^ 30 + 1" 30] m
    have "of_int (m * 2 ^ 30 + 1) / 2 ^ 30 \<le> Seconds d" by (simp add: S)
    moreover have "(of_int m :: rat) < of_int (m * 2 ^ 30 + 1) / 2 ^ 30" by (simp add: field_simps)
    ultimately have "of_int m < Seconds d" by linarith
    with up have "\<lceil>Seconds d\<rceil> = m + 1" by (simp add: ceiling_eq_iff)
    with False show ?thesis by (simp add: m_def n_def)
  qed
qed

lemma retry_seconds_pos: "1 \<le> retry_seconds d"
  by (simp add: retry_seconds_def Let_def)

lemma retry_seconds_bounds:
  assumes "d < 2 ^ 22 * second"
  shows "d \<le> retry_seconds d * second" "0 < d \<Longrightarrow> (retry_seconds d - 1) * second < d"
proof -
  have s: "0 < second" by (simp add: second_def)
  note one = retry_seconds_pos [of d]
  have *: "d \<le> retry_seconds d * second \<and> (0 < d \<longrightarrow> (retry_seconds d - 1) * second < d)"
  proof (cases "0 \<le> d")
    case False
    moreover have "0 \<le> retry_seconds d * second" using one s by simp
    ultimately show ?thesis by linarith
  next
    case True
    have dm: "d = d div second * second + d mod second" "0 \<le> d mod second" "d mod second < second" using s by simp_all
    note c = ceiling_Seconds [OF True assms]
    show ?thesis
    proof (cases "d = 0")
      case True
      then show ?thesis using one s by simp
    next
      case False
      have "1 \<le> d div second + (if d mod second = 0 then 0 else 1)"
      proof (cases "d mod second = 0")
        case True
        with dm(1) False \<open>0 \<le> d\<close> s have "d div second \<noteq> 0" "0 \<le> d div second" by (auto simp: pos_imp_zdiv_nonneg_iff)
        with True show ?thesis by simp
      qed (use \<open>0 \<le> d\<close> s in \<open>simp add: pos_imp_zdiv_nonneg_iff\<close>)
      with c have "retry_seconds d = d div second + (if d mod second = 0 then 0 else 1)"
        by (simp add: retry_seconds_def Let_def)
      then consider "retry_seconds d = d div second" "d mod second = 0" | "retry_seconds d = d div second + 1" "0 < d mod second"
        using dm(2) by (cases "d mod second = 0") simp_all
      then show ?thesis
      proof cases
        case 1
        have "(d div second - 1) * second = d div second * second - second" by (simp add: algebra_simps)
        moreover have "d = d div second * second" using dm(1) 1(2) by linarith
        ultimately have "d \<le> d div second * second" "(d div second - 1) * second < d" using s by linarith+
        then show ?thesis by (simp only: 1(1) simp_thms)
      next
        case 2
        have "(d div second + 1) * second = d div second * second + second" "(d div second + 1 - 1) * second = d div second * second"
          by (simp_all add: algebra_simps)
        with dm 2(2) have "d \<le> (d div second + 1) * second" "(d div second + 1 - 1) * second < d" by linarith+
        then show ?thesis by (simp only: 2(1) simp_thms)
      qed
    qed
  qed
  then show "d \<le> retry_seconds d * second" "0 < d \<Longrightarrow> (retry_seconds d - 1) * second < d" by blast+
qed

text \<open>
  C7: a request the limiter refuses never reaches the handler: it is answered with 429, and with a
  \<open>Retry-After\<close> of at least one second that covers the time the limiter asked for (below \<open>2 ^ 22\<close>
  seconds, where the rounding of doubles shows) and exceeds it by less than a second. A request it grants, and every request when the limiter fails, reaches the
  handler unchanged. Which bucket is charged is the client's choice: a \<open>X-Forwarded-For\<close> header names it.
\<close>

theorem ip_limit_refuses:
  assumes "fresh_writer rw"
  shows "(\<forall>m d w1. allow (''rl:ip:'' @ clientIP r) (per_second rate) burst w = (Inr (False, m, d), w1) \<longrightarrow>
      (\<exists>rw' s. IPMiddleware allow rate burst next r rw w = (rw', w1) \<and> rw_Status rw' = 429 \<and>
         rw_Sent rw' ''Retry-After'' = Some (Itoa s) \<and> 1 \<le> s \<and>
         (d < 2 ^ 22 * second \<longrightarrow> d \<le> s * second \<and> (0 < d \<longrightarrow> (s - 1) * second < d)))) \<and>
    (\<forall>m d w1. allow (''rl:ip:'' @ clientIP r) (per_second rate) burst w = (Inr (True, m, d), w1) \<longrightarrow>
      IPMiddleware allow rate burst next r rw w = next r (writeRateLimitHeaders burst m rw) w1) \<and>
    (\<forall>e w1. allow (''rl:ip:'' @ clientIP r) (per_second rate) burst w = (Inl e, w1) \<longrightarrow>
      IPMiddleware allow rate burst next r rw w = next r rw w1) \<and>
    (\<forall>ip. ip \<noteq> [] \<and> CHR '','' \<notin> set ip \<longrightarrow>
      clientIP (r\<lparr>rq_Header := (''X-Forwarded-For'', ip) # hs\<rparr>) = TrimSpace ip)"
proof (intro conjI allI impI)
  show "\<exists>rw' s. IPMiddleware allow rate burst next r rw w = (rw', w1) \<and> rw_Status rw' = 429 \<and>
      rw_Sent rw' ''Retry-After'' = Some (Itoa s) \<and> 1 \<le> s \<and>
      (d < 2 ^ 22 * second \<longrightarrow> d \<le> s * second \<and> (0 < d \<longrightarrow> (s - 1) * second < d))"
    if "allow (''rl:ip:'' @ clientIP r) (per_second rate) burst w = (Inr (False, m, d), w1)" for m d w1
    using that assms retry_seconds_pos [of d] retry_seconds_bounds [of d]
    by (intro exI [of _ "writeLimited d (writeRateLimitHeaders burst m rw)"] exI [of _ "retry_seconds d"])
       (simp add: IPMiddleware_def limited_def)
qed (auto simp: IPMiddleware_def limited_def clientIP_def header_get_def first_value_def index_byte_def)

theorem ip_limit_refuses_witness:
  "\<exists>rw'. IPMiddleware (\<lambda>key rate burst w. (Inr (False, 0, 1500000000), w)) 100 20 (\<lambda>r rw w. (rw, w))
     (post_body ''/orgs'' []) new_writer () = (rw', ()) \<and> rw_Status rw' = 429"
  using ip_limit_refuses [OF fresh_new, of "\<lambda>key rate burst w. (Inr (False, 0, 1500000000), w)" "post_body ''/orgs'' []" 100 20 "()"]
  by blast

end
