(* ===== verification/Limiter.thy ===== *)
theory Limiter
  imports RateLimit
begin

text \<open>
  \<^verbatim>\<open>internal/ratelimit/limiter.go\<close> and the script it runs in Redis, \<^verbatim>\<open>rate_limit.lua\<close>: a token bucket
  per key. Numbers are doubles (theory \<open>Float64\<close>) that travel as decimal text.
\<close>

section \<open>The script\<close>

text \<open>
  A bucket is a hash with the fields \<open>tokens\<close> and \<open>last\<close>, and the instant at which Redis drops it.
\<close>

type_synonym bucket_db = "string \<rightharpoonup> (rat \<times> rat) \<times> int option"

definition bucket :: "bucket_db \<Rightarrow> int \<Rightarrow> string \<Rightarrow> (rat \<times> rat) option" where
  "bucket db redis_now key =
     (case db key of
        None \<Rightarrow> None
      | Some (b, None) \<Rightarrow> Some b
      | Some (b, Some expiry) \<Rightarrow> if redis_now < expiry then Some b else None)"

text \<open>\<open>HMSET\<close> keeps the expiry of a key that is there; \<open>EXPIRE\<close> with a span that is not positive deletes it.\<close>

definition hmset :: "string \<Rightarrow> rat \<times> rat \<Rightarrow> int \<Rightarrow> bucket_db \<Rightarrow> bucket_db" where
  "hmset key b redis_now db =
     db(key \<mapsto> (b, if bucket db redis_now key = None then None else snd (the (db key))))"

definition expire :: "string \<Rightarrow> int \<Rightarrow> int \<Rightarrow> bucket_db \<Rightarrow> bucket_db" where
  "expire key ttl redis_now db =
     (if ttl \<le> 0 then db(key := None)
      else db(key := map_option (\<lambda>(b, _). (b, Some (redis_now + ttl * second))) (db key)))"

text \<open>The tokens there are for a request: those left, and those of the time gone by, at most \<open>burst\<close>.\<close>

definition refill :: "rat \<Rightarrow> rat \<Rightarrow> rat \<Rightarrow> (rat \<times> rat) option \<Rightarrow> rat" where
  "refill rate burst now b =
     (let (tokens, last) = (case b of None \<Rightarrow> (burst, now) | Some x \<Rightarrow> x);
          elapsed = max 0 (fl (now - last))
      in min burst (fl (tokens + fl (elapsed * rate))))"

text \<open>
  The reply is the flag, the tokens left and the seconds to wait; \<open>None\<close> is the error of a script. With
  a rate of 0 the time to live is infinite, which \<open>EXPIRE\<close> refuses, after the bucket was written.
\<close>

definition rate_limit_lua :: "string \<Rightarrow> string list \<Rightarrow> int \<Rightarrow> bucket_db \<Rightarrow> (int \<times> int \<times> string) option \<times> bucket_db" where
  "rate_limit_lua key argv redis_now db =
     (case map parse_decimal argv of
        [Some rate, Some burst, Some now] \<Rightarrow>
          (let tokens = refill rate burst now (bucket db redis_now key);
               left = (if 1 \<le> tokens then fl (tokens - 1) else tokens);
               retry_after = (if 1 \<le> tokens then 0 else fl (fl (1 - tokens) / rate));
               db1 = hmset key (left, now) redis_now db
           in if rate = 0 then (None, db1)
              else (Some (if 1 \<le> tokens then 1 else 0, \<lfloor>left\<rfloor>, sprintf_f 3 retry_after),
                    expire key (\<lceil>fl (burst / rate)\<rceil> + 1) redis_now db1))
      | _ \<Rightarrow> (None, db))"

section \<open>The limiter\<close>

text \<open>The client of Redis that runs the script, and the clock.\<close>

record 'w script_client =
  Run :: "string \<Rightarrow> string list \<Rightarrow> ('w, int \<times> int \<times> string) go"
  UnixNano :: "'w \<Rightarrow> int"

definition ParseFloat_or_0 :: "string \<Rightarrow> rat" where
  "ParseFloat_or_0 s = (case parse_decimal s of None \<Rightarrow> 0 | Some x \<Rightarrow> x)"

definition trunc :: "rat \<Rightarrow> int" where
  "trunc x = (if x < 0 then - \<lfloor>- x\<rfloor> else \<lfloor>x\<rfloor>)"

definition Allow :: "'w script_client \<Rightarrow> 'w allow_func" where
  "Allow lc key rate burst w =
     (let now = fl (fl (of_int (UnixNano lc w)) / 10 ^ 9) in
      case Run lc key [sprintf_f 6 rate, Itoa burst, sprintf_f 6 now] w of
        (Inl e, w1) \<Rightarrow> (Inl (Wrap ''ratelimit script'' e), w1)
      | (Inr (allowed, remaining, retryAfterStr), w1) \<Rightarrow>
          (Inr (allowed = 1, remaining, trunc (fl (ParseFloat_or_0 retryAfterStr * fl (of_int second)))), w1))"

text \<open>The contract of the client: it answers with the reply of the script, or fails.\<close>

locale script_runner =
  fixes lc :: "'w script_client" and buckets :: "'w \<Rightarrow> bucket_db" and redis_now :: "'w \<Rightarrow> int"
  assumes run_ok: "Run lc key argv w = (Inr r, w') \<Longrightarrow> rate_limit_lua key argv (redis_now w) (buckets w) = (Some r, buckets w')"
    and run_err: "Run lc key argv w = (Inl e, w') \<Longrightarrow>
        buckets w' \<in> {buckets w, snd (rate_limit_lua key argv (redis_now w) (buckets w))}"

section \<open>Bounds\<close>

lemma refill_bounds:
  assumes "0 \<le> rate" "0 \<le> burst" "\<And>t l. b = Some (t, l) \<Longrightarrow> 0 \<le> t"
  shows "0 \<le> refill rate burst now b" "refill rate burst now b \<le> burst"
proof -
  obtain t l where b: "(case b of None \<Rightarrow> (burst, now) | Some x \<Rightarrow> x) = (t, l)" by (rule prod.exhaust)
  have t: "0 \<le> t" using assms(2,3) b by (cases b) auto
  have "0 \<le> fl (t + fl (max 0 (fl (now - l)) * rate))"
    using t assms(1) by (intro fl_nonneg add_nonneg_nonneg mult_nonneg_nonneg) simp_all
  with assms(2) show "0 \<le> refill rate burst now b" "refill rate burst now b \<le> burst"
    unfolding refill_def b by (simp_all add: Let_def)
qed

definition buckets_within :: "bucket_db \<Rightarrow> bool" where
  "buckets_within db \<longleftrightarrow> (\<forall>key t l e. db key = Some ((t, l), e) \<longrightarrow> 0 \<le> t)"

lemma bucket_within: "buckets_within db \<Longrightarrow> bucket db now key = Some (t, l) \<Longrightarrow> 0 \<le> t"
  by (auto simp: bucket_def buckets_within_def split: option.splits prod.splits if_splits)

lemma hmset_within: "buckets_within db \<Longrightarrow> 0 \<le> t \<Longrightarrow> buckets_within (hmset key (t, l) now db)"
  by (auto simp: hmset_def buckets_within_def)

lemma expire_within: "buckets_within db \<Longrightarrow> buckets_within (expire key ttl now db)"
  by (fastforce simp: expire_def buckets_within_def)

lemma step_bounds:
  assumes "map parse_decimal argv = [Some rate, Some (of_int B), Some now]" "0 \<le> rate" "0 \<le> B" "B \<le> 2 ^ 53"
    and "buckets_within db" "rate_limit_lua key argv redis_now db = (r, db')"
  shows "buckets_within db'"
    "r = Some (a, m, s) \<Longrightarrow> 0 \<le> m \<and> m \<le> B \<and> (a = 1 \<longleftrightarrow> 1 \<le> refill rate (of_int B) now (bucket db redis_now key)) \<and>
       (\<exists>d. s = sprintf_f 3 d \<and> 0 \<le> d \<and> (a = 1 \<longrightarrow> d = 0))"
proof -
  define t where "t = refill rate (of_int B) now (bucket db redis_now key)"
  have t: "0 \<le> t" "t \<le> of_int B"
    using refill_bounds [of rate "of_int B" "bucket db redis_now key" now] assms(2,3) bucket_within [OF assms(5)]
    by (simp_all add: t_def)
  define left where "left = (if 1 \<le> t then fl (t - 1) else t)"
  have left: "0 \<le> left" "left \<le> of_int B"
    using t fl_nonneg [of "t - 1"] fl_mono [of "t - 1" "of_int B"] fl_of_int [of B] assms(3,4) by (auto simp: left_def)
  have f: "0 \<le> \<lfloor>left\<rfloor>" "\<lfloor>left\<rfloor> \<le> B" using left by (simp_all add: floor_le_iff)
  define after where "after = (if 1 \<le> t then 0 else fl (fl (1 - t) / rate))"
  have after: "0 \<le> after" using assms(2) by (auto simp: after_def intro!: fl_nonneg divide_nonneg_nonneg)
  define db1 where "db1 = hmset key (left, now) redis_now db"
  have run: "(r, db') = (if rate = 0 then (None, db1)
      else (Some (if 1 \<le> t then 1 else 0, \<lfloor>left\<rfloor>, sprintf_f 3 after),
        expire key (\<lceil>fl (of_int B / rate)\<rceil> + 1) redis_now db1))"
    unfolding assms(6) [symmetric] by (simp add: rate_limit_lua_def assms(1) Let_def left_def after_def db1_def t_def)
  have "buckets_within db1" using hmset_within [OF assms(5) left(1)] by (simp add: db1_def)
  with run show "buckets_within db'" by (auto simp: expire_within split: if_splits)
  assume "r = Some (a, m, s)"
  with run f after show "0 \<le> m \<and> m \<le> B \<and> (a = 1 \<longleftrightarrow> 1 \<le> refill rate (of_int B) now (bucket db redis_now key)) \<and>
       (\<exists>d. s = sprintf_f 3 d \<and> 0 \<le> d \<and> (a = 1 \<longrightarrow> d = 0))"
    by (auto simp: after_def t_def split: if_splits)
qed

lemma ParseFloat_nonneg: "0 \<le> x \<Longrightarrow> 0 \<le> ParseFloat_or_0 (sprintf_f 3 x)"
  using rne_mono [of 0 "x * 10 ^ 3"] rne_of_int [of 0]
  by (auto simp: ParseFloat_or_0_def parse_sprintf_f intro!: fl_nonneg divide_nonneg_nonneg)

text \<open>What the script reads of the arguments \<open>Allow\<close> writes.\<close>

definition sent :: "rat \<Rightarrow> rat" where
  "sent x = fl (of_int (rne (x * 10 ^ 6)) / 10 ^ 6)"

lemma sent_nonneg: "0 \<le> x \<Longrightarrow> 0 \<le> sent x"
  using rne_mono [of 0 "x * 10 ^ 6"] rne_of_int [of 0]
  by (auto simp: sent_def intro!: fl_nonneg divide_nonneg_nonneg)

lemma Allow_argv:
  assumes "0 \<le> rate" "0 \<le> B" "B \<le> 2 ^ 53" "0 \<le> now"
  shows "map parse_decimal [sprintf_f 6 rate, Itoa B, sprintf_f 6 now] = [Some (sent rate), Some (of_int B), Some (sent now)]"
  using assms by (simp add: parse_sprintf_f parse_Itoa sent_def)

section \<open>Properties\<close>

definition now_of :: "'w script_client \<Rightarrow> 'w \<Rightarrow> rat" where
  "now_of lc w = fl (fl (of_int (UnixNano lc w)) / 10 ^ 9)"

text \<open>
  C14: What \<open>Allow\<close> answers. When the script runs, the request passes exactly if a whole token is there,
  the tokens reported lie between 0 and the burst, the time to wait is not negative, and is 0 when the
  request passes. No bucket ever holds a negative number of tokens.
\<close>

theorem allow_bounds:
  assumes "script_runner lc buckets redis_now" "0 \<le> rate" "0 \<le> B" "B \<le> 2 ^ 53" "0 \<le> UnixNano lc w"
    and "buckets_within (buckets w)" "Allow lc key rate B w = (Inr (ok, m, d), w')"
  shows "0 \<le> m \<and> m \<le> B \<and> 0 \<le> d \<and> (ok \<longrightarrow> d = 0) \<and>
    (ok \<longleftrightarrow> 1 \<le> refill (sent rate) (of_int B) (sent (now_of lc w)) (bucket (buckets w) (redis_now w) key)) \<and>
    buckets_within (buckets w')"
proof -
  let ?argv = "[sprintf_f 6 rate, Itoa B, sprintf_f 6 (now_of lc w)]"
  have n: "0 \<le> now_of lc w"
    using assms(5) by (auto simp: now_of_def intro!: fl_nonneg divide_nonneg_nonneg)
  note argv = Allow_argv [OF assms(2-4) n]
  from assms(7) obtain a s where r: "Run lc key ?argv w = (Inr (a, m, s), w')"
    and ok: "ok = (a = 1)" and d: "d = trunc (fl (ParseFloat_or_0 s * fl (of_int second)))"
    by (auto simp: Allow_def now_of_def Let_def split: prod.splits sum.splits)
  note lua = script_runner.run_ok [OF assms(1) r]
  note b = step_bounds [OF argv sent_nonneg [OF assms(2)] assms(3,4,6) lua]
  from b(2) [OF refl] obtain x where x: "s = sprintf_f 3 x" "0 \<le> x" "a = 1 \<longrightarrow> x = 0" by blast
  have "0 \<le> fl (ParseFloat_or_0 s * fl (of_int second))"
    using ParseFloat_nonneg [OF x(2)] fl_nonneg [of "of_int second"] x(1) by (auto simp: second_def intro!: fl_nonneg)
  then have "0 \<le> d" by (simp add: d trunc_def)
  moreover have "a = 1 \<Longrightarrow> d = 0"
    using x by (simp add: d ParseFloat_or_0_def parse_sprintf_f trunc_def rne_def)
  ultimately show ?thesis using b(1) b(2) [OF refl] ok by blast
qed

text \<open>The script, run \<open>n\<close> times for one key at one instant.\<close>

primrec calls :: "nat \<Rightarrow> string \<Rightarrow> string list \<Rightarrow> int \<Rightarrow> bucket_db \<Rightarrow> int option list" where
  "calls 0 key argv redis_now db = []"
| "calls (Suc n) key argv redis_now db =
     (let (r, db') = rate_limit_lua key argv redis_now db in map_option fst r # calls n key argv redis_now db')"

lemma refill_same_instant:
  assumes "0 \<le> k" "k \<le> B" "B \<le> 2 ^ 53"
  shows "refill rate (of_int B) now (Some (of_int k, now)) = of_int k"
  using assms fl_of_int [of k] by (simp add: refill_def)

lemma calls_from:
  assumes "map parse_decimal argv = [Some rate, Some (of_int B), Some now]" "0 < rate" "0 \<le> B" "B \<le> 2 ^ 53"
    and "refill rate (of_int B) now (bucket db redis_now key) = of_int k" "0 \<le> k" "k \<le> B"
  shows "calls n key argv redis_now db = map (\<lambda>i. Some (if int i < k then 1 else 0)) [0..<n]"
  using assms(5-)
proof (induction n arbitrary: k db)
  case (Suc n)
  define k' where "k' = (if 1 \<le> k then k - 1 else k)"
  have k': "0 \<le> k'" "k' \<le> B" using Suc.prems(2,3) by (simp_all add: k'_def)
  have left: "(if 1 \<le> (of_int k :: rat) then fl (of_int k - 1) else of_int k) = of_int k'"
    using fl_of_int [of "k - 1"] Suc.prems(2,3) assms(4) by (simp add: k'_def)
  define ttl where "ttl = \<lceil>fl (of_int B / rate)\<rceil> + 1"
  have ttl: "0 < ttl"
    using fl_nonneg [of "of_int B / rate"] assms(2,3) by (simp add: ttl_def)
  define db' where "db' = expire key ttl redis_now (hmset key (of_int k', now) redis_now db)"
  obtain s where run: "rate_limit_lua key argv redis_now db = (Some (if 1 \<le> k then 1 else 0, k', s), db')"
    using assms(2) left by (simp add: rate_limit_lua_def assms(1) Suc.prems(1) Let_def db'_def ttl_def)
  have "bucket db' redis_now key = Some (of_int k', now)"
    using ttl by (simp add: db'_def bucket_def expire_def hmset_def second_def)
  then have "refill rate (of_int B) now (bucket db' redis_now key) = of_int k'"
    using refill_same_instant k' assms(4) by simp
  note rest = Suc.IH [OF this k']
  have "map (\<lambda>i. Some (if int i < k then 1 else 0)) [0..<Suc n] =
      Some (if 1 \<le> k then 1 else 0 :: int) # map (\<lambda>i. Some (if int i < k' then 1 else 0)) [0..<n]"
    using Suc.prems(2) by (subst upt_conv_Cons) (auto simp: k'_def map_Suc_upt [symmetric] simp del: upt_Suc)
  with run rest show ?case by simp
qed simp

text \<open>
  C15: A key that was not seen before is granted exactly as many requests at one instant as the burst
  allows, and no more: of \<open>n\<close> runs of the script the first \<open>B\<close> grant the request and the others refuse.
\<close>

theorem burst_exact:
  assumes "map parse_decimal argv = [Some rate, Some (of_int B), Some now]" "0 < rate" "0 \<le> B" "B \<le> 2 ^ 53"
    and "bucket db redis_now key = None"
  shows "calls n key argv redis_now db = map (\<lambda>i. Some (if int i < B then 1 else 0)) [0..<n]"
proof (rule calls_from [OF assms(1-4)])
  show "refill rate (of_int B) now (bucket db redis_now key) = of_int B"
    using assms(3-5) fl_of_int [of B] by (simp add: refill_def)
qed (use assms in simp_all)

text \<open>
  C16: With a rate of 0 nothing is limited: the script fails on every request, and the middleware lets
  requests through when the limiter fails. The configuration is not checked for it.
\<close>

theorem zero_rate_never_limits:
  assumes "script_runner lc buckets redis_now" "0 \<le> B" "B \<le> 2 ^ 53" "0 \<le> UnixNano lc w"
  shows "\<exists>w1. IPMiddleware (Allow lc) 0 B next r rw w = next r rw w1"
proof -
  let ?key = "''rl:ip:'' @ clientIP r"
  let ?argv = "[sprintf_f 6 (per_second 0), Itoa B, sprintf_f 6 (now_of lc w)]"
  have zero: "per_second 0 = 0" "sent 0 = 0" by (simp_all add: per_second_def sent_def rne_def)
  have n: "0 \<le> now_of lc w"
    using assms(4) by (auto simp: now_of_def intro!: fl_nonneg divide_nonneg_nonneg)
  have argv: "map parse_decimal ?argv = [Some 0, Some (of_int B), Some (sent (now_of lc w))]"
    using Allow_argv [OF order_refl assms(2,3) n] by (simp only: zero)
  obtain x w1 where x: "Run lc ?key ?argv w = (x, w1)" by (rule prod.exhaust)
  have "\<exists>e. x = Inl e"
  proof (cases x)
    case (Inr y)
    with x have "rate_limit_lua ?key ?argv (redis_now w) (buckets w) = (Some y, buckets w1)"
      using script_runner.run_ok [OF assms(1)] by blast
    then show ?thesis unfolding rate_limit_lua_def argv by (simp add: Let_def)
  qed simp
  with x show ?thesis by (auto simp: IPMiddleware_def limited_def Allow_def now_of_def Let_def)
qed

text \<open>
  The seconds to wait are written with three digits, which may round them down: at half a token per
  second, with 2047 / 4096 of a token there, the answer is to wait one second, and after one second it is a
  refusal again.
\<close>

definition short_of :: bucket_db where
  "short_of = [''k'' \<mapsto> ((2047 / 4096, 1000), None)]"


lemma short_roundings:
  "fl (2047 / 4096) = 2047 / 4096" "fl (4095 / 4096) = 4095 / 4096" "fl (2049 / 4096) = 2049 / 4096" "fl (1 / 4096) = 1 / 4096"
  "fl (2049 / 2048) = 2049 / 2048" "fl (1 / 2048) = 1 / 2048" "fl (1 / 2) = 1 / 2" "fl 1 = 1" "fl 2 = 2" "fl 5 = 5"
  "fl 1000 = 1000" "fl 1001 = 1001"
  using fl_dyadic [of 2047 12] fl_dyadic [of 4095 12] fl_dyadic [of 2049 12] fl_dyadic [of 1 12] fl_dyadic [of 2049 11]
    fl_dyadic [of 1 11] fl_dyadic [of 1 1] fl_of_int [of 1] fl_of_int [of 2] fl_of_int [of 5] fl_of_int [of 1000] fl_of_int [of 1001]
  by simp_all

lemma short_numbers:
  "parse_decimal ''0.500000'' = Some (1 / 2)" "parse_decimal ''1'' = Some 1" "parse_decimal ''2'' = Some 2"
  "parse_decimal ''1000.000000'' = Some 1000" "parse_decimal ''1001.000000'' = Some 1001"
  "parse_decimal ''2.000000'' = Some 2" "parse_decimal ''5.000000'' = Some 5"
  by (simp_all add: parse_decimal_def digits_value_def dec_step_def is_digit_def short_roundings)

lemma short_floors: "\<lfloor>2047 / 4096 :: rat\<rfloor> = 0" "\<lfloor>4095 / 4096 :: rat\<rfloor> = 0" "\<lfloor>256125 / 256 :: rat\<rfloor> = 1000" "\<lfloor>125 / 256 :: rat\<rfloor> = 0"
  by (simp_all add: floor_eq_iff)

lemma short_digits: "nat_text 0 = ''0''" "nat_text (Suc 0) = ''1''"
  by code_simp+

lemma short_texts: "sprintf_f 3 (2049 / 2048) = ''1.000''" "sprintf_f 3 (1 / 2048) = ''0.000''"
  by (simp_all add: sprintf_f_def rne_def short_floors short_digits Let_def numeral_2_eq_2)

lemma retry_after_rounded_down:
  "fst (rate_limit_lua ''k'' [''0.500000'', ''1'', ''1000.000000''] 0 short_of) = Some (0, 0, ''1.000'')"
  "fst (rate_limit_lua ''k'' [''0.500000'', ''1'', ''1001.000000''] second
     (snd (rate_limit_lua ''k'' [''0.500000'', ''1'', ''1000.000000''] 0 short_of))) = Some (0, 0, ''0.000'')"
proof -
  have one: "rate_limit_lua ''k'' [''0.500000'', ''1'', ''1000.000000''] 0 short_of =
      (Some (0, 0, ''1.000''), short_of(''k'' \<mapsto> ((2047 / 4096, 1000), Some (3 * second))))"
    unfolding rate_limit_lua_def list.map short_numbers
    by (simp add: short_of_def bucket_def hmset_def expire_def refill_def short_roundings short_texts short_floors Let_def)
  show "fst (rate_limit_lua ''k'' [''0.500000'', ''1'', ''1000.000000''] 0 short_of) = Some (0, 0, ''1.000'')"
    by (simp only: one fst_conv)
  show "fst (rate_limit_lua ''k'' [''0.500000'', ''1'', ''1001.000000''] second
     (snd (rate_limit_lua ''k'' [''0.500000'', ''1'', ''1000.000000''] 0 short_of))) = Some (0, 0, ''0.000'')"
    unfolding one snd_conv unfolding rate_limit_lua_def list.map short_numbers
    by (simp add: bucket_def second_def refill_def short_roundings short_texts short_floors Let_def)
qed

section \<open>A simulated Redis that runs the script\<close>

record sim_limits =
  sl_buckets :: bucket_db
  sl_clock :: int

definition sim_script :: "sim_limits script_client" where
  "sim_script = \<lparr>Run = (\<lambda>key argv w. case rate_limit_lua key argv (sl_clock w) (sl_buckets w) of
       (None, db) \<Rightarrow> (Inl (Opaque ''ERR value is not an integer or out of range''), w\<lparr>sl_buckets := db\<rparr>)
     | (Some r, db) \<Rightarrow> (Inr r, w\<lparr>sl_buckets := db\<rparr>)), UnixNano = sl_clock\<rparr>"

interpretation sim_script: script_runner sim_script sl_buckets sl_clock
  by unfold_locales (auto simp: sim_script_def split: prod.splits option.splits)

definition sim_idle :: sim_limits where
  "sim_idle = \<lparr>sl_buckets = Map.empty, sl_clock = 5000000000\<rparr>"

lemma sim_two_per_second: "per_second 120 = 2" "sent 2 = 2"
  using fl_of_int [of 120] fl_of_int [of 2] rne_of_int [of "2000000"] by (simp_all add: per_second_def sent_def)

lemma sim_allowed: "\<exists>ok m d w'. Allow sim_script ''k'' (per_second 120) 20 sim_idle = (Inr (ok, m, d), w')"
proof -
  have n: "0 \<le> now_of sim_script sim_idle"
    by (auto simp: now_of_def sim_script_def sim_idle_def intro!: fl_nonneg divide_nonneg_nonneg)
  obtain a m s db where "rate_limit_lua ''k'' [sprintf_f 6 2, Itoa 20, sprintf_f 6 (now_of sim_script sim_idle)]
      5000000000 Map.empty = (Some (a, m, s), db)"
    using Allow_argv [of 2 20, OF _ _ _ n] by (auto simp: rate_limit_lua_def sim_two_per_second Let_def)
  then show ?thesis
    by (auto simp: Allow_def sim_two_per_second sim_script_def sim_idle_def now_of_def Let_def)
qed

theorem allow_bounds_witness:
  "\<exists>m d w'. Allow sim_script ''k'' (per_second 120) 20 sim_idle = (Inr (True, m, d), w') \<and> 0 \<le> m \<and> m \<le> 20 \<and> d = 0"
proof -
  obtain ok m d w' where a: "Allow sim_script ''k'' (per_second 120) 20 sim_idle = (Inr (ok, m, d), w')"
    using sim_allowed by blast
  have h: "0 \<le> per_second 120" "buckets_within (sl_buckets sim_idle)" "0 \<le> UnixNano sim_script sim_idle"
    by (simp_all add: sim_two_per_second buckets_within_def sim_idle_def sim_script_def)
  have "1 \<le> refill 2 (of_int 20) (sent (now_of sim_script sim_idle)) (bucket (sl_buckets sim_idle) (sl_clock sim_idle) ''k'')"
    using fl_of_int [of 20] by (simp add: refill_def bucket_def sim_idle_def)
  with allow_bounds [OF sim_script.script_runner_axioms h(1) _ _ h(3,2) a] a show ?thesis
    by (simp add: sim_two_per_second)
qed

theorem burst_exact_witness:
  "calls 3 ''k'' [''2.000000'', ''2'', ''5.000000''] 5000000000 Map.empty = [Some 1, Some 1, Some 0]"
proof -
  have "map parse_decimal [''2.000000'', ''2'', ''5.000000''] = [Some 2, Some (of_int 2), Some 5]"
    unfolding list.map short_numbers by simp
  from burst_exact [OF this, of Map.empty 5000000000 "''k''" 3] show ?thesis
    by (simp add: bucket_def upt_conv_Cons)
qed

theorem zero_rate_never_limits_witness:
  "\<exists>w1. IPMiddleware (Allow sim_script) 0 20 (\<lambda>r rw w. (rw, w)) (post_body ''/orgs'' []) new_writer sim_idle = (new_writer, w1)"
  using zero_rate_never_limits [OF sim_script.script_runner_axioms, of 20 sim_idle "\<lambda>r rw w. (rw, w)" "post_body ''/orgs'' []" new_writer]
  by (simp add: sim_script_def sim_idle_def)

end
