(* ===== verification/Config.thy ===== *)
theory Config
  imports Float64 Sso "HOL-Library.Signed_Division"
begin

text \<open>
  \<^verbatim>\<open>pkg/env/env.go\<close>, \<^verbatim>\<open>internal/config/config.go\<close> and the addresses of \<^verbatim>\<open>internal/database/database.go\<close> and
  \<^verbatim>\<open>internal/store/redis.go\<close>: the configuration the program reads from its environment, and the checks
  made on it. \<open>time.ParseDuration\<close> is modelled as the library has it.
\<close>

section \<open>\<open>pkg/env\<close>\<close>

type_synonym environ = "string \<rightharpoonup> string"

definition Getenv :: "environ \<Rightarrow> string \<Rightarrow> string" where
  "Getenv env key = (case env key of None \<Rightarrow> [] | Some v \<Rightarrow> v)"

text \<open>\<open>strconv.ParseBool\<close>.\<close>

definition ParseBool :: "string \<Rightarrow> bool option" where
  "ParseBool s =
     (if s \<in> {''1'', ''t'', ''T'', ''TRUE'', ''true'', ''True''} then Some True
      else if s \<in> {''0'', ''f'', ''F'', ''FALSE'', ''false'', ''False''} then Some False else None)"

definition env_Or :: "environ \<Rightarrow> string \<Rightarrow> string \<Rightarrow> string" where
  "env_Or env key fallback = (if Getenv env key \<noteq> [] then Getenv env key else fallback)"

definition env_Int :: "environ \<Rightarrow> string \<Rightarrow> int \<Rightarrow> int" where
  "env_Int env key fallback =
     (let v = Getenv env key in
      if v = [] then fallback else case Atoi v of None \<Rightarrow> fallback | Some n \<Rightarrow> n)"

definition env_Bool :: "environ \<Rightarrow> string \<Rightarrow> bool \<Rightarrow> bool" where
  "env_Bool env key fallback =
     (let v = Getenv env key in
      if v = [] then fallback else case ParseBool v of None \<Rightarrow> fallback | Some b \<Rightarrow> b)"

section \<open>\<open>time.ParseDuration\<close>\<close>

text \<open>Digits before the point, a \<open>uint64\<close> of at most \<open>2 ^ 63\<close>; \<open>None\<close> when they overflow.\<close>

fun leadingInt :: "nat \<Rightarrow> string \<Rightarrow> (nat \<times> string) option" where
  "leadingInt x [] = Some (x, [])"
| "leadingInt x (c # cs) =
     (if \<not> is_digit c then Some (x, c # cs)
      else if 2 ^ 63 div 10 < x then None
      else let y = dec_step x c in if 2 ^ 63 < y then None else leadingInt y cs)"

text \<open>Digits after it: once they overflow the rest is skipped. The scale is a double.\<close>

fun leadingFraction :: "bool \<Rightarrow> nat \<Rightarrow> rat \<Rightarrow> string \<Rightarrow> nat \<times> rat \<times> string" where
  "leadingFraction overflow x scale [] = (x, scale, [])"
| "leadingFraction overflow x scale (c # cs) =
     (if \<not> is_digit c then (x, scale, c # cs)
      else if overflow \<or> (2 ^ 63 - 1) div 10 < x then leadingFraction True x scale cs
      else let y = dec_step x c in
        if 2 ^ 63 < y then leadingFraction True x scale cs else leadingFraction False y (fl (scale * 10)) cs)"

definition unitMap :: "string \<Rightarrow> nat option" where
  "unitMap = map_of [(''ns'', 1), (''us'', 10 ^ 3), ([CHR 0xC2, CHR 0xB5, CHR ''s''], 10 ^ 3),
     ([CHR 0xCE, CHR 0xBC, CHR ''s''], 10 ^ 3), (''ms'', 10 ^ 6), (''s'', 10 ^ 9), (''m'', 60 * 10 ^ 9), (''h'', 3600 * 10 ^ 9)]"

text \<open>One number with its unit: the nanoseconds and the text after it.\<close>

definition parse_term :: "string \<Rightarrow> (nat \<times> string) option" where
  "parse_term s =
     (if s = [] \<or> \<not> (hd s = CHR ''.'' \<or> is_digit (hd s)) then None
      else case leadingInt 0 s of
        None \<Rightarrow> None
      | Some (v, s1) \<Rightarrow>
          (let pre = length s1 \<noteq> length s;
               (f, scale, s2, post) =
                 (if s1 \<noteq> [] \<and> hd s1 = CHR ''.''
                  then let (f, scale, s2) = leadingFraction False 0 1 (tl s1) in (f, scale, s2, length s2 \<noteq> length (tl s1))
                  else (0, 1, s1, False));
               u = takeWhile (\<lambda>c. c \<noteq> CHR ''.'' \<and> \<not> is_digit c) s2;
               s3 = dropWhile (\<lambda>c. c \<noteq> CHR ''.'' \<and> \<not> is_digit c) s2
           in if \<not> pre \<and> \<not> post \<or> u = [] then None
              else case unitMap u of
                None \<Rightarrow> None
              | Some unit \<Rightarrow>
                  if 2 ^ 63 div unit < v then None
                  else let v1 = v * unit + (if 0 < f then nat \<lfloor>fl (fl (of_nat f) * fl (of_nat unit / scale))\<rfloor> else 0) in
                    if 2 ^ 63 < v1 then None else Some (v1, s3)))"

lemma leadingInt_rest: "leadingInt x s = Some (v, t) \<Longrightarrow> \<exists>d. s = d @ t"
  by (induction x s rule: leadingInt.induct) (auto simp: Let_def split: if_splits)

lemma leadingFraction_rest: "leadingFraction ov x sc s = (f, sc', t) \<Longrightarrow> \<exists>d. s = d @ t"
  by (induction ov x sc s rule: leadingFraction.induct) (auto simp: Let_def split: if_splits)

lemma parse_term_shrinks:
  assumes "parse_term s = Some (v, t)"
  shows "length t < length s"
proof -
  from assms obtain w s1 where s1: "leadingInt 0 s = Some (w, s1)"
    by (auto simp: parse_term_def split: if_splits option.splits)
  have l1: "length s1 \<le> length s" using leadingInt_rest [OF s1] by auto
  have l2: "leadingFraction False 0 1 (tl s1) = (f, sc, s2) \<Longrightarrow> length s2 \<le> length s1" for f sc s2
    using leadingFraction_rest [of False 0 1 "tl s1" f sc s2] by (cases s1) auto
  have l3: "takeWhile P x \<noteq> [] \<Longrightarrow> length (dropWhile P x) < length x" for P and x :: string
    by (metis length_dropWhile_le length_greater_0_conv length_append takeWhile_dropWhile_id less_add_same_cancel2)
  show ?thesis
  proof (cases "s1 \<noteq> [] \<and> hd s1 = CHR ''.''")
    case True
    obtain f sc s2 where f: "leadingFraction False 0 1 (tl s1) = (f, sc, s2)" by (metis prod.exhaust)
    with assms s1 True have "takeWhile (\<lambda>c. c \<noteq> CHR ''.'' \<and> \<not> is_digit c) s2 \<noteq> []"
      "t = dropWhile (\<lambda>c. c \<noteq> CHR ''.'' \<and> \<not> is_digit c) s2"
      by (auto simp: parse_term_def Let_def split: if_splits option.splits)
    with l3 [of _ s2] l2 [OF f] l1 show ?thesis by fastforce
  next
    case False
    with assms s1 have "takeWhile (\<lambda>c. c \<noteq> CHR ''.'' \<and> \<not> is_digit c) s1 \<noteq> []"
      "t = dropWhile (\<lambda>c. c \<noteq> CHR ''.'' \<and> \<not> is_digit c) s1"
      by (auto simp: parse_term_def Let_def split: if_splits option.splits)
    with l3 [of _ s1] l1 show ?thesis by fastforce
  qed
qed

text \<open>The sum of the terms, in 64 bits: two terms of \<open>2 ^ 63\<close> wrap to 0.\<close>

function parse_terms :: "nat \<Rightarrow> string \<Rightarrow> nat option" where
  "parse_terms d s =
     (if s = [] then Some d
      else case parse_term s of
        None \<Rightarrow> None
      | Some (v, t) \<Rightarrow> (let d1 = (d + v) mod 2 ^ 64 in if 2 ^ 63 < d1 then None else parse_terms d1 t))"
  by pat_completeness auto
termination by (relation "measure (\<lambda>(d, s). length s)") (auto dest: parse_term_shrinks)

declare parse_terms.simps [simp del]

definition ParseDuration :: "string \<Rightarrow> int option" where
  "ParseDuration orig =
     (let (neg, s) = (case orig of [] \<Rightarrow> (False, []) | c # cs \<Rightarrow>
             if c = CHR ''-'' then (True, cs) else if c = CHR ''+'' then (False, cs) else (False, orig)) in
      if s = ''0'' then Some 0
      else if s = [] then None
      else case parse_terms 0 s of
        None \<Rightarrow> None
      | Some d \<Rightarrow> if neg then Some (- int d) else if 2 ^ 63 - 1 < d then None else Some (int d))"

section \<open>\<open>internal/config\<close>\<close>

definition parseDuration :: "environ \<Rightarrow> string \<Rightarrow> int \<Rightarrow> int" where
  "parseDuration env key fallback =
     (let v = Getenv env key in
      if v = [] then fallback else case ParseDuration v of None \<Rightarrow> fallback | Some d \<Rightarrow> d)"

record database_config =
  dc_Host :: string
  dc_Port :: int
  dc_User :: string
  dc_Password :: string
  dc_DBName :: string
  dc_SSLMode :: string

record redis_config =
  rdc_Host :: string
  rdc_Port :: int
  rdc_Password :: string
  rdc_DB :: int

record rate_limit_config =
  IPRate :: int
  IPBurst :: int
  UserRate :: int
  UserBurst :: int

record log_config =
  log_Env :: string
  log_Level :: string

record app_config =
  ac_Database :: database_config
  ac_Redis :: redis_config
  ac_Google :: google_config
  ac_RateLimit :: rate_limit_config
  ac_Log :: log_config
  ac_HTTPAddr :: string
  ac_ReposDir :: string
  ac_AppVersion :: string
  ac_TOTPIssuer :: string
  ac_SecureCookies :: bool
  ac_ShutdownTimeout :: int
  ac_HealthcheckTimeout :: int
  ac_SeedAdminName :: string
  ac_SeedAdminUsername :: string
  ac_SeedAdminEmail :: string
  ac_SeedAdminPassword :: string

definition Load :: "environ \<Rightarrow> app_config" where
  "Load env = \<lparr>
     ac_Database = \<lparr>dc_Host = env_Or env ''DB_HOST'' ''localhost'', dc_Port = env_Int env ''DB_PORT'' 5432,
       dc_User = env_Or env ''DB_USER'' ''postgres'', dc_Password = env_Or env ''DB_PASSWORD'' ''postgres'',
       dc_DBName = env_Or env ''DB_NAME'' ''gitfed'', dc_SSLMode = env_Or env ''DB_SSLMODE'' ''disable''\<rparr>,
     ac_Redis = \<lparr>rdc_Host = env_Or env ''REDIS_HOST'' ''localhost'', rdc_Port = env_Int env ''REDIS_PORT'' 6379,
       rdc_Password = env_Or env ''REDIS_PASSWORD'' [], rdc_DB = env_Int env ''REDIS_DB'' 0\<rparr>,
     ac_Google = \<lparr>gc_ClientID = env_Or env ''GOOGLE_CLIENT_ID'' [], gc_ClientSecret = env_Or env ''GOOGLE_CLIENT_SECRET'' [],
       gc_RedirectURL = env_Or env ''GOOGLE_REDIRECT_URL'' ''http://localhost:8080/auth/google/callback''\<rparr>,
     ac_RateLimit = \<lparr>IPRate = env_Int env ''RATE_LIMIT_IP_RATE'' 100, IPBurst = env_Int env ''RATE_LIMIT_IP_BURST'' 20,
       UserRate = env_Int env ''RATE_LIMIT_USER_RATE'' 200, UserBurst = env_Int env ''RATE_LIMIT_USER_BURST'' 40\<rparr>,
     ac_Log = \<lparr>log_Env = env_Or env ''ENV'' ''DEV'', log_Level = env_Or env ''LOG_LEVEL'' ''info''\<rparr>,
     ac_HTTPAddr = env_Or env ''HTTP_ADDR'' ''0.0.0.0:8080'',
     ac_ReposDir = env_Or env ''REPOS_DIR'' [],
     ac_AppVersion = env_Or env ''APP_VERSION'' ''dev'',
     ac_TOTPIssuer = env_Or env ''TOTP_ISSUER'' ''gitfed'',
     ac_SecureCookies = env_Bool env ''SECURE_COOKIES'' False,
     ac_ShutdownTimeout = parseDuration env ''SHUTDOWN_TIMEOUT'' (15 * second),
     ac_HealthcheckTimeout = parseDuration env ''HEALTHCHECK_TIMEOUT'' (2 * second),
     ac_SeedAdminName = env_Or env ''SEED_ADMIN_NAME'' [],
     ac_SeedAdminUsername = env_Or env ''SEED_ADMIN_USERNAME'' [],
     ac_SeedAdminEmail = env_Or env ''SEED_ADMIN_EMAIL'' [],
     ac_SeedAdminPassword = env_Or env ''SEED_ADMIN_PASSWORD'' []\<rparr>"

record validation_error =
  MissingVars :: "string list"
  InvalidVars :: "string \<rightharpoonup> string"

text \<open>
  \<open>strings.ToLower\<close> on ASCII text. On other text the source's is a different string, but neither is
  one of the words of ASCII letters other than i and k that the program compares the result with.
\<close>

definition lower_char :: "char \<Rightarrow> char" where
  "lower_char c = (let n = of_char c :: nat in if 65 \<le> n \<and> n \<le> 90 then char_of (n + 32) else c)"

definition ToLower :: "string \<Rightarrow> string" where
  "ToLower s = map lower_char s"

definition required_vars :: "environ \<Rightarrow> string list" where
  "required_vars env =
     (let envName = ToLower (Getenv env ''ENV'');
          envName = (if envName = [] then ''dev'' else envName) in
      ''REPOS_DIR'' #
      (if envName \<noteq> ''dev'' then [''DB_HOST'', ''DB_PORT'', ''DB_USER'', ''DB_PASSWORD'', ''DB_NAME'', ''DB_SSLMODE'',
         ''REDIS_HOST'', ''REDIS_PORT'', ''HTTP_ADDR''] else []))"

definition missing_of :: "environ \<Rightarrow> string list \<Rightarrow> string list" where
  "missing_of env keys = filter (\<lambda>key. TrimSpace (Getenv env key) = []) keys"

text \<open>\<open>net.ResolveTCPAddr\<close> may ask the resolver of the system: \<open>resolve\<close> gives the text of its error, if any.\<close>

definition note_invalid :: "bool \<Rightarrow> string \<Rightarrow> string \<Rightarrow> (string \<rightharpoonup> string) \<Rightarrow> (string \<rightharpoonup> string)" where
  "note_invalid bad key msg m = (if bad then m(key \<mapsto> msg) else m)"

definition invalid_of :: "(string \<Rightarrow> string option) \<Rightarrow> app_config \<Rightarrow> (string \<rightharpoonup> string)" where
  "invalid_of resolve c =
     (let port_bad = (\<lambda>p. p < 1 \<or> 65535 < p);
          m = note_invalid (port_bad (dc_Port (ac_Database c))) ''DB_PORT'' ''must be between 1 and 65535'' Map.empty;
          m = note_invalid (port_bad (rdc_Port (ac_Redis c))) ''REDIS_PORT'' ''must be between 1 and 65535'' m;
          m = (if ac_HTTPAddr c = [] then m(''HTTP_ADDR'' \<mapsto> ''must not be empty'')
               else case resolve (ac_HTTPAddr c) of
                 Some e \<Rightarrow> m(''HTTP_ADDR'' \<mapsto> ''invalid TCP address: '' @ e) | None \<Rightarrow> m);
          m = note_invalid (ac_ReposDir c = []) ''REPOS_DIR'' ''must not be empty'' m;
          m = note_invalid (ac_ShutdownTimeout c \<le> 0) ''SHUTDOWN_TIMEOUT'' ''must be > 0'' m
      in note_invalid (ac_HealthcheckTimeout c \<le> 0) ''HEALTHCHECK_TIMEOUT'' ''must be > 0'' m)"

text \<open>A map is empty if none of the keys that can be in it is.\<close>

definition invalid_keys :: "string list" where
  "invalid_keys = [''DB_PORT'', ''REDIS_PORT'', ''HTTP_ADDR'', ''REPOS_DIR'', ''SHUTDOWN_TIMEOUT'', ''HEALTHCHECK_TIMEOUT'']"

definition Validate :: "(string \<Rightarrow> string option) \<Rightarrow> environ \<Rightarrow> app_config \<Rightarrow> validation_error option" where
  "Validate resolve env c =
     (let missing = missing_of env (required_vars env); invalid = invalid_of resolve c in
      if missing = [] \<and> list_all (\<lambda>k. invalid k = None) invalid_keys then None
      else Some \<lparr>MissingVars = missing, InvalidVars = invalid\<rparr>)"

definition ValidateSeed :: "environ \<Rightarrow> validation_error option" where
  "ValidateSeed env =
     (let missing = missing_of env [''SEED_ADMIN_NAME'', ''SEED_ADMIN_USERNAME'', ''SEED_ADMIN_EMAIL'', ''SEED_ADMIN_PASSWORD''] in
      if missing = [] then None else Some \<lparr>MissingVars = missing, InvalidVars = Map.empty\<rparr>)"

section \<open>Addresses of the services\<close>

definition DSN :: "database_config \<Rightarrow> string" where
  "DSN c = (let sslMode = (if dc_SSLMode c = [] then ''disable'' else dc_SSLMode c) in
     ''postgres://'' @ dc_User c @ '':'' @ dc_Password c @ ''@'' @ dc_Host c @ '':'' @ Itoa (dc_Port c) @ ''/'' @ dc_DBName c @
     ''?sslmode='' @ sslMode)"

definition Addr :: "redis_config \<Rightarrow> string" where
  "Addr c = rdc_Host c @ '':'' @ Itoa (rdc_Port c)"

section \<open>Properties\<close>

lemma invalid_of_dom: "k \<notin> set invalid_keys \<Longrightarrow> invalid_of resolve c k = None"
  by (auto simp: invalid_of_def note_invalid_def invalid_keys_def Let_def split: option.splits)

lemma invalid_of_empty: "list_all (\<lambda>k. invalid_of resolve c k = None) invalid_keys \<longleftrightarrow> invalid_of resolve c = Map.empty"
  using invalid_of_dom [of _ resolve c] by (auto simp: list_all_iff)



lemma Atoi_5432: "Atoi ''5432'' = Some 5432"
  by (simp add: Atoi_def parse_uint_def digit_val_def Let_def)

lemma env_cong:
  assumes "Getenv a key = Getenv b key"
  shows "env_Or a key fb = env_Or b key fb" "env_Int a key n = env_Int b key n"
    "env_Bool a key d = env_Bool b key d" "parseDuration a key n = parseDuration b key n"
  using assms by (simp_all add: env_Or_def env_Int_def env_Bool_def parseDuration_def)

lemma Load_cong:
  assumes "env_Int a ''DB_PORT'' 5432 = env_Int b ''DB_PORT'' 5432"
    "\<And>key. key \<noteq> ''DB_PORT'' \<Longrightarrow> Getenv a key = Getenv b key"
  shows "Load a = Load b"
  unfolding Load_def assms(1)
  by (intro app_config.equality; simp)
   (simp_all add: env_cong [OF assms(2)])

text \<open>
  A number that does not parse is not reported: the default takes its place, and the environment
  passes as if the default had been written there.
\<close>

theorem malformed_port_passes:
  assumes "Atoi v = None" "TrimSpace v \<noteq> []"
  shows "Load (env(''DB_PORT'' \<mapsto> v)) = Load (env(''DB_PORT'' \<mapsto> ''5432'')) \<and>
    Validate resolve (env(''DB_PORT'' \<mapsto> v)) (Load (env(''DB_PORT'' \<mapsto> v))) =
    Validate resolve (env(''DB_PORT'' \<mapsto> ''5432'')) (Load (env(''DB_PORT'' \<mapsto> ''5432'')))"
proof -
  let ?a = "env(''DB_PORT'' \<mapsto> v)" and ?b = "env(''DB_PORT'' \<mapsto> ''5432'')"
  have other: "key \<noteq> ''DB_PORT'' \<Longrightarrow> Getenv ?a key = Getenv ?b key" for key by (simp add: Getenv_def)
  have port: "Getenv ?a ''DB_PORT'' = v" "Getenv ?b ''DB_PORT'' = ''5432''" by (simp_all add: Getenv_def)
  have "v \<noteq> []" using assms(2) by (auto simp: TrimSpace_def trim_chunks_def chunk_text_def)
  then have "env_Int ?a ''DB_PORT'' 5432 = env_Int ?b ''DB_PORT'' 5432"
    using assms(1) unfolding env_Int_def port by (simp add: Atoi_5432)
  then have load: "Load ?a = Load ?b" by (rule Load_cong) (rule other)
  have "TrimSpace ''5432'' \<noteq> []" by (simp add: TrimSpace_def trim_chunks_def is_space_def decode_rune_def Let_def)
  then have "missing_of ?a (required_vars ?a) = missing_of ?b (required_vars ?b)"
    using assms(2) by (simp add: missing_of_def required_vars_def other port Let_def)
  with load show ?thesis by (simp add: Validate_def)
qed

theorem malformed_port_passes_witness:
  "dc_Port (ac_Database (Load [''DB_PORT'' \<mapsto> ''54x32''])) = 5432"
proof -
  have "Atoi ''54x32'' = None" "TrimSpace ''54x32'' \<noteq> []"
    by (simp_all add: Atoi_def parse_uint_def digit_val_def TrimSpace_def trim_chunks_def is_space_def decode_rune_def Let_def)
  then have l: "Load [''DB_PORT'' \<mapsto> ''54x32''] = Load [''DB_PORT'' \<mapsto> ''5432'']" using malformed_port_passes by blast
  show ?thesis unfolding l by (simp add: Load_def env_Int_def Getenv_def Atoi_5432)
qed






text \<open>
  The data source name does not escape the credentials: two different configurations, one with an
  at sign in the password and one with it in the host name, give the same name.
\<close>

theorem dsn_ambiguous:
  "DSN (c\<lparr>dc_Password := p @ ''@'' @ h, dc_Host := k\<rparr>) = DSN (c\<lparr>dc_Password := p, dc_Host := h @ ''@'' @ k\<rparr>)"
  by (simp add: DSN_def)

end
