(* ===== verification/Seed.thy ===== *)
theory Seed
  imports Organizations GitRepos
begin

text \<open>
  \<^verbatim>\<open>internal/admin/seed/seed.go\<close>: the first administrator, the default organization and the default
  repository, made when they are missing. The property is that running it twice is running it once.
\<close>

section \<open>The program\<close>

record seed_input =
  AdminName :: string
  AdminUsername :: string
  AdminEmail :: string
  AdminPassword :: string

fun find_team :: "organization list \<Rightarrow> uuid option" where
  "find_team [] = None"
| "find_team (org # orgs) = (if org_Name org = ''Gitfed Team'' then Some (org_ID org) else find_team orgs)"

definition ensureOrganization :: "'w organization_Repository \<Rightarrow> 'w entropy \<Rightarrow> uuid \<Rightarrow> ('w, uuid) go" where
  "ensureOrganization repo ent userID w =
     (case org_GetByUserID repo userID w of
        (Inl e, w1) \<Rightarrow> (Inl (Wrap ''list user organizations'' e), w1)
      | (Inr orgs, w1) \<Rightarrow>
     (case find_team orgs of
        Some i \<Rightarrow> (Inr i, w1)
      | None \<Rightarrow>
     (case org_Create repo ent \<lparr>oin_Name = ''Gitfed Team'', oin_Description = ''Default seeded organization''\<rparr> w1 of
        (Inl e, w2) \<Rightarrow> (Inl (Wrap ''create organization'' e), w2)
      | (Inr org, w2) \<Rightarrow>
     (case org_AddUser repo (org_ID org) userID w2 of
        (Some e, w3) \<Rightarrow> (Inl (Wrap ''add user to organization'' e), w3)
      | (None, w3) \<Rightarrow> (Inr (org_ID org), w3)))))"

definition hello_repo :: "uuid \<Rightarrow> uuid \<Rightarrow> git_create_input" where
  "hello_repo repoID ownerID = \<lparr>gin_Id = repoID, gin_Name = ''hello-gitfed'',
     gin_Description = ''Default seeded repository'', gin_IsPrivate = False, gin_OwnerID = ownerID,
     gin_DefaultRef = ''refs/heads/main''\<rparr>"

definition ensureRepository :: "'w git_Repository \<Rightarrow> 'w entropy \<Rightarrow> uuid \<Rightarrow> 'w go_err" where
  "ensureRepository repo ent ownerID w =
     (case gr_GetByName repo ownerID ''hello-gitfed'' w of
        (Inr _, w1) \<Rightarrow> (None, w1)
      | (Inl e, w1) \<Rightarrow>
     if e \<noteq> Sentinel git_ErrRepoNotFound then (Some (Wrap ''get repository'' e), w1)
     else case NewV7 ent w1 of
        (Inl e, w2) \<Rightarrow> (Some (Wrap ''generate repository id'' e), w2)
      | (Inr repoID, w2) \<Rightarrow>
     (case gr_Create repo (hello_repo repoID ownerID) w2 of
        (Inl e, w3) \<Rightarrow> (Some (Wrap ''create repository'' e), w3)
      | (Inr _, w3) \<Rightarrow> (None, w3)))"

definition seed_register :: "seed_input \<Rightarrow> register_input" where
  "seed_register inp = \<lparr>in_Name = AdminName inp, in_Username = AdminUsername inp,
     in_Password = AdminPassword inp, in_Email = AdminEmail inp\<rparr>"

definition seed_admin :: "'w user_Repository \<Rightarrow> 'w bcrypt \<Rightarrow> 'w entropy \<Rightarrow> seed_input \<Rightarrow> ('w, user) go" where
  "seed_admin repo bc ent inp w =
     (case ur_GetByUsername repo (AdminUsername inp) w of
        (Inr u, w1) \<Rightarrow> (Inr u, w1)
      | (Inl e, w1) \<Rightarrow>
     if e \<noteq> Sentinel user_ErrNotFound then (Inl (Wrap ''get admin user'' e), w1)
     else case Register repo bc ent (seed_register inp) w1 of
        (Inl e, w2) \<Rightarrow> (Inl (Wrap ''register admin user'' e), w2)
      | (Inr u, w2) \<Rightarrow> (Inr u, w2))"

definition seed_Run :: "'w dbtx \<Rightarrow> 'w bcrypt \<Rightarrow> 'w entropy \<Rightarrow> seed_input \<Rightarrow> 'w go_err" where
  "seed_Run db bc ent inp w =
     (if AdminName inp = [] \<or> AdminUsername inp = [] \<or> AdminEmail inp = [] \<or> AdminPassword inp = []
      then (Some (Opaque ''seed input must include admin name, username, email and password''), w)
      else case seed_admin (user_store db) bc ent inp w of
        (Inl e, w1) \<Rightarrow> (Some e, w1)
      | (Inr adminUser, w1) \<Rightarrow>
     (case ensureOrganization (organization_store db) ent (user_ID adminUser) w1 of
        (Inl e, w2) \<Rightarrow> (Some e, w2)
      | (Inr _, w2) \<Rightarrow> ensureRepository (git_store db) ent (user_ID adminUser) w2))"

section \<open>What it establishes\<close>

definition team_of :: "uuid \<Rightarrow> tables \<Rightarrow> bool" where
  "team_of i t \<longleftrightarrow> (\<exists>g \<in> set (pg_orgs t). org_Name g = ''Gitfed Team'' \<and> (org_ID g, i) \<in> pg_members t)"

definition hello_of :: "uuid \<Rightarrow> tables \<Rightarrow> bool" where
  "hello_of i t \<longleftrightarrow> (\<exists>r \<in> set (pg_repos t). git_OwnerID r = i \<and> \<not> git_IsDeleted r \<and> git_Name r = ''hello-gitfed'')"

definition seeded :: "seed_input \<Rightarrow> tables \<Rightarrow> bool" where
  "seeded inp t \<longleftrightarrow> (\<exists>u us. active (\<lambda>v. user_Username v = AdminUsername inp) (pg_accounts t) = u # us \<and>
     team_of (user_ID u) t \<and> hello_of (user_ID u) t)"

lemma find_team_iff: "find_team gs = None \<longleftrightarrow> (\<forall>g \<in> set gs. org_Name g \<noteq> ''Gitfed Team'')"
  by (induction gs) auto

lemma find_team_Some: "find_team gs = Some i \<Longrightarrow> \<exists>g \<in> set gs. org_Name g = ''Gitfed Team'' \<and> org_ID g = i"
  by (induction gs) (auto split: if_splits)

text \<open>The statements for organizations and repositories leave the accounts alone.\<close>

lemma accounts_kept:
  "t_users (snd (sql_sem createOrganization now args t)) = t_users t"
  "t_users (snd (sql_sem addUserToOrganization now args t)) = t_users t"
  "t_users (snd (sql_sem createRepository now args t)) = t_users t"
  by (simp_all add: ins_organization_def ins_member_def ins_repository_def bad_args_def Let_def
      split: list.splits pgval.splits option.splits Option.bind_splits)

lemma others_kept:
  "pg_orgs (snd (sql_sem createRepository now args t)) = pg_orgs t"
  "pg_members (snd (sql_sem createRepository now args t)) = pg_members t"
  by (simp_all add: ins_repository_def bad_args_def Let_def pg_orgs_def pg_members_def
      split: list.splits pgval.splits option.splits Option.bind_splits)


context backend
begin

lemma username_text:
  assumes "ur_GetByUsername (user_store db) un w = (r, w')"
    and "\<exists>u. r = Inr u \<or> r = Inl (Sentinel user_ErrNotFound)"
  shows "text_ok un" "tbl w' = tbl w"
proof -
  obtain q where q: "query_one db getUserByUsername scan_user [VStr un] w = (q, w')"
    and r: "r = fst (found user_ErrNotFound fromSqlcUser (q, w'))"
    using assms(1) by (cases "query_one db getUserByUsername scan_user [VStr un] w")
      (simp add: user_store_def store_GetByUsername_def GetUserByUsername_def found_def split: sum.splits)
  show "tbl w' = tbl w" using select_frame(1) [OF selects_users(3), of scan_user un w] q by simp
  have "\<exists>rows t. sql_sem getUserByUsername (clock w) [VStr un] (tbl w) = (Inr rows, t)"
  proof (cases q)
    case (Inl x)
    with r assms(2) query_one_foreign [OF q [unfolded Inl], of user_ErrNotFound]
    have "errors_is x pgx_ErrNoRows" by (auto simp: found_def split: if_splits)
    from query_one_none [OF q [unfolded Inl] this] show ?thesis by blast
  next
    case (Inr x)
    from query_one_ok [OF q [unfolded Inr]] show ?thesis by blast
  qed
  then show "text_ok un" by (auto simp: bad_args_def split: if_splits)
qed

lemma seed_admin_ok:
  assumes "schema_ok (tbl w)" "seed_admin (user_store db) bc ent inp w = (Inr u, w')"
  shows "\<exists>us. active (\<lambda>v. user_Username v = AdminUsername inp) (pg_accounts (tbl w')) = u # us"
    "text_ok (AdminUsername inp)" "schema_ok (tbl w')"
    "tbl w' = tbl w \<or> registered bc (seed_register inp) u \<and> pg_accounts (tbl w') = pg_accounts (tbl w) @ [u]"
proof -
  obtain x w1 where x: "ur_GetByUsername (user_store db) (AdminUsername inp) w = (x, w1)" by (rule prod.exhaust)
  have good: "\<exists>u. x = Inr u \<or> x = Inl (Sentinel user_ErrNotFound)"
    using assms(2) x by (cases x) (auto simp: seed_admin_def split: if_splits)
  note t = username_text [OF x this]
  show "text_ok (AdminUsername inp)" using t(1) by blast
  have same: "tbl w1 = tbl w" using t(2) by blast
  have *: "(\<exists>us. active (\<lambda>v. user_Username v = AdminUsername inp) (pg_accounts (tbl w')) = u # us) \<and> schema_ok (tbl w') \<and>
    (tbl w' = tbl w \<or> registered bc (seed_register inp) u \<and> pg_accounts (tbl w') = pg_accounts (tbl w) @ [u])"
  proof (cases x)
    case (Inr v)
    with x assms(2) have "v = u" "w' = w1" by (simp_all add: seed_admin_def)
    with same assms(1) pg_users.by_username.get_ok [OF assms(1) x [unfolded Inr]] show ?thesis by simp
  next
    case (Inl e)
    with good have e: "e = Sentinel user_ErrNotFound" by simp
    with x Inl assms(2) have r: "Register (user_store db) bc ent (seed_register inp) w1 = (Inr u, w')"
      by (auto simp: seed_admin_def split: prod.splits sum.splits)
    have ok: "schema_ok (tbl w1)" using same assms(1) by simp
    have "active (\<lambda>v. user_Username v = AdminUsername inp) (pg_accounts (tbl w)) = []"
      using pg_users.by_username.get_missing [OF assms(1) x [unfolded Inl]] e by simp
    with pg_Register(1) [OF ok r] same pg_user_service.Register_ok [OF ok r] show ?thesis
      by (simp add: active_def registered_def seed_register_def)
  qed
  then show "\<exists>us. active (\<lambda>v. user_Username v = AdminUsername inp) (pg_accounts (tbl w')) = u # us"
    "schema_ok (tbl w')" "tbl w' = tbl w \<or> registered bc (seed_register inp) u \<and> pg_accounts (tbl w') = pg_accounts (tbl w) @ [u]"
    by blast+
qed

lemma ensureOrganization_ok:
  assumes "schema_ok (tbl w)" "ensureOrganization (organization_store db) ent i w = (Inr g, w')"
  shows "team_of i (tbl w')" "schema_ok (tbl w')" "t_users (tbl w') = t_users (tbl w)"
proof -
  let ?inp = "\<lparr>oin_Name = ''Gitfed Team'', oin_Description = ''Default seeded organization''\<rparr>"
  obtain x w1 where x: "org_GetByUserID (organization_store db) i w = (x, w1)" by (rule prod.exhaust)
  with assms(2) obtain gs where gs: "x = Inr gs" by (cases x) (simp_all add: ensureOrganization_def)
  have gs_eq: "gs = filter (\<lambda>g. (org_ID g, i) \<in> pg_members (tbl w)) (pg_orgs (tbl w))"
    using org_laws(6) [OF assms(1)] x gs by (simp add: org_GetByUserID_def)
  have same: "tbl w1 = tbl w"
    using x select_frame(2) [OF selects_organizations(2), where scan = scan_organization]
    by (auto simp: org_GetByUserID_def organization_store_def orgstore_GetByUserID_def GetOrganizationsByUserID_def
        split: prod.splits sum.splits dest: arg_cong [where f = "\<lambda>p. tbl (snd p)"])
  have "team_of i (tbl w') \<and> schema_ok (tbl w') \<and> t_users (tbl w') = t_users (tbl w)"
  proof (cases "find_team gs")
    case (Some h)
    with x gs assms(2) have "w' = w1" by (simp add: ensureOrganization_def)
    with find_team_Some [OF Some] gs_eq same assms(1) show ?thesis by (auto simp: team_of_def)
  next
    case None
    obtain y w2 where y: "org_Create (organization_store db) ent ?inp w1 = (y, w2)" by (rule prod.exhaust)
    with x gs None assms(2) obtain org where org: "y = Inr org" by (cases y) (simp_all add: ensureOrganization_def)
    with x gs None y assms(2) have a: "org_AddUser (organization_store db) (org_ID org) i w2 = (None, w')"
      by (auto simp: ensureOrganization_def split: prod.splits option.splits)
    have ok1: "schema_ok (tbl w1)" using same assms(1) by simp
    have ok2: "schema_ok (tbl w2)" using org_Create_schema [OF ok1, of ?inp] y by simp
    note c = org_Create_ok [OF ok1 y [unfolded org]]
    have a': "or_AddUser (organization_store db) (org_ID org) i w2 = (None, w')" using a by (simp add: org_AddUser_def)
    have e: "Exec db addUserToOrganization [VUuid (toPgUUID (org_ID org)), VUuid (toPgUUID i)] w2 = (None, w')"
      using a by (simp add: org_AddUser_def organization_store_def orgstore_AddUser_def AddUserToOrganization_def)
    from exec_ok [OF e] have "t_users (tbl w') = t_users (tbl w2)"
      using accounts_kept(2) by (metis snd_conv)
    moreover have "t_users (tbl w2) = t_users (tbl w1)"
    proof -
      obtain k w3 where n: "NewV7 ent w1 = (k, w3)" by (rule prod.exhaust)
      have t3: "tbl w3 = tbl w1" using entropy_tbl(2) [of w1] n by simp
      obtain args row where "query_one db createOrganization scan_organization args w3 = (Inr row, w2)"
        using y org n by (auto simp: org_Create_def organization_store_def orgstore_Create_def CreateOrganization_def
            split: prod.splits sum.splits)
      from query_one_ok [OF this] show ?thesis using accounts_kept(1) t3 by (metis snd_conv)
    qed
    moreover have "schema_ok (tbl w')" using schema_ok_step(3) [OF e ok2] .
    ultimately show ?thesis using org_laws(4) [OF ok2 a'] c same by (auto simp: team_of_def)
  qed
  then show "team_of i (tbl w')" "schema_ok (tbl w')" "t_users (tbl w') = t_users (tbl w)" by blast+
qed

lemma ensureRepository_ok:
  assumes "schema_ok (tbl w)" "ensureRepository (git_store db) ent i w = (None, w')"
  shows "hello_of i (tbl w')" "schema_ok (tbl w')" "t_users (tbl w') = t_users (tbl w)"
    "pg_orgs (tbl w') = pg_orgs (tbl w)" "pg_members (tbl w') = pg_members (tbl w)"
proof -
  obtain x w1 where x: "gitstore_GetByName db i ''hello-gitfed'' w = (x, w1)" by (rule prod.exhaust)
  have same: "tbl w1 = tbl w"
    using x select_frame(2) [OF selects_repositories(3), where scan = scan_repository]
    by (auto simp: gitstore_GetByName_def GetRepositoryByRepositoryName_def split: prod.splits sum.splits option.splits
        dest: arg_cong [where f = "\<lambda>p. tbl (snd p)"])
  have "hello_of i (tbl w') \<and> schema_ok (tbl w') \<and> t_users (tbl w') = t_users (tbl w) \<and>
    pg_orgs (tbl w') = pg_orgs (tbl w) \<and> pg_members (tbl w') = pg_members (tbl w)"
  proof (cases x)
    case (Inr g)
    with x assms(2) have "w' = w1" by (simp add: ensureRepository_def)
    with same assms(1) git_laws(4) [OF assms(1), unfolded git_store_simps, OF x [unfolded Inr]] show ?thesis
      by (auto simp: hello_of_def live_repos_def)
  next
    case (Inl e)
    with x assms(2) have e: "e = Sentinel git_ErrRepoNotFound" by (auto simp: ensureRepository_def split: if_splits)
    obtain k w2 where n: "NewV7 ent w1 = (k, w2)" by (rule prod.exhaust)
    with x Inl e assms(2) obtain rid where rid: "k = Inr rid" by (cases k) (auto simp: ensureRepository_def)
    with x Inl e n assms(2) obtain g where c: "gitstore_Create db (hello_repo rid i) w2 = (Inr g, w')"
      by (auto simp: ensureRepository_def split: prod.splits sum.splits)
    have t2: "tbl w2 = tbl w" using entropy_tbl(2) [of w1] n same by simp
    then have ok2: "schema_ok (tbl w2)" using assms(1) by simp
    obtain args row where q: "query_one db createRepository scan_repository args w2 = (Inr row, w')"
      using c by (auto simp: gitstore_Create_def CreateRepository_def split: prod.splits sum.splits)
    from query_one_ok [OF q] obtain rows where s: "sql_sem createRepository (clock w2) args (tbl w2) = (Inr rows, tbl w')"
      by blast
    from arg_cong [OF s, of snd] accounts_kept(3) [of "clock w2" args "tbl w2"] others_kept [of "clock w2" args "tbl w2"]
    have "t_users (tbl w') = t_users (tbl w)" "pg_orgs (tbl w') = pg_orgs (tbl w)" "pg_members (tbl w') = pg_members (tbl w)"
      by (simp_all add: t2)
    moreover have "hello_of i (tbl w')"
      using gitstore_Create_ok [OF ok2 c] by (auto simp: hello_of_def created_repo_def hello_repo_def)
    ultimately show ?thesis using schema_ok_step(1) [OF q ok2] by simp
  qed
  then show "hello_of i (tbl w')" "schema_ok (tbl w')" "t_users (tbl w') = t_users (tbl w)"
    "pg_orgs (tbl w') = pg_orgs (tbl w)" "pg_members (tbl w') = pg_members (tbl w)" by blast+
qed

text \<open>With everything there and the database up, no step writes.\<close>

lemma seed_admin_again:
  assumes "up w" "text_ok (AdminUsername inp)"
    and "active (\<lambda>v. user_Username v = AdminUsername inp) (pg_accounts (tbl w)) = u # us"
  obtains w' where "seed_admin (user_store db) bc ent inp w = (Inr u, w')" "up w'" "tbl w' = tbl w"
proof -
  let ?xs = "filter (\<lambda>u. su_Username u = AdminUsername inp \<and> \<not> su_IsDeleted u) (t_users (tbl w))"
  have "sql_sem getUserByUsername (clock w) [VStr (AdminUsername inp)] (tbl w) = (Inr (map row_user ?xs), tbl w)"
    using assms(2) by (simp add: sel_users_def)
  from found_up [where scan = scan_user, OF assms(1) this scan_row(1)]
  have "fst (ur_GetByUsername (user_store db) (AdminUsername inp) w) =
      (case ?xs of [] \<Rightarrow> Inl (Sentinel user_ErrNotFound) | x # _ \<Rightarrow> Inr (fromSqlcUser x))"
    by (simp add: user_store_def store_GetByUsername_def GetUserByUsername_def)
  moreover have "map fromSqlcUser ?xs = u # us" using assms(3) by (simp add: active_pg)
  ultimately have "fst (ur_GetByUsername (user_store db) (AdminUsername inp) w) = Inr u"
    by (auto split: list.splits)
  with lookup_up_step(2) [OF assms(1), of "AdminUsername inp"] show ?thesis
    by (intro that [of "snd (ur_GetByUsername (user_store db) (AdminUsername inp) w)"])
       (auto simp: seed_admin_def split: prod.splits)
qed

lemma ensureOrganization_again:
  assumes "up w" "schema_ok (tbl w)" "team_of i (tbl w)"
  obtains g w' where "ensureOrganization (organization_store db) ent i w = (Inr g, w')" "up w'" "tbl w' = tbl w"
proof -
  obtain gs w' where g: "query_many db getOrganizationsByUserID scan_organization [VUuid (toPgUUID i)] w = (gs, w')"
    by (rule prod.exhaust)
  have "sql_sem getOrganizationsByUserID (clock w) [VUuid (toPgUUID i)] (tbl w) =
      (Inr (map row_organization (orgs_of_user (toPgUUID i) (tbl w))), tbl w)" by simp
  from query_many_up [where scan = scan_organization, OF assms(1) this scan_row(2)] g
  have gs: "gs = Inr (orgs_of_user (toPgUUID i) (tbl w))" by simp
  have "map fromSqlcOrg (orgs_of_user (toPgUUID i) (tbl w)) = filter (\<lambda>g. (org_ID g, i) \<in> pg_members (tbl w)) (pg_orgs (tbl w))"
    by (rule orgs_of_user_pg [OF assms(2)])
  with assms(3) have "find_team (map fromSqlcOrg (orgs_of_user (toPgUUID i) (tbl w))) \<noteq> None"
    unfolding find_team_iff by (auto simp: team_of_def)
  then obtain h where "find_team (map fromSqlcOrg (orgs_of_user (toPgUUID i) (tbl w))) = Some h" by blast
  with g gs have "ensureOrganization (organization_store db) ent i w = (Inr h, w')"
    by (simp add: ensureOrganization_def org_GetByUserID_def organization_store_def orgstore_GetByUserID_def
        GetOrganizationsByUserID_def)
  moreover have "up w'" "tbl w' = tbl w"
    using query_many_frame(1) [OF assms(1), of getOrganizationsByUserID scan_organization "[VUuid (toPgUUID i)]"]
      select_frame(2) [OF selects_organizations(2), of scan_organization "toPgUUID i" w] g by simp_all
  ultimately show ?thesis by (rule that)
qed

lemma ensureRepository_again:
  assumes "up w" "schema_ok (tbl w)" "hello_of i (tbl w)"
  obtains w' where "ensureRepository (git_store db) ent i w = (None, w')" "up w'" "tbl w' = tbl w"
proof -
  let ?rows = "filter (\<lambda>g. sg_Name g = ''hello-gitfed'') (t_git_repository (tbl w))"
  obtain gs w' where g: "query_many db getRepositoryByRepositoryName scan_repository [VStr ''hello-gitfed''] w = (gs, w')"
    by (rule prod.exhaust)
  have "sql_sem getRepositoryByRepositoryName (clock w) [VStr ''hello-gitfed''] (tbl w) = (Inr (map row_repository ?rows), tbl w)"
    by (simp add: sel_repositories_def text_ok_def decode_rune_def Let_def)
  from query_many_up [where scan = scan_repository, OF assms(1) this scan_row(5)] g have gs: "gs = Inr ?rows" by simp
  obtain r where "r \<in> set ?rows" "fromPgUUID (sg_OwnerID r) = i" "\<not> sg_IsDeleted r"
    using assms(3) by (auto simp: hello_of_def pg_repos_def)
  then have "first_of_owner (toPgUUID i) ?rows \<noteq> None"
    using schema_ok_repo [OF assms(2), of r] by (auto simp: first_of_owner_None fromPgUUID_eq)
  then obtain h where "first_of_owner (toPgUUID i) ?rows = Some h" by blast
  with g gs have "ensureRepository (git_store db) ent i w = (None, w')"
    by (simp add: ensureRepository_def gitstore_GetByName_def GetRepositoryByRepositoryName_def)
  moreover have "up w'" "tbl w' = tbl w"
    using query_many_frame(1) [OF assms(1), of getRepositoryByRepositoryName scan_repository "[VStr ''hello-gitfed'']"]
      select_frame(2) [OF selects_repositories(3), of scan_repository "''hello-gitfed''" w] g by simp_all
  ultimately show ?thesis by (rule that)
qed

lemma seed_Run_ok:
  assumes "schema_ok (tbl w)" "seed_Run db bc ent inp w = (None, w')"
  shows "seeded inp (tbl w')" "schema_ok (tbl w')" "text_ok (AdminUsername inp)"
    "\<exists>v. pg_accounts (tbl w') = pg_accounts (tbl w) \<or>
       registered bc (seed_register inp) v \<and> pg_accounts (tbl w') = pg_accounts (tbl w) @ [v]"
proof -
  obtain u w1 g w2 where a: "seed_admin (user_store db) bc ent inp w = (Inr u, w1)"
    and o: "ensureOrganization (organization_store db) ent (user_ID u) w1 = (Inr g, w2)"
    and r: "ensureRepository (git_store db) ent (user_ID u) w2 = (None, w')"
    using assms(2) by (auto simp: seed_Run_def split: if_splits prod.splits sum.splits)
  note a1 = seed_admin_ok [OF assms(1) a]
  note o1 = ensureOrganization_ok [OF a1(3) o]
  note r1 = ensureRepository_ok [OF o1(2) r]
  have acc: "pg_accounts (tbl w') = pg_accounts (tbl w1)" using o1(3) r1(3) by (simp add: pg_accounts_def)
  show "schema_ok (tbl w')" "text_ok (AdminUsername inp)" using r1 a1 by blast+
  show "seeded inp (tbl w')" using a1(1) o1(1) r1 acc by (auto simp: seeded_def team_of_def)
  show "\<exists>v. pg_accounts (tbl w') = pg_accounts (tbl w) \<or>
       registered bc (seed_register inp) v \<and> pg_accounts (tbl w') = pg_accounts (tbl w) @ [v]"
    using a1(4) acc by auto
qed

lemma seed_Run_again:
  assumes "schema_ok (tbl w)" "up w" "text_ok (AdminUsername inp)" "seeded inp (tbl w)"
    and "AdminName inp \<noteq> []" "AdminUsername inp \<noteq> []" "AdminEmail inp \<noteq> []" "AdminPassword inp \<noteq> []"
  shows "\<exists>w'. seed_Run db bc ent inp w = (None, w') \<and> tbl w' = tbl w"
proof -
  from assms(4) obtain u us where u: "active (\<lambda>v. user_Username v = AdminUsername inp) (pg_accounts (tbl w)) = u # us"
    and t: "team_of (user_ID u) (tbl w)" and h: "hello_of (user_ID u) (tbl w)" by (auto simp: seeded_def)
  obtain w1 where a: "seed_admin (user_store db) bc ent inp w = (Inr u, w1)" "up w1" "tbl w1 = tbl w"
    by (rule seed_admin_again [OF assms(2,3) u])
  obtain g w2 where o: "ensureOrganization (organization_store db) ent (user_ID u) w1 = (Inr g, w2)" "up w2" "tbl w2 = tbl w1"
    using ensureOrganization_again [OF a(2), of "user_ID u"] a(3) assms(1) t by metis
  obtain w3 where "ensureRepository (git_store db) ent (user_ID u) w2 = (None, w3)" "tbl w3 = tbl w2"
    using ensureRepository_again [OF o(2), of "user_ID u"] a(3) o(3) assms(1) h by metis
  with a o assms(5-8) show ?thesis by (simp add: seed_Run_def)
qed

end

section \<open>Properties\<close>

text \<open>
  C13: Seeding is idempotent. When it succeeds there is an account in use with the user name asked for,
  which is a member of an organization \<open>Gitfed Team\<close> and owns a repository \<open>hello-gitfed\<close>; at most
  one account was added, the one of the input. Run again on the same database, while it answers, it
  succeeds and changes nothing.
\<close>

theorem seed_idempotent:
  assumes "backend db tbl clock up rc kv ut ent bc" "schema_ok (tbl w)" "seed_Run db bc ent inp w = (None, w1)"
  shows "seeded inp (tbl w1) \<and>
    (\<exists>v. pg_accounts (tbl w1) = pg_accounts (tbl w) \<or>
       registered bc (seed_register inp) v \<and> pg_accounts (tbl w1) = pg_accounts (tbl w) @ [v]) \<and>
    (\<forall>w2. up w2 \<and> tbl w2 = tbl w1 \<longrightarrow> (\<exists>w3. seed_Run db bc ent inp w2 = (None, w3) \<and> tbl w3 = tbl w2))"
proof -
  note ok = backend.seed_Run_ok [OF assms]
  have "AdminName inp \<noteq> []" "AdminUsername inp \<noteq> []" "AdminEmail inp \<noteq> []" "AdminPassword inp \<noteq> []"
    using assms(3) by (auto simp: seed_Run_def)
  with ok backend.seed_Run_again [OF assms(1)] show ?thesis by metis
qed

section \<open>Witness\<close>

definition first_admin :: seed_input where
  "first_admin = \<lparr>AdminName = ''Ada'', AdminUsername = ''ada'', AdminEmail = ''ada@x.org'', AdminPassword = ''secret''\<rparr>"

lemma first_admin_run: "\<exists>w1. seed_Run sim_db sim_bcrypt sim_ent first_admin sim_init = (None, w1) \<and> sim_up w1"
  by (simp add: seed_Run_def seed_admin_def ensureOrganization_def ensureRepository_def first_admin_def seed_register_def
      hello_repo_def sim_eval git_store_def sim_up_def)

theorem seed_idempotent_witness:
  "\<exists>w1 w3. seed_Run sim_db sim_bcrypt sim_ent first_admin sim_init = (None, w1) \<and> seeded first_admin (sim_tables w1) \<and>
     seed_Run sim_db sim_bcrypt sim_ent first_admin w1 = (None, w3) \<and> sim_tables w3 = sim_tables w1"
proof -
  obtain w1 where "seed_Run sim_db sim_bcrypt sim_ent first_admin sim_init = (None, w1)" "sim_up w1"
    using first_admin_run by blast
  with seed_idempotent [OF sim.backend_axioms sim_init_ok(1) this(1)] show ?thesis by metis
qed

end
