(* ===== verification/GitHttp.thy ===== *)
theory GitHttp
  imports Http
begin

text \<open>
  The handlers of \<^verbatim>\<open>internal/api/http/http.go\<close> that serve Git and the health check, the path check
  before a repository is served, and \<^verbatim>\<open>git_presenter.go\<close>.
\<close>

section \<open>Paths before they are served\<close>

text \<open>
  What the path check asks of the operating system: the working directory, the path with its links
  resolved, whether a file is there and whether an error says that it is not.
\<close>

record 'w fs_lib =
  fs_Getwd :: "('w, string) go"
  fs_EvalSymlinks :: "string \<Rightarrow> ('w, string) go"
  fs_Stat :: "string \<Rightarrow> 'w go_err"
  fs_IsNotExist :: "gerror \<Rightarrow> bool"

definition filepath_Abs :: "'w fs_lib \<Rightarrow> string \<Rightarrow> ('w, string) go" where
  "filepath_Abs fs p w =
     (if rooted p then (Inr (filepath_Clean p), w)
      else case fs_Getwd fs w of
        (Inl e, w1) \<Rightarrow> (Inl e, w1)
      | (Inr wd, w1) \<Rightarrow> (Inr (filepath_Join [wd, p]), w1))"

definition secureRepoPath :: "'w fs_lib \<Rightarrow> string \<Rightarrow> string \<Rightarrow> 'w \<Rightarrow> string option \<times> 'w" where
  "secureRepoPath fs reposDir repo w =
     (if repo = [] \<or> rooted repo then (None, w) else
      let cleanRepo = filepath_Clean repo in
      if cleanRepo = ''.'' \<or> cleanRepo = ''..'' \<or> has_prefix ''../'' cleanRepo then (None, w)
      else case filepath_Abs fs reposDir w of
        (Inl _, w1) \<Rightarrow> (None, w1)
      | (Inr baseAbs, w1) \<Rightarrow>
     (case fs_EvalSymlinks fs baseAbs w1 of
        (Inl _, w2) \<Rightarrow> (None, w2)
      | (Inr baseReal, w2) \<Rightarrow>
     (case filepath_Abs fs (filepath_Join [baseAbs, cleanRepo]) w2 of
        (Inl _, w3) \<Rightarrow> (None, w3)
      | (Inr repoAbs, w3) \<Rightarrow>
      if repoAbs \<noteq> baseAbs \<and> \<not> has_prefix (baseAbs @ ''/'') repoAbs then (None, w3)
      else case fs_EvalSymlinks fs repoAbs w3 of
        (Inr repoReal, w4) \<Rightarrow>
          if repoReal \<noteq> baseReal \<and> \<not> has_prefix (baseReal @ ''/'') repoReal then (None, w4) else (Some repoAbs, w4)
      | (Inl e, w4) \<Rightarrow> if \<not> fs_IsNotExist fs e then (None, w4) else (Some repoAbs, w4))))"

section \<open>Handlers of the server\<close>

text \<open>\<open>gitHandler\<close> is the HTTP handler of the library \<open>go-git\<close>.\<close>

definition serveGit :: "'w fs_lib \<Rightarrow> 'w handler \<Rightarrow> 'w config \<Rightarrow> string \<Rightarrow> 'w handler" where
  "serveGit fs gitHandler cfg repo r rw w =
     (case secureRepoPath fs (cf_ReposDir cfg) repo w of
        (None, w1) \<Rightarrow> (http_Error ''Repository Not Found'' 404 rw, w1)
      | (Some repoPath, w1) \<Rightarrow>
     (case fs_Stat fs repoPath w1 of
        (Some e, w2) \<Rightarrow>
          if fs_IsNotExist fs e then (http_Error ''Repository Not Found'' 404 rw, w2) else gitHandler r rw w2
      | (None, w2) \<Rightarrow> gitHandler r rw w2))"

definition handleGitGet :: "'w fs_lib \<Rightarrow> 'w handler \<Rightarrow> 'w config \<Rightarrow> 'w handler" where
  "handleGitGet fs gitHandler cfg r rw w =
     (case cut_suffix ''/info/refs'' (rq_PathValue r ''path'') of
        None \<Rightarrow> (http_Error ''Not Found'' 404 rw, w)
      | Some repo \<Rightarrow>
          if repo = [] then (http_Error ''Not Found'' 404 rw, w)
          else if \<not> has_prefix ''git-'' (query_get r ''service'') then (http_Error ''Not Found'' 404 rw, w)
          else serveGit fs gitHandler cfg repo r rw w)"

definition post_repo :: "string \<Rightarrow> string" where
  "post_repo path =
     (case cut_suffix ''/git-upload-pack'' path of
        Some repo \<Rightarrow> repo
      | None \<Rightarrow> (case cut_suffix ''/git-receive-pack'' path of Some repo \<Rightarrow> repo | None \<Rightarrow> []))"

definition handleGitPost :: "'w fs_lib \<Rightarrow> 'w handler \<Rightarrow> 'w config \<Rightarrow> 'w handler" where
  "handleGitPost fs gitHandler cfg r rw w =
     (let repo = post_repo (rq_PathValue r ''path'') in
      if repo = [] then (http_Error ''Not Found'' 404 rw, w)
      else serveGit fs gitHandler cfg repo r rw w)"

text \<open>A health check that is not configured counts as passed.\<close>

definition check_health :: "'w go_err option \<Rightarrow> 'w \<Rightarrow> bool \<times> 'w" where
  "check_health h w = (case h of None \<Rightarrow> (True, w) | Some f \<Rightarrow> (case f w of (e, w') \<Rightarrow> (e = None, w')))"

definition up_text :: "bool \<Rightarrow> string" where
  "up_text b = (if b then ''ok'' else ''down'')"

definition handleHealthz :: "'w config \<Rightarrow> 'w handler" where
  "handleHealthz cfg r rw w =
     (case check_health (cf_DBHealth cfg) w of (db_ok, w1) \<Rightarrow>
     (case check_health (cf_RedisHealth cfg) w1 of (redis_ok, w2) \<Rightarrow>
     (let degraded = (\<not> db_ok \<or> \<not> redis_ok) in
      (writeJSON (if degraded then 503 else 200)
         (JObj [(''components'', JObj [(''database'', JStr (up_text db_ok)), (''redis'', JStr (up_text redis_ok))]),
            (''status'', JStr (if degraded then ''degraded'' else ''ok'')), (''version'', JStr (cf_AppVersion cfg))]) rw, w2))))"

section \<open>\<open>git_presenter.go\<close>\<close>

text \<open>What the Git service wrote is sent as it comes; an error after that adds its own answer.\<close>

definition send_pack ::
  "string \<Rightarrow> (string \<times> gerror option) \<times> 'w \<Rightarrow> response_writer \<Rightarrow> response_writer \<times> 'w" where
  "send_pack msg res rw =
     (case res of ((out, err), w) \<Rightarrow>
        (let rw1 = (if out = [] then rw else write_body out rw) in
         (case err of None \<Rightarrow> rw1 | Some _ \<Rightarrow> writeJSON 500 (error_json msg) rw1, w)))"

definition GitPresenter_handleGitGet :: "'w config \<Rightarrow> 'w handler" where
  "GitPresenter_handleGitGet cfg r rw w =
     (case cut_suffix ''/info/refs'' (rq_PathValue r ''path'') of
        None \<Rightarrow> (writeJSON 404 (error_json ''not found'') rw, w)
      | Some repo \<Rightarrow>
      if repo = [] then (writeJSON 404 (error_json ''not found'') rw, w)
      else let svc = query_get r ''service'' in
      if svc \<noteq> ''git-upload-pack'' \<and> svc \<noteq> ''git-receive-pack'' then (writeJSON 404 (error_json ''not found'') rw, w)
      else case Exists (cf_GitService cfg) (cf_ReposDir cfg) (zero_repository\<lparr>git_Name := repoNameFromPath repo\<rparr>) w of
        (False, w1) \<Rightarrow> (writeJSON 404 (error_json ''repository not found'') rw, w1)
      | (True, w1) \<Rightarrow>
          send_pack ''upload-pack failed''
            (UploadPack (cf_GitService cfg) (cf_ReposDir cfg) \<lparr>up_RepoPath = repo, up_Adverts = True, up_StatelessRPC = True\<rparr> [] w1)
            (set_header ''Cache-Control'' ''no-cache''
              (set_header ''Content-Type'' (''application/x-'' @ svc @ ''-advertisement'') rw)))"

definition GitPresenter_handleGitPost :: "'w config \<Rightarrow> 'w handler" where
  "GitPresenter_handleGitPost cfg r rw w =
     (let path = rq_PathValue r ''path''; repo = post_repo path in
      if repo = [] then (writeJSON 404 (error_json ''not found'') rw, w)
      else case Exists (cf_GitService cfg) (cf_ReposDir cfg) (zero_repository\<lparr>git_Name := repoNameFromPath repo\<rparr>) w of
        (False, w1) \<Rightarrow> (writeJSON 404 (error_json ''repository not found'') rw, w1)
      | (True, w1) \<Rightarrow>
      if has_suffix ''/git-upload-pack'' path then
        if header_get r ''Content-Type'' \<noteq> ''application/x-git-upload-pack-request''
        then (writeJSON 400 (error_json ''invalid content-type'') rw, w1)
        else send_pack ''upload-pack failed''
          (UploadPack (cf_GitService cfg) (cf_ReposDir cfg)
             \<lparr>up_RepoPath = repo, up_Adverts = False, up_StatelessRPC = True\<rparr> (rq_Body r) w1)
          (set_header ''Content-Type'' ''application/x-git-upload-pack-result'' rw)
      else
        if header_get r ''Content-Type'' \<noteq> ''application/x-git-receive-pack-request''
        then (writeJSON 400 (error_json ''invalid content-type'') rw, w1)
        else send_pack ''receive-pack failed''
          (ReceivePack (cf_GitService cfg) (cf_ReposDir cfg) \<lparr>rcv_RepoPath = repo, rcv_StatelessRPC = True\<rparr> (rq_Body r) w1)
          (set_header ''Content-Type'' ''application/x-git-receive-pack-result'' rw))"

section \<open>Cleaned paths\<close>

text \<open>The elements a cleaned path has: \<open>..\<close> at most in front, and not at all under the root.\<close>

definition cleaned :: "bool \<Rightarrow> string list \<Rightarrow> bool" where
  "cleaned root cs \<longleftrightarrow> (\<exists>k ps. cs = replicate k ''..'' @ ps \<and> (root \<longrightarrow> k = 0) \<and> list_all plain ps)"

lemma cleaned_snoc: assumes "cleaned root cs" "plain c" shows "cleaned root (cs @ [c])"
proof -
  obtain k ps where "cs = replicate k ''..'' @ ps" "root \<longrightarrow> k = 0" "list_all plain ps"
    using assms(1) by (auto simp: cleaned_def)
  with assms(2) show ?thesis unfolding cleaned_def by (intro exI [of _ k] exI [of _ "ps @ [c]"]) simp
qed

lemma cleaned_step: assumes "cleaned root cs" shows "cleaned root (clean_step root cs c)"
proof -
  obtain k ps where cs: "cs = replicate k ''..'' @ ps" "root \<longrightarrow> k = 0" "list_all plain ps"
    using assms by (auto simp: cleaned_def)
  consider "c = [] \<or> c = ''.''" | "c = ''..''" "ps = []" | "c = ''..''" "ps \<noteq> []" | "plain c" by (auto simp: plain_def)
  then show ?thesis
  proof cases
    case 2
    with cs have "clean_step root cs c = (if root then [] else replicate (Suc k) ''..'')"
      by (cases k) (auto simp: clean_step_def replicate_append_same last_replicate)
    then show ?thesis by (auto simp: cleaned_def intro: exI [of _ "Suc k"] exI [of _ 0])
  next
    case 3
    then obtain qs q where ps: "ps = qs @ [q]" by (cases ps rule: rev_cases) auto
    with cs(3) have "q \<noteq> ''..''" "list_all plain qs" by (simp_all add: plain_def)
    with 3 cs ps have "clean_step root cs c = replicate k ''..'' @ qs" by (simp add: clean_step_def butlast_append)
    with cs(2) \<open>list_all plain qs\<close> show ?thesis by (auto simp: cleaned_def)
  next
    case 4
    with assms cleaned_snoc show ?thesis by (auto simp: clean_step_def plain_def)
  qed (use assms in \<open>simp add: clean_step_def\<close>)
qed

lemma cleaned_fold: "cleaned root st \<Longrightarrow> cleaned root (foldl (clean_step root) st cs)"
  by (induction cs arbitrary: st) (simp_all add: cleaned_step)

lemma components_cleaned: "cleaned (rooted p) (components p)"
proof -
  have "cleaned r []" for r by (auto simp: cleaned_def intro: exI [of _ 0])
  then show ?thesis by (simp add: components_def cleaned_fold)
qed

lemma split_on_sep: "c \<in> set (split_on d s) \<Longrightarrow> d \<notin> set c"
  by (induction s arbitrary: c) (auto split: if_splits list.splits)

lemma set_clean_step: "set (clean_step root st c) \<subseteq> insert c (set st)"
  by (auto simp: clean_step_def dest: in_set_butlastD)

lemma set_clean_fold: "set (foldl (clean_step root) st cs) \<subseteq> set st \<union> set cs"
proof (induction cs arbitrary: st)
  case (Cons c cs)
  show ?case using Cons [of "clean_step root st c"] set_clean_step [of root st c] by auto
qed simp

lemma components_no_slash: "c \<in> set (components p) \<Longrightarrow> slash \<notin> set c"
  using set_clean_fold [of "rooted p" "[]" "split_on slash p"] split_on_sep [of c slash p] by (auto simp: components_def)

lemma split_join: "cs \<noteq> [] \<Longrightarrow> \<forall>c \<in> set cs. d \<notin> set c \<Longrightarrow> split_on d (join_with d cs) = cs"
proof (induction cs rule: join_with.induct)
  case (3 x y zs)
  then show ?case by (simp add: split_on_append split_on_no_sep)
qed (simp_all add: split_on_no_sep)

text \<open>A relative path that cleaning does not turn into one above the directory has ordinary elements only.\<close>

lemma relative_plain:
  assumes "\<not> rooted p" "filepath_Clean p \<noteq> ''.''" "filepath_Clean p \<noteq> ''..''" "\<not> has_prefix ''../'' (filepath_Clean p)"
  shows "components p \<noteq> []" "list_all plain (components p)"
proof -
  have c: "filepath_Clean p = (if components p = [] then ''.'' else join_with slash (components p))"
    using assms(1) by (simp add: filepath_Clean_def render_def)
  with assms(2) show ne: "components p \<noteq> []" by auto
  obtain k ps where ps: "components p = replicate k ''..'' @ ps" "list_all plain ps"
    using components_cleaned [of p] by (auto simp: cleaned_def)
  have "k = 0"
  proof (rule ccontr)
    assume "k \<noteq> 0"
    then obtain cs where cs: "components p = ''..'' # cs" using ps(1) by (cases k) auto
    show False
    proof (cases cs)
      case Nil
      with cs c assms(3) show False by simp
    next
      case (Cons x xs)
      with cs c have "filepath_Clean p = ''../'' @ join_with slash cs" by simp
      with assms(4) show False by (auto simp: has_prefix_iff)
    qed
  qed
  with ps show "list_all plain (components p)" by simp
qed

lemma plain_no_dotdot: "list_all plain cs \<Longrightarrow> ''..'' \<notin> set cs \<and> filter plain cs = cs"
  by (induction cs) (auto simp: plain_def)

lemma rooted_components: "rooted p \<Longrightarrow> list_all plain (components p)"
  using components_cleaned [of p] by (auto simp: cleaned_def)

text \<open>The elements of a path to which cleaned elements were appended.\<close>

lemma components_append:
  assumes "rooted a" "list_all plain cs" "cs \<noteq> []" "\<forall>c \<in> set cs. slash \<notin> set c"
  shows "components (a @ slash # join_with slash cs) = components a @ cs"
proof -
  have "a \<noteq> []" using assms(1) by (auto simp: rooted_def)
  then show ?thesis using plain_no_dotdot [OF assms(2)] split_join [OF assms(3,4)]
    by (simp add: components_def rooted_append split_on_append foldl_clean_plain)
qed

lemma Clean_rooted: "rooted p \<Longrightarrow> filepath_Clean p = slash # join_with slash (components p)"
  by (simp add: filepath_Clean_def render_def)

lemma components_Clean:
  assumes "rooted p"
  shows "components (filepath_Clean p) = components p" "rooted (filepath_Clean p)"
proof -
  show r: "rooted (filepath_Clean p)" by (simp add: Clean_rooted [OF assms] rooted_def)
  note pl = plain_no_dotdot [OF rooted_components [OF assms]]
  show "components (filepath_Clean p) = components p"
  proof (cases "components p = []")
    case True
    have "components ''/'' = []" by (simp add: components_def clean_step_def)
    then show ?thesis by (simp add: Clean_rooted [OF assms] True)
  next
    case False
    with components_no_slash have "split_on slash (join_with slash (components p)) = components p" by (intro split_join) auto
    moreover have "components (slash # x) = foldl (clean_step True) [] (split_on slash x)" for x
      by (simp add: components_def rooted_def clean_step_def)
    ultimately show ?thesis using pl by (simp add: Clean_rooted [OF assms] foldl_clean_plain)
  qed
qed

lemma Join_below:
  assumes "rooted dir" "list_all plain (components repo)" "components repo \<noteq> []"
  shows "filepath_Join [filepath_Clean dir, join_with slash (components repo)] = render True (components dir @ components repo)"
    and "filepath_Clean (render True (components dir @ components repo)) = render True (components dir @ components repo)"
proof -
  note c = components_Clean [OF assms(1)]
  have ne: "filepath_Clean dir \<noteq> []" using c(2) by (auto simp: rooted_def)
  have k: "components (filepath_Clean dir @ slash # join_with slash (components repo)) = components dir @ components repo"
    using components_append [OF c(2) assms(2,3)] components_no_slash c(1) by simp
  have r: "rooted (filepath_Clean dir @ slash # x)" for x using c(2) ne rooted_append by blast
  let ?x = "filepath_Clean dir @ slash # join_with slash (components repo)"
  have e: "filepath_Clean ?x = render True (components dir @ components repo)" using k r by (simp add: filepath_Clean_def [of ?x])
  then show "filepath_Join [filepath_Clean dir, join_with slash (components repo)] = render True (components dir @ components repo)"
    using ne by simp
  show "filepath_Clean (render True (components dir @ components repo)) = render True (components dir @ components repo)"
    using components_Clean [OF r, of "join_with slash (components repo)"] k unfolding e
    by (simp add: filepath_Clean_def [of "render True (components dir @ components repo)"])
qed

text \<open>
  C6: a path that \<open>secureRepoPath\<close> lets through lies in the directory of the repositories: it is the
  cleaned directory followed by at least one ordinary element of the request's path, none of them
  \<open>..\<close>, and with all links resolved it is still the resolved directory or below it, unless there is no
  such file.
\<close>

theorem secure_repo_path_contained:
  assumes "rooted dir" "secureRepoPath fs dir repo w = (Some p, w')"
  shows "p = render True (components dir @ components repo) \<and> components repo \<noteq> [] \<and> list_all plain (components repo) \<and>
    (\<exists>real w1 q. fs_EvalSymlinks fs (filepath_Clean dir) w = (Inr real, w1) \<and> fs_EvalSymlinks fs p w1 = (q, w') \<and>
       (case q of Inr t \<Rightarrow> t = real \<or> has_prefix (real @ ''/'') t | Inl e \<Rightarrow> fs_IsNotExist fs e))"
proof -
  let ?c = "filepath_Clean repo"
  have rel: "repo \<noteq> []" "\<not> rooted repo" "?c \<noteq> ''.''" "?c \<noteq> ''..''" "\<not> has_prefix ''../'' ?c"
    using assms(2) by (auto simp: secureRepoPath_def Let_def split: if_splits)
  note pl = relative_plain [OF rel(2-5)]
  have c: "?c = join_with slash (components repo)" using rel(2) pl(1) by (simp add: filepath_Clean_def render_def)
  note j = Join_below [OF assms(1) pl(2,1)]
  let ?p = "render True (components dir @ components repo)"
  have a: "filepath_Abs fs dir w0 = (Inr (filepath_Clean dir), w0)" "filepath_Abs fs ?p w0 = (Inr ?p, w0)" for w0
    using assms(1) j(2) by (simp_all add: filepath_Abs_def) (simp add: render_def rooted_def)
  obtain b w1 where b: "fs_EvalSymlinks fs (filepath_Clean dir) w = (b, w1)" by (rule prod.exhaust)
  obtain q w2 where q: "fs_EvalSymlinks fs ?p w1 = (q, w2)" by (rule prod.exhaust)
  from assms(2) rel b q a j(1) c obtain real where "b = Inr real" "p = ?p" "w2 = w'"
      "case q of Inr t \<Rightarrow> t = real \<or> has_prefix (real @ ''/'') t | Inl e \<Rightarrow> fs_IsNotExist fs e"
    by (auto simp: secureRepoPath_def Let_def split: if_splits sum.splits)
  with b q pl show ?thesis by auto
qed

definition sim_fs :: "sim fs_lib" where
  "sim_fs = \<lparr>fs_Getwd = (\<lambda>w. (Inr ''/'', w)), fs_EvalSymlinks = (\<lambda>p w. (Inr p, w)),
     fs_Stat = (\<lambda>p w. (if p \<in> set (sim_dirs w) then None else Some sim_error, w)), fs_IsNotExist = (\<lambda>e. e = sim_error)\<rparr>"

theorem secure_repo_path_contained_witness:
  "\<exists>p w'. secureRepoPath sim_fs ''/srv'' ''a/../demo'' sim_init = (Some p, w') \<and>
     p = render True (components ''/srv'' @ components ''a/../demo'')"
proof -
  have "\<exists>p w'. secureRepoPath sim_fs ''/srv'' ''a/../demo'' sim_init = (Some p, w')"
    by (simp add: secureRepoPath_def filepath_Abs_def rooted_def filepath_Clean_def render_def components_def clean_step_def
        has_prefix_def cut_prefix_def sim_fs_def)
  then show ?thesis using secure_repo_path_contained [of "''/srv''" sim_fs "''a/../demo''" sim_init]
    by (auto simp: rooted_def)
qed

end
