(* ===== verification/Server.thy ===== *)
theory Server
  imports ResourceApi GitHttp RateLimit
begin

text \<open>
  The server as a whole: the multiplexer of \<open>net/http\<close>, the routes that \<^verbatim>\<open>internal/api/http/http.go\<close> and
  its presenters register, the request log of \<^verbatim>\<open>pkg/logger/middleware.go\<close> and the chain of handlers that
  \<open>NewServer\<close> builds.
\<close>

section \<open>The multiplexer\<close>

text \<open>
  A pattern is a method and the segments of a path: a literal one, a wildcard \<open>{name}\<close> for one
  segment, and \<open>{name...}\<close> for all that remains. Paths are matched in their escaped form and the
  segments are unescaped one by one; an ill-formed escape stands for itself.
\<close>

datatype seg = Lit string | Wild string | Multi string

fun unescape :: "string \<Rightarrow> string option" where
  "unescape [] = Some []"
| "unescape (c # cs) =
     (if c = CHR ''%'' then
        (case cs of
           a # b # ds \<Rightarrow>
             (case (hex_val a, hex_val b) of
                (Some x, Some y) \<Rightarrow> map_option (\<lambda>s. char_of (16 * x + y) # s) (unescape ds)
              | _ \<Rightarrow> None)
         | _ \<Rightarrow> None)
      else map_option (\<lambda>s. c # s) (unescape cs))"

definition pathUnescape :: "string \<Rightarrow> string" where
  "pathUnescape s = (case unescape s of Some t \<Rightarrow> t | None \<Rightarrow> s)"

text \<open>\<open>firstSegment\<close>, on a path that begins with a slash; a slash at the end counts as a segment.\<close>

definition firstSegment :: "string \<Rightarrow> string \<times> string" where
  "firstSegment p =
     (if p = ''/'' then (''/'', [])
      else let q = tl p; s = takeWhile (\<lambda>c. c \<noteq> slash) q in (pathUnescape s, drop (length s) q))"

fun match_pattern :: "seg list \<Rightarrow> string \<Rightarrow> (string \<times> string) list option" where
  "match_pattern [] p = (if p = [] then Some [] else None)"
| "match_pattern (s # ss) p =
     (if p = [] then None
      else case s of
        Multi n \<Rightarrow> Some [(n, pathUnescape (tl p))]
      | Lit l \<Rightarrow> if fst (firstSegment p) = l then match_pattern ss (snd (firstSegment p)) else None
      | Wild n \<Rightarrow>
          if fst (firstSegment p) = ''/'' then None
          else map_option (\<lambda>b. (n, fst (firstSegment p)) # b) (match_pattern ss (snd (firstSegment p))))"

text \<open>
  The tree of patterns is searched for a literal segment first, then for a wildcard, then for the
  rest: of the patterns that match, the one whose kinds of segments come first is taken.
\<close>

fun more_specific :: "seg list \<Rightarrow> seg list \<Rightarrow> bool" where
  "more_specific (Lit a # p) (Lit b # q) = more_specific p q"
| "more_specific (Lit a # p) _ = True"
| "more_specific (Wild a # p) (Wild b # q) = more_specific p q"
| "more_specific (Wild a # p) (Multi b # q) = True"
| "more_specific _ _ = False"

type_synonym 'w route = "string \<times> seg list \<times> 'w handler"

fun best_match :: "'w route list \<Rightarrow> string \<Rightarrow> string \<Rightarrow> (seg list \<times> 'w handler \<times> (string \<times> string) list) option" where
  "best_match [] m p = None"
| "best_match ((m', ss, h) # rs) m p =
     (case (if m' = m then match_pattern ss p else None) of
        None \<Rightarrow> best_match rs m p
      | Some b \<Rightarrow>
          (case best_match rs m p of
             Some (ss', h', b') \<Rightarrow> if more_specific ss' ss then Some (ss', h', b') else Some (ss, h, b)
           | None \<Rightarrow> Some (ss, h, b)))"

text \<open>A \<open>HEAD\<close> request falls back on the patterns for \<open>GET\<close>.\<close>

definition find_route :: "'w route list \<Rightarrow> string \<Rightarrow> string \<Rightarrow> (seg list \<times> 'w handler \<times> (string \<times> string) list) option" where
  "find_route rs m p =
     (case best_match rs m p of
        Some x \<Rightarrow> Some x
      | None \<Rightarrow> if m = ''HEAD'' then best_match rs ''GET'' p else None)"

text \<open>\<open>cleanPath\<close>: the cleaned path, with the slash at its end kept.\<close>

definition cleanPath :: "string \<Rightarrow> string" where
  "cleanPath p =
     (if p = [] then ''/''
      else let q = (if hd p \<noteq> slash then slash # p else p); np = filepath_Clean q in
           if last q = slash \<and> np \<noteq> ''/'' then np @ ''/'' else np)"

definition allowed_methods :: "'w route list \<Rightarrow> string \<Rightarrow> string list" where
  "allowed_methods rs p =
     (let paths = (if p \<noteq> [] \<and> last p = slash then [p] else [p, p @ ''/'']) in
      filter (\<lambda>m. list_ex (\<lambda>q. find_route rs m q \<noteq> None) paths) [''DELETE'', ''GET'', ''HEAD'', ''POST''])"

fun join_text :: "string list \<Rightarrow> string" where
  "join_text [] = []"
| "join_text [x] = x"
| "join_text (x # xs) = x @ '', '' @ join_text xs"

text \<open>
  What the server uses from outside: the file system, the Git backend, the answer that sends a
  client to the cleaned path, the identifiers of requests and the request log.
\<close>

record log_entry =
  le_request_id :: string
  le_method :: string
  le_path :: string
  le_status :: nat
  le_remote_ip :: string
  le_user_agent :: string
  le_bytes_out :: nat

record 'w server_lib =
  sl_fs :: "'w fs_lib"
  sl_git :: "'w handler"
  sl_redirect :: "string \<Rightarrow> http_request \<Rightarrow> response_writer \<Rightarrow> response_writer"
  sl_uuid :: "'w \<Rightarrow> uuid \<times> 'w"
  sl_log :: "log_entry \<Rightarrow> 'w \<Rightarrow> 'w"

definition mux_ServeHTTP :: "'w server_lib \<Rightarrow> 'w route list \<Rightarrow> 'w handler" where
  "mux_ServeHTTP lib rs r rw w =
     (let path = (if rq_Method r = ''CONNECT'' then rq_Path r else cleanPath (rq_Path r)) in
      if path \<noteq> rq_Path r then (sl_redirect lib path r rw, w)
      else case find_route rs (rq_Method r) path of
        Some (ss, h, b) \<Rightarrow> h (r\<lparr>rq_PathValue := first_value b\<rparr>) rw w
      | None \<Rightarrow>
          if allowed_methods rs path \<noteq> []
          then (http_Error ''Method Not Allowed'' 405 (set_header ''Allow'' (join_text (allowed_methods rs path)) rw), w)
          else (http_Error ''404 page not found'' 404 rw, w))"

section \<open>The routes\<close>

definition authMw :: "'w config \<Rightarrow> 'w handler \<Rightarrow> 'w handler" where
  "authMw cfg = Auth (session_Validate (cf_Tokens cfg) (cf_UUID cfg))"

definition authChain :: "'w config \<Rightarrow> 'w handler \<Rightarrow> 'w handler" where
  "authChain cfg next = authMw cfg (case cf_UserRateLimit cfg of None \<Rightarrow> next | Some limit \<Rightarrow> limit next)"

definition UserPresenter_RegisterRoutes :: "'w config \<Rightarrow> 'w route list" where
  "UserPresenter_RegisterRoutes cfg = [(''POST'', [Lit ''auth'', Lit ''register''], UserPresenter_Register cfg)]"

definition SessionPresenter_RegisterRoutes :: "'w config \<Rightarrow> 'w route list" where
  "SessionPresenter_RegisterRoutes cfg =
     [(''POST'', [Lit ''auth'', Lit ''login''], SessionPresenter_Login cfg),
      (''POST'', [Lit ''auth'', Lit ''logout''], SessionPresenter_Logout cfg),
      (''POST'', [Lit ''auth'', Lit ''refresh''], SessionPresenter_Refresh cfg)]"

definition SSOPresenter_RegisterRoutes :: "'w config \<Rightarrow> 'w route list" where
  "SSOPresenter_RegisterRoutes cfg =
     [(''GET'', [Lit ''auth'', Lit ''google''], SSOPresenter_GoogleRedirect cfg),
      (''GET'', [Lit ''auth'', Lit ''google'', Lit ''callback''], SSOPresenter_GoogleCallback cfg)]"

definition TOTPPresenter_RegisterRoutes :: "'w config \<Rightarrow> ('w handler \<Rightarrow> 'w handler) \<Rightarrow> 'w route list" where
  "TOTPPresenter_RegisterRoutes cfg mw =
     [(''POST'', [Lit ''auth'', Lit ''totp'', Lit ''setup''], mw (TOTPPresenter_Setup cfg)),
      (''POST'', [Lit ''auth'', Lit ''totp'', Lit ''verify''], mw (TOTPPresenter_Verify cfg))]"

definition OrganizationPresenter_RegisterRoutes :: "'w config \<Rightarrow> ('w handler \<Rightarrow> 'w handler) \<Rightarrow> 'w route list" where
  "OrganizationPresenter_RegisterRoutes cfg mw =
     [(''POST'', [Lit ''orgs''], mw (OrganizationPresenter_Create cfg)),
      (''GET'', [Lit ''orgs''], mw (OrganizationPresenter_List cfg)),
      (''POST'', [Lit ''orgs'', Wild ''orgID'', Lit ''users''], mw (OrganizationPresenter_AddUser cfg))]"

definition RepositoryPresenter_RegisterRoutes :: "'w config \<Rightarrow> ('w handler \<Rightarrow> 'w handler) \<Rightarrow> 'w route list" where
  "RepositoryPresenter_RegisterRoutes cfg mw =
     [(''POST'', [Lit ''repos''], mw (RepositoryPresenter_Create cfg)),
      (''GET'', [Lit ''repos''], mw (RepositoryPresenter_List cfg)),
      (''DELETE'', [Lit ''repos'', Wild ''id''], mw (RepositoryPresenter_Delete cfg))]"

definition registerAuthRoutes :: "'w config \<Rightarrow> 'w route list" where
  "registerAuthRoutes cfg =
     UserPresenter_RegisterRoutes cfg @ SessionPresenter_RegisterRoutes cfg @ SSOPresenter_RegisterRoutes cfg @
     TOTPPresenter_RegisterRoutes cfg (authChain cfg) @ OrganizationPresenter_RegisterRoutes cfg (authMw cfg) @
     RepositoryPresenter_RegisterRoutes cfg (authMw cfg)"

definition registerGitRoutes :: "'w server_lib \<Rightarrow> 'w config \<Rightarrow> 'w route list" where
  "registerGitRoutes lib cfg =
     [(''GET'', [Lit ''healthz''], handleHealthz cfg),
      (''GET'', [Multi ''path''], handleGitGet (sl_fs lib) (sl_git lib) cfg),
      (''POST'', [Multi ''path''], handleGitPost (sl_fs lib) (sl_git lib) cfg)]"

section \<open>The request log\<close>

definition logger_Middleware :: "'w server_lib \<Rightarrow> uuid_text \<Rightarrow> 'w handler \<Rightarrow> 'w handler" where
  "logger_Middleware lib ut next r rw w =
     (let given = TrimSpace (header_get r ''X-Request-Id'') in
      case (if given = [] then (case sl_uuid lib w of (i, w1) \<Rightarrow> (uuid_String ut i, w1)) else (given, w)) of
        (requestID, w1) \<Rightarrow>
     (case next r (rw\<lparr>sw_status := 0, sw_bytesOut := 0\<rparr>) w1 of
        (rw', w2) \<Rightarrow>
          (rw', sl_log lib \<lparr>le_request_id = requestID, le_method = rq_Method r, le_path = pathUnescape (rq_Path r),
                  le_status = sw_status rw', le_remote_ip = clientIP r, le_user_agent = header_get r ''User-Agent'',
                  le_bytes_out = sw_bytesOut rw'\<rparr> w2)))"

section \<open>\<open>NewServer\<close>\<close>

definition server_routes :: "'w server_lib \<Rightarrow> 'w config \<Rightarrow> 'w route list" where
  "server_routes lib cfg = registerAuthRoutes cfg @ registerGitRoutes lib cfg"

text \<open>The chain for a server with a logger: log, then limit by address, then dispatch.\<close>

definition ServeHTTP :: "'w server_lib \<Rightarrow> 'w config \<Rightarrow> 'w handler" where
  "ServeHTTP lib cfg =
     (let h = mux_ServeHTTP lib (server_routes lib cfg);
          h = (case cf_IPRateLimit cfg of None \<Rightarrow> h | Some limit \<Rightarrow> limit h)
      in logger_Middleware lib (cf_UUID cfg) h)"

section \<open>\<open>Serve\<close>\<close>

text \<open>
  The network: \<open>net.Listen\<close> gives a listener of type \<open>'l\<close> or an error, \<open>http.Serve\<close> hands the requests that
  arrive to the handler and returns the error that ended it. The last field writes one line of the log.
\<close>

record ('w, 'l) net_lib =
  net_Listen :: "string \<Rightarrow> ('w, 'l) go"
  http_Serve :: "'l \<Rightarrow> 'w handler \<Rightarrow> 'w go_err"
  net_Info :: "string \<Rightarrow> string \<times> string \<Rightarrow> 'w \<Rightarrow> 'w"

definition Serve :: "('w, 'l) net_lib \<Rightarrow> 'w server_lib \<Rightarrow> 'w config \<Rightarrow> string \<Rightarrow> 'w go_err" where
  "Serve nl lib cfg address w =
     (case net_Listen nl address w of
        (Inl e, w1) \<Rightarrow> (Some (Wrap ''listen'' e), w1)
      | (Inr l, w1) \<Rightarrow>
          http_Serve nl l (ServeHTTP lib cfg) (net_Info nl ''server listening'' (''address'', address) w1))"

end
