(* ===== verification/SystemInv.thy ===== *)
theory SystemInv
  imports Server
begin

text \<open>
  The state the whole server keeps: the constraints of the database schema, and that every token in
  Redis was issued to a user of the database. Every request keeps it.
\<close>

section \<open>The invariant\<close>

definition tokens_owned :: "uuid_text \<Rightarrow> tables \<Rightarrow> redis_db \<Rightarrow> bool" where
  "tokens_owned ut t m \<longleftrightarrow>
     (\<forall>tok v e. m (accessKey tok) = Some (v, e) \<or> m (refreshKey tok) = Some (v, e) \<longrightarrow>
        (\<exists>u \<in> pg_user_ids t. v = uuid_String ut u))"

definition system_ok :: "uuid_text \<Rightarrow> tables \<Rightarrow> redis_db \<Rightarrow> bool" where
  "system_ok ut t m \<longleftrightarrow> schema_ok t \<and> tokens_owned ut t m"

lemma tokens_ownedD:
  assumes "tokens_owned ut t m" "m k = Some (v, e)" "k = accessKey tok \<or> k = refreshKey tok"
  shows "\<exists>u \<in> pg_user_ids t. v = uuid_String ut u"
  using assms unfolding tokens_owned_def by blast

lemma tokens_owned_mono:
  assumes "tokens_owned ut t m" "pg_user_ids t \<subseteq> pg_user_ids t'"
  shows "tokens_owned ut t' m"
  using assms unfolding tokens_owned_def by (meson subsetD)

lemma tokens_owned_set:
  assumes "tokens_owned ut t m"
    and "\<And>tok. k = accessKey tok \<or> k = refreshKey tok \<Longrightarrow> \<exists>u \<in> pg_user_ids t. v = uuid_String ut u"
  shows "tokens_owned ut t (m(k \<mapsto> (v, e)))"
  unfolding tokens_owned_def
proof (intro allI impI)
  fix tok v' e'
  assume "(m(k \<mapsto> (v, e))) (accessKey tok) = Some (v', e') \<or> (m(k \<mapsto> (v, e))) (refreshKey tok) = Some (v', e')"
  then consider "k = accessKey tok \<or> k = refreshKey tok" "v' = v" | "m (accessKey tok) = Some (v', e')"
    | "m (refreshKey tok) = Some (v', e')" by (auto split: if_splits)
  then show "\<exists>u \<in> pg_user_ids t. v' = uuid_String ut u" using assms tokens_ownedD [OF assms(1)] by cases blast+
qed

lemma tokens_owned_del: "tokens_owned ut t m \<Longrightarrow> tokens_owned ut t (m(k := None))"
  unfolding tokens_owned_def by auto

text \<open>No statement takes a user out of the database; deleting one only marks it.\<close>

definition users_kept :: "tables \<Rightarrow> tables \<Rightarrow> bool" where
  "users_kept t t' \<longleftrightarrow> su_UserID ` set (t_users t) \<subseteq> su_UserID ` set (t_users t')"

lemma users_kept_same [simp]: "t_users t' = t_users t \<Longrightarrow> users_kept t t'"
  by (simp add: users_kept_def)

lemma users_kept_ops:
  "users_kept t (snd (ins_user now i nm un pw em t))" "users_kept t (snd (ins_organization i nm ds t))"
  "users_kept t (snd (ins_member i j t))" "users_kept t (snd (ins_session now i j rt t))"
  "users_kept t (snd (ins_sso now i j nm pr u t))" "users_kept t (snd (ins_repository now i nm ds pv ow rf t))"
  "users_kept t (snd (del_member i j t))" "users_kept t (snd (del_organization i t))"
  "users_kept t (snd (del_sessions p t))" "users_kept t (snd (del_sso i t))"
  "users_kept t (snd (soft_del_repository now i t))" "users_kept t (snd (upd_repository now i nm ds pv ow rf t))"
  by (auto simp: ins_user_def ins_organization_def ins_member_def ins_session_def ins_sso_def ins_repository_def
      del_member_def del_organization_def del_sessions_def del_sso_def soft_del_repository_def upd_repository_def Let_def)
     (auto simp: users_kept_def)

lemma users_kept_upd:
  assumes "\<And>u. su_UserID (f u) = su_UserID u"
  shows "users_kept t (snd (upd_users i f t))"
proof -
  have "su_UserID (if b then f u else u) = su_UserID u" for b u using assms by simp
  then show ?thesis by (simp add: users_kept_def upd_users_def image_image del: if_image_distrib)
qed

lemma users_kept_sql: "users_kept t (snd (sql_sem st now args t))"
  by (cases st)
     (auto simp: users_kept_ops users_kept_upd split: list.splits pgval.splits option.splits Option.bind_splits)

lemma user_ids_sql: "pg_user_ids t \<subseteq> pg_user_ids (snd (sql_sem st now args t))"
proof -
  have "pg_user_ids t = fromPgUUID ` su_UserID ` set (t_users t)" for t
    by (auto simp: pg_user_ids_def pg_accounts_def image_image)
  then show ?thesis using users_kept_sql [of t st now args] unfolding users_kept_def by (metis image_mono)
qed

section \<open>What the server is made of\<close>

text \<open>A step that leaves the database and Redis as they are.\<close>

definition quiet :: "('w \<Rightarrow> tables) \<Rightarrow> ('w \<Rightarrow> redis_db) \<Rightarrow> ('w \<Rightarrow> 'a \<times> 'w) \<Rightarrow> bool" where
  "quiet tbl kv f \<longleftrightarrow> (\<forall>w. tbl (snd (f w)) = tbl w \<and> kv (snd (f w)) = kv w)"

text \<open>The limiter's script writes the key it is given and no other.\<close>

definition bucket_only :: "('w \<Rightarrow> tables) \<Rightarrow> ('w \<Rightarrow> redis_db) \<Rightarrow> 'w allow_func \<Rightarrow> bool" where
  "bucket_only tbl kv allow \<longleftrightarrow>
     (\<forall>key rate burst w. tbl (snd (allow key rate burst w)) = tbl w \<and>
        (\<forall>k. k \<noteq> key \<longrightarrow> kv (snd (allow key rate burst w)) k = kv w k))"

locale application = backend db tbl clock up rc kv ut ent bc
  for db :: "'w dbtx" and tbl :: "'w \<Rightarrow> tables" and clock :: "'w \<Rightarrow> int" and up :: "'w \<Rightarrow> bool"
    and rc :: "'w redis_client" and kv :: "'w \<Rightarrow> redis_db" and ut :: uuid_text and ent :: "'w entropy"
    and bc :: "'w bcrypt" +
  fixes cfg :: "'w config" and lib :: "'w server_lib"
  assumes is_wired: "wired cfg db rc ut ent bc"
    and google_quiet: "quiet tbl kv (random_UUID (cf_GoogleLib cfg))" "quiet tbl kv (Exchange (cf_GoogleLib cfg) oc code)"
      "quiet tbl kv (ClientGet (cf_GoogleLib cfg) oc token url)"
    and totp_quiet: "quiet tbl kv (totp_Generate (cf_TOTPLib cfg) issuer account)"
    and git_quiet: "quiet tbl kv (uuid_New (cf_GitService cfg))" "quiet tbl kv (PlainInit (cf_GitService cfg) p bare branch)"
    and fs_quiet: "quiet tbl kv (fs_Getwd (sl_fs lib))" "quiet tbl kv (fs_EvalSymlinks (sl_fs lib) p)"
      "quiet tbl kv (fs_Stat (sl_fs lib) p)"
    and backend_quiet: "quiet tbl kv (sl_git lib r rw)"
    and log_quiet: "quiet tbl kv (sl_uuid lib)" "tbl (sl_log lib entry w) = tbl w" "kv (sl_log lib entry w) = kv w"
    and health_quiet: "cf_DBHealth cfg = Some h \<Longrightarrow> quiet tbl kv h" "cf_RedisHealth cfg = Some h \<Longrightarrow> quiet tbl kv h"
    and ip_limit: "cf_IPRateLimit cfg = Some m \<Longrightarrow> \<exists>allow rate burst. m = IPMiddleware allow rate burst \<and> bucket_only tbl kv allow"
    and user_limit: "cf_UserRateLimit cfg = Some m \<Longrightarrow>
        \<exists>allow ex rate burst. m = UserMiddleware allow ex rate burst \<and> bucket_only tbl kv allow"
begin

abbreviation good :: "'w \<Rightarrow> bool" where "good w \<equiv> system_ok ut (tbl w) (kv w)"

text \<open>Steps of the database, of Redis and of everything else.\<close>

lemma good_db:
  assumes "good w" "kv w' = kv w" "tbl w' \<in> {tbl w, snd (sql_sem st (clock w) args (tbl w))}"
  shows "good w'"
  using assms schema_ok_sql_sem [of "tbl w" st "clock w" args] user_ids_sql [of "tbl w" st "clock w" args]
    tokens_owned_mono [of ut "tbl w" "kv w" "snd (sql_sem st (clock w) args (tbl w))"]
  by (auto simp: system_ok_def)

lemma good_quiet: "quiet tbl kv f \<Longrightarrow> f w = (r, w') \<Longrightarrow> good w \<Longrightarrow> good w'"
  unfolding quiet_def by (metis snd_conv)

lemma good_exec: "Exec db st args w = (r, w') \<Longrightarrow> good w \<Longrightarrow> good w'"
proof -
  assume e: "Exec db st args w = (r, w')" "good w"
  have "tbl w' \<in> {tbl w, snd (sql_sem st (clock w) args (tbl w))}"
    using e(1) exec_ok [of st args w w'] exec_err [of st args w _ w'] by (cases r) auto
  with e db_kv(1) [of st args w] show ?thesis by (intro good_db [of w w' st args]) simp_all
qed

lemma good_row: "QueryRow db st args w = (r, w') \<Longrightarrow> good w \<Longrightarrow> good w'"
proof -
  assume e: "QueryRow db st args w = (r, w')" "good w"
  have "tbl w' \<in> {tbl w, snd (sql_sem st (clock w) args (tbl w))}"
  proof (cases r)
    case (Inl x)
    show ?thesis
    proof (cases "errors_is x pgx_ErrNoRows")
      case True
      with row_none e(1) Inl have "sql_sem st (clock w) args (tbl w) = (Inr [], tbl w')" by blast
      then show ?thesis by simp
    next
      case False
      with row_err e(1) Inl show ?thesis by blast
    qed
  next
    case (Inr x)
    with row_ok e(1) obtain rows where "sql_sem st (clock w) args (tbl w) = (Inr (x # rows), tbl w')" by blast
    then show ?thesis by simp
  qed
  with e db_kv(2) [of st args w] show ?thesis by (intro good_db [of w w' st args]) simp_all
qed

lemma good_query: "Query db st args w = (r, w') \<Longrightarrow> good w \<Longrightarrow> good w'"
proof -
  assume q: "Query db st args w = (r, w')" "good w"
  then have k: "kv w' = kv w" using db_kv(3) [of st args w] by simp
  consider e where "r = Inl e" | rows where "r = Inr (rows, None)" | rows e where "r = Inr (rows, Some e)"
    by (cases r) (metis old.prod.exhaust option.exhaust)+
  then have "tbl w' \<in> {tbl w, snd (sql_sem st (clock w) args (tbl w))}"
    using many_ok [of st args w _ w'] many_err [of st args w _ w'] many_late [of st args w _ _ w'] q(1) by cases auto
  with q k show ?thesis by (intro good_db [of w w' st args])
qed

lemma good_get: "RGet rc k w = (r, w') \<Longrightarrow> good w \<Longrightarrow> good w'"
  using redis_tbl(2) [of k w] get_frame [of k w] by simp

lemma good_del: "RDel rc k w = (r, w') \<Longrightarrow> good w \<Longrightarrow> good w'"
  using redis_tbl(3) [of k w] del_ok [of k w w'] del_err [of k w _ w']
  by (cases r) (auto simp: system_ok_def tokens_owned_del)

lemma good_set:
  assumes "RSet rc k v ttl w = (r, w')" "good w"
    and "\<And>tok. k = accessKey tok \<or> k = refreshKey tok \<Longrightarrow> \<exists>u \<in> pg_user_ids (tbl w). v = uuid_String ut u"
  shows "good w'"
proof -
  have t: "tbl w' = tbl w" using redis_tbl(1) [of k v ttl w] assms(1) by simp
  have "kv w' \<in> {kv w, (kv w)(k \<mapsto> (v, clock w + ttl))}"
    using set_ok [of k v ttl w w'] set_err [of k v ttl w _ w'] assms(1) by (cases r) auto
  with t assms(2,3) tokens_owned_set [of ut "tbl w" "kv w" k v] show ?thesis by (auto simp: system_ok_def)
qed

lemma good_entropy:
  "RandRead ent n w = (r1, w') \<Longrightarrow> good w \<Longrightarrow> good w'" "NewV7 ent w = (r2, w') \<Longrightarrow> good w \<Longrightarrow> good w'"
  "GenerateFromPassword bc pw w = (r3, w') \<Longrightarrow> good w \<Longrightarrow> good w'"
  using entropy_tbl(1) [of n w] entropy_kv(1) [of n w] entropy_tbl(2) [of w] entropy_kv(2) [of w]
    entropy_tbl(3) [of pw w] entropy_kv(3) [of pw w] by simp_all

section \<open>The services keep it\<close>

lemma good_query_one: "query_one db st scan args w = (r, w') \<Longrightarrow> good w \<Longrightarrow> good w'"
  using good_row [of st args w] by (auto simp: query_one_def split: prod.splits sum.splits option.splits)

lemma good_query_many: "query_many db st scan args w = (r, w') \<Longrightarrow> good w \<Longrightarrow> good w'"
  using good_query [of st args w] by (auto simp: query_many_def split: prod.splits sum.splits option.splits)

lemma good_found: "found s f (query_one db st scan args w) = (r, w') \<Longrightarrow> good w \<Longrightarrow> good w'"
  using good_query_one [of st scan args w] by (auto simp: found_def split: prod.splits sum.splits if_splits)

lemma good_users:
  "ur_GetByEmail (user_store db) em w = (r, w') \<Longrightarrow> good w \<Longrightarrow> good w'"
  "ur_GetByUsername (user_store db) un w = (r, w') \<Longrightarrow> good w \<Longrightarrow> good w'"
  "ur_Create (user_store db) u w = (r, w') \<Longrightarrow> good w \<Longrightarrow> good w'"
  using good_found [of _ _ getUserByEmail scan_user "[VStr em]" w r w'] good_found [of _ _ getUserByUsername scan_user "[VStr un]" w r w']
    good_query_one [of createUser scan_user _ w]
  by (auto simp: user_store_def store_GetByEmail_def GetUserByEmail_def store_GetByUsername_def GetUserByUsername_def
      store_Create_def CreateUser_def split: prod.splits sum.splits)

lemma good_Register: "Register (user_store db) bc ent inp w = (r, w') \<Longrightarrow> good w \<Longrightarrow> good w'"
  by (auto simp: Register_def Register_insert_def split: prod.splits sum.splits if_splits dest!: good_users good_entropy)

text \<open>A session is only stored for a user, and tokens are only set for one.\<close>

lemma session_owner:
  assumes "schema_ok t" "s \<in> set (pg_sessions t)"
  shows "session_UserID s \<in> pg_user_ids t"
proof -
  obtain x where x: "x \<in> set (t_sessions t)" "s = session_of_row x" using assms(2) by (auto simp: pg_sessions_def)
  then have "user_exists t (ss_UserID x)" using assms(1) by (auto simp: schema_ok_def refs_ok_def list_all_iff)
  then obtain u where "u \<in> set (t_users t)" "uuid_eq (su_UserID u) (ss_UserID x)" by (auto simp: user_exists_def)
  then show ?thesis using x(2)
    by (auto simp: pg_user_ids_def pg_accounts_def image_iff uuid_eq_def fromPgUUID_def intro!: bexI [of _ u])
qed

lemma good_set_token:
  "ts_SetAccessToken (redis_token_store rc) t (uuid_String ut u) ttl w = (r, w') \<Longrightarrow> good w \<Longrightarrow> u \<in> pg_user_ids (tbl w) \<Longrightarrow> good w'"
  "ts_SetRefreshToken (redis_token_store rc) t (uuid_String ut u) ttl w = (r, w') \<Longrightarrow> good w \<Longrightarrow> u \<in> pg_user_ids (tbl w) \<Longrightarrow> good w'"
  by (auto simp: redis_token_store_def SetAccessToken_def SetRefreshToken_def elim!: good_set)

lemma good_session_repo:
  "sr_Create (pg_session_store db) i u rt w = (r1, w') \<Longrightarrow> good w \<Longrightarrow> good w'"
  "sr_GetUserIDByRefreshToken (pg_session_store db) rt w = (r2, w') \<Longrightarrow> good w \<Longrightarrow> good w'"
  "sr_DeleteByRefreshToken (pg_session_store db) rt w = (r3, w') \<Longrightarrow> good w \<Longrightarrow> good w'"
  by (auto simp: pg_session_store_def PGStore_Create_def CreateSession_def PGStore_GetUserIDByRefreshToken_def
      GetSessionByRefreshToken_def PGStore_DeleteByRefreshToken_def DeleteSession_def
      split: prod.splits sum.splits dest: good_query_one good_found good_exec)

lemma good_session_issue:
  assumes "session_issue (pg_session_store db) (redis_token_store rc) ut u atk rt i w = (r, w')" "good w"
  shows "good w'"
proof -
  obtain e w1 where c: "sr_Create (pg_session_store db) i u rt w = (e, w1)" by (rule prod.exhaust)
  have g: "good w1" using good_session_repo(1) [OF c assms(2)] .
  show ?thesis
  proof (cases e)
    case None
    have "schema_ok (tbl w)" "schema_ok (tbl w1)" using assms(2) g by (simp_all add: system_ok_def)
    from pg_session_repo.create_ok [OF this(1) c [unfolded None]] obtain t where
      "pg_sessions (tbl w1) = pg_sessions (tbl w) @
         [\<lparr>session_ID = i, session_UserID = u, session_RefreshToken = rt, session_CreatedAt = t\<rparr>]"
      by (auto simp: session_added_def)
    with session_owner [OF \<open>schema_ok (tbl w1)\<close>,
        of "\<lparr>session_ID = i, session_UserID = u, session_RefreshToken = rt, session_CreatedAt = t\<rparr>"]
    have u: "u \<in> pg_user_ids (tbl w1)" by simp
    obtain x w2 where a: "ts_SetAccessToken (redis_token_store rc) atk (uuid_String ut u) AccessTokenTTL w1 = (x, w2)"
      by (rule prod.exhaust)
    have "good w2" using good_set_token(1) [OF a g u] .
    moreover have "u \<in> pg_user_ids (tbl w2)"
      using a u redis_tbl(1) [of "accessKey atk" "uuid_String ut u" AccessTokenTTL w1]
      by (simp add: redis_token_store_def SetAccessToken_def)
    ultimately show ?thesis using assms(1) c None a good_set_token(2) [of rt u RefreshTokenTTL w2]
      by (auto simp: session_issue_def Let_def split: option.splits prod.splits)
  qed (use assms(1) c g in \<open>simp add: session_issue_def\<close>)
qed

lemma good_session_Create:
  "session_Create (pg_session_store db) (redis_token_store rc) ent ut u w = (r, w') \<Longrightarrow> good w \<Longrightarrow> good w'"
  by (auto simp: session_Create_def generateToken_def split: prod.splits sum.splits dest!: good_entropy good_session_issue)

lemma owner_of_mem: "owner_of rt ss = Some u \<Longrightarrow> \<exists>s \<in> set ss. session_UserID s = u"
  by (auto simp: owner_of_def split: list.splits dest: filter_eq_ConsD)

lemma good_refresh_owner:
  assumes "refresh_owner (pg_session_store db) (redis_token_store rc) ut rt w = (r, w')" "good w"
  shows "good w' \<and> (\<forall>s. r = Inr s \<longrightarrow> (\<exists>u \<in> pg_user_ids (tbl w'). s = uuid_String ut u))"
proof -
  obtain g w1 where g: "ts_GetRefreshToken (redis_token_store rc) rt w = (g, w1)" by (rule prod.exhaust)
  then have get: "RGet rc (refreshKey rt) w = (g, w1)" by (simp add: redis_token_store_def GetRefreshToken_def)
  have k: "good w1" "tbl w1 = tbl w" "kv w1 = kv w"
    using good_get [OF get assms(2)] redis_tbl(2) [of "refreshKey rt" w] get_frame [of "refreshKey rt" w] get by simp_all
  show ?thesis
  proof (cases "case g of Inr uidStr \<Rightarrow> uidStr \<noteq> [] | Inl _ \<Rightarrow> False")
    case True
    then obtain s where s: "g = Inr s" by (cases g) auto
    then obtain e where "kv w (refreshKey rt) = Some (s, e)"
      using get_ok [OF get [unfolded s]] by (auto simp: live_def split: option.splits if_splits)
    then have "\<exists>u \<in> pg_user_ids (tbl w). s = uuid_String ut u"
      using assms(2) tokens_ownedD [of ut "tbl w" "kv w" "refreshKey rt" s e rt] by (simp add: system_ok_def)
    with assms(1) g True s k show ?thesis by (auto simp: refresh_owner_def)
  next
    case False
    obtain q w2 where q: "sr_GetUserIDByRefreshToken (pg_session_store db) rt w1 = (q, w2)" by (rule prod.exhaust)
    have g2: "good w2" using good_session_repo(2) [OF q k(1)] .
    show ?thesis
    proof (cases q)
      case (Inl e)
      with assms(1) g False q g2 show ?thesis by (auto simp: refresh_owner_def)
    next
      case (Inr u)
      obtain x w3 where x: "ts_SetRefreshToken (redis_token_store rc) rt (uuid_String ut u) RefreshTokenTTL w2 = (x, w3)"
        by (rule prod.exhaust)
      have ok: "schema_ok (tbl w1)" "schema_ok (tbl w2)" using k(1) g2 by (simp_all add: system_ok_def)
      have "owner_of rt (pg_sessions (tbl w1)) = Some u" using pg_session_repo.owner_ok [OF ok(1) q [unfolded Inr]] .
      moreover have "pg_sessions (tbl w2) = pg_sessions (tbl w1)" using pg_session_repo.owner_frame [of rt w1] q by simp
      ultimately have "u \<in> pg_user_ids (tbl w2)" using owner_of_mem session_owner [OF ok(2)] by fastforce
      moreover have "tbl w3 = tbl w2" using redis_tbl(1) [of "refreshKey rt" "uuid_String ut u" RefreshTokenTTL w2] x
        by (simp add: redis_token_store_def SetRefreshToken_def)
      ultimately show ?thesis using assms(1) g False q Inr x good_set_token(2) [OF x g2]
        by (auto simp: refresh_owner_def Let_def)
    qed
  qed
qed

lemma good_Refresh:
  assumes "Refresh (pg_session_store db) (redis_token_store rc) ent ut rt w = (r, w')" "good w"
  shows "good w'"
proof -
  obtain o1 w1 where o: "refresh_owner (pg_session_store db) (redis_token_store rc) ut rt w = (o1, w1)" by (rule prod.exhaust)
  note g = good_refresh_owner [OF o assms(2)]
  show ?thesis
  proof (cases o1)
    case (Inr s)
    with g obtain u where u: "u \<in> pg_user_ids (tbl w1)" "s = uuid_String ut u" by blast
    obtain b w2 where b: "RandRead ent 32 w1 = (b, w2)" by (rule prod.exhaust)
    have "good w2" "tbl w2 = tbl w1" using good_entropy(1) [OF b] g entropy_tbl(1) [of 32 w1] b by simp_all
    with assms(1) o Inr u b good_set_token(1) [where u = u and w = w2 and w' = w'] show ?thesis
      by (auto simp: Refresh_def generateToken_def split: prod.splits sum.splits option.splits)
  qed (use assms(1) o g in \<open>simp add: Refresh_def\<close>)
qed

lemma good_Revoke: "Revoke (pg_session_store db) (redis_token_store rc) rt w = (r, w') \<Longrightarrow> good w \<Longrightarrow> good w'"
proof -
  assume r: "Revoke (pg_session_store db) (redis_token_store rc) rt w = (r, w')" "good w"
  obtain e w1 where e: "sr_DeleteByRefreshToken (pg_session_store db) rt w = (e, w1)" by (rule prod.exhaust)
  obtain d w2 where d: "RDel rc (refreshKey rt) w1 = (d, w2)" by (rule prod.exhaust)
  have "good w1" "good w2" using good_session_repo(3) [OF e r(2)] good_del [OF d] by blast+
  with r(1) e d show ?thesis
    by (auto simp: Revoke_def redis_token_store_def DeleteRefreshToken_def split: option.splits)
qed

text \<open>One-time passwords and states of logins have keys of their own.\<close>

lemma other_keys [simp]:
  "totpKey u \<noteq> accessKey t" "totpKey u \<noteq> refreshKey t" "oauthStateKey s \<noteq> accessKey t" "oauthStateKey s \<noteq> refreshKey t"
  by (simp_all add: totpKey_def oauthStateKey_def accessKey_def refreshKey_def)

lemma good_totp:
  "totp_Setup (cf_TOTPLib cfg) (redis_totp_store rc) issuer u account w = (r1, w') \<Longrightarrow> good w \<Longrightarrow> good w'"
  by (auto simp: totp_Setup_def redis_totp_store_def SetTOTPSecret_def split: prod.splits sum.splits option.splits
      dest!: good_quiet [OF totp_quiet] good_set)

lemma good_totp_Verify:
  assumes "totp_Verify (cf_TOTPLib cfg) (redis_totp_store rc) u code w = (r, w')" "good w"
  shows "good w'"
proof -
  obtain g w1 where g: "RGet rc (totpKey u) w = (g, w1)" by (rule prod.exhaust)
  obtain d w2 where d: "RDel rc (totpKey u) w1 = (d, w2)" by (rule prod.exhaust)
  have "good w1" "good w2" using good_get [OF g assms(2)] good_del [OF d] by blast+
  with assms(1) g d show ?thesis
    by (auto simp: totp_Verify_def redis_totp_store_def GetTOTPSecret_def DeleteTOTPSecret_def Let_def
        split: sum.splits if_splits)
qed

lemma good_GoogleAuthURL:
  "GoogleAuthURL (redis_state_store rc) (cf_GoogleLib cfg) ut gcfg w = (r, w') \<Longrightarrow> good w \<Longrightarrow> good w'"
  by (auto simp: GoogleAuthURL_def redis_state_store_def SetOAuthState_def Let_def split: prod.splits option.splits
      dest!: good_quiet [OF google_quiet(1)] good_set)

lemma good_fetch_user_info: "fetch_user_info (cf_GoogleLib cfg) oc code w = (r, w') \<Longrightarrow> good w \<Longrightarrow> good w'"
  by (auto simp: fetch_user_info_def split: prod.splits sum.splits if_splits
      dest!: good_quiet [OF google_quiet(2)] good_quiet [OF google_quiet(3)])

lemma good_GoogleCallback:
  assumes "GoogleCallback (redis_state_store rc) (cf_GoogleLib cfg) gcfg state code w = (r, w')" "good w"
  shows "good w'"
proof -
  obtain g w1 where g: "RGet rc (oauthStateKey state) w = (g, w1)" by (rule prod.exhaust)
  obtain d w2 where d: "RDel rc (oauthStateKey state) w1 = (d, w2)" by (rule prod.exhaust)
  have "good w1" "good w2" using good_get [OF g assms(2)] good_del [OF d] by blast+
  with assms(1) g d show ?thesis
    by (auto simp: GoogleCallback_def redis_state_store_def GetOAuthState_def DeleteOAuthState_def
        split: sum.splits if_splits dest: good_fetch_user_info)
qed

lemma good_FindOrCreateSSO: "FindOrCreateSSO (sso_store db) ent u pr nm un w = (r, w') \<Longrightarrow> good w \<Longrightarrow> good w'"
  by (auto simp: FindOrCreateSSO_def sso_store_def ssostore_GetByProviderAndUsername_def GetSSOByProviderAndUsername_def
      ssostore_Create_def CreateSSO_def split: prod.splits sum.splits if_splits
      dest!: good_entropy good_found good_query_one)

lemma good_orgs:
  "org_Create (organization_store db) ent inp w = (r1, w') \<Longrightarrow> good w \<Longrightarrow> good w'"
  "org_AddUser (organization_store db) i u w = (r2, w') \<Longrightarrow> good w \<Longrightarrow> good w'"
  "org_DeleteByID (organization_store db) i w = (r3, w') \<Longrightarrow> good w \<Longrightarrow> good w'"
  "org_GetByUserID (organization_store db) u w = (r4, w') \<Longrightarrow> good w \<Longrightarrow> good w'"
  by (auto simp: org_Create_def org_AddUser_def org_DeleteByID_def org_GetByUserID_def organization_store_def
      orgstore_Create_def CreateOrganization_def orgstore_AddUser_def AddUserToOrganization_def orgstore_DeleteByID_def
      DeleteOrganizationByID_def orgstore_GetByUserID_def GetOrganizationsByUserID_def split: prod.splits sum.splits
      dest!: good_entropy dest: good_query_one good_query_many good_exec)

lemma good_repos:
  "gr_Create (git_store db) inp w = (r1, w') \<Longrightarrow> good w \<Longrightarrow> good w'"
  "gr_GetByID (git_store db) i w = (r2, w') \<Longrightarrow> good w \<Longrightarrow> good w'"
  "gr_ListByOwner (git_store db) u w = (r3, w') \<Longrightarrow> good w \<Longrightarrow> good w'"
  "gr_SoftDelete (git_store db) i w = (r4, w') \<Longrightarrow> good w \<Longrightarrow> good w'"
  "gr_Delete (git_store db) i w = (r5, w') \<Longrightarrow> good w \<Longrightarrow> good w'"
  by (auto simp: git_store_def gitstore_Create_def CreateRepository_def gitstore_GetByID_def GetRepositoryByID_def
      gitstore_ListByOwner_def GetRepositoryByOwnerId_def gitstore_SoftDelete_def gitstore_Delete_def SoftDeleteRepository_def
      split: prod.splits sum.splits dest: good_query_one good_query_many good_found)

lemma good_git_Create: "git_Create (cf_GitService cfg) dir inp w = (r, w') \<Longrightarrow> good w \<Longrightarrow> good w'"
  by (auto simp: git_Create_def Let_def split: prod.splits option.splits if_splits
      dest!: good_quiet [OF git_quiet(1)] good_quiet [OF git_quiet(2)])

section \<open>The handlers keep it\<close>

definition keeps :: "'w handler \<Rightarrow> bool" where
  "keeps h \<longleftrightarrow> (\<forall>r rw w rw' w'. h r rw w = (rw', w') \<longrightarrow> good w \<longrightarrow> good w')"

lemma keepsI: "(\<And>r rw w rw' w'. h r rw w = (rw', w') \<Longrightarrow> good w \<Longrightarrow> good w') \<Longrightarrow> keeps h"
  by (simp add: keeps_def)

lemma keepsD: "keeps h \<Longrightarrow> h r rw w = (rw', w') \<Longrightarrow> good w \<Longrightarrow> good w'"
  by (simp add: keeps_def)

lemmas wires = wiredD [OF is_wired]

lemma keeps_deny: "deny st msg rw w = (rw', w') \<Longrightarrow> good w \<Longrightarrow> good w'"
  by (simp add: deny_def)

lemma keeps_accounts: "keeps (UserPresenter_Register cfg)" "keeps (SessionPresenter_Login cfg)"
  by (auto intro!: keepsI simp: UserPresenter_Register_def SessionPresenter_Login_def Login_session_def user_GetByEmail_def
      wires Let_def split: option.splits prod.splits sum.splits if_splits
      dest: keeps_deny dest!: good_Register good_users(1) good_session_Create)

lemma keeps_sessions: "keeps (SessionPresenter_Refresh cfg)" "keeps (SessionPresenter_Logout cfg)"
  by (auto intro!: keepsI simp: SessionPresenter_Refresh_def SessionPresenter_Logout_def wires Let_def
      split: option.splits prod.splits sum.splits if_splits dest: keeps_deny dest!: good_Refresh good_Revoke)

lemma keeps_totp: "keeps (TOTPPresenter_Setup cfg)" "keeps (TOTPPresenter_Verify cfg)"
  by (auto intro!: keepsI simp: TOTPPresenter_Setup_def TOTPPresenter_Verify_def wires
      split: option.splits prod.splits sum.splits if_splits dest: keeps_deny dest!: good_totp good_totp_Verify)

lemma good_sso_user: "sso_user cfg info w = (r, w') \<Longrightarrow> good w \<Longrightarrow> good w'"
  by (auto simp: sso_user_def user_GetByEmail_def wires split: prod.splits sum.splits if_splits
      dest!: good_users(1) good_Register)

lemma good_sso_session: "sso_session cfg u rw w = (rw', w') \<Longrightarrow> good w \<Longrightarrow> good w'"
  by (auto simp: sso_session_def wires split: prod.splits sum.splits dest: keeps_deny dest!: good_session_Create)

lemma keeps_sso: "keeps (SSOPresenter_GoogleRedirect cfg)" "keeps (SSOPresenter_GoogleCallback cfg)"
  by (auto intro!: keepsI simp: SSOPresenter_GoogleRedirect_def SSOPresenter_GoogleCallback_def wires Let_def
      split: prod.splits sum.splits if_splits dest: keeps_deny
      dest!: good_GoogleAuthURL good_GoogleCallback good_sso_user good_FindOrCreateSSO good_sso_session)

lemma good_membership: "ensureCreatorMembership cfg i u w = (r, w') \<Longrightarrow> good w \<Longrightarrow> good w'"
proof -
  assume r: "ensureCreatorMembership cfg i u w = (r, w')" "good w"
  obtain a w1 where a: "org_AddUser (organization_store db) i u w = (a, w1)" by (rule prod.exhaust)
  obtain d w2 where d: "org_DeleteByID (organization_store db) i w1 = (d, w2)" by (rule prod.exhaust)
  have "good w1" "good w2" using good_orgs(2) [OF a r(2)] good_orgs(3) [OF d] by blast+
  with r(1) a d show ?thesis by (auto simp: ensureCreatorMembership_def wires split: option.splits)
qed

lemma keeps_organizations:
  "keeps (OrganizationPresenter_Create cfg)" "keeps (OrganizationPresenter_List cfg)" "keeps (OrganizationPresenter_AddUser cfg)"
  by (auto intro!: keepsI simp: OrganizationPresenter_Create_def OrganizationPresenter_List_def
      OrganizationPresenter_AddUser_def AddUser_authorized_def wires Let_def
      split: option.splits prod.splits sum.splits if_splits dest: keeps_deny dest!: good_orgs(1,2,4) good_membership)

lemma good_rollback: "good w \<Longrightarrow> good (repository_rollback cfg i w)"
proof -
  assume g: "good w"
  obtain a w1 where a: "gr_SoftDelete (git_store db) i w = (a, w1)" by (rule prod.exhaust)
  obtain d w2 where d: "gr_Delete (git_store db) i w1 = (d, w2)" by (rule prod.exhaust)
  have "good w1" "good w2" using good_repos(4) [OF a g] good_repos(5) [OF d] by blast+
  with a d show ?thesis by (auto simp: repository_rollback_def wires split: option.splits)
qed

lemmas good_gitstore = good_repos(1-3) [unfolded git_store_simps]

lemma keeps_repository_Create: "keeps (RepositoryPresenter_Create cfg)"
  by (auto intro!: keepsI good_rollback simp: RepositoryPresenter_Create_def deny_def wires
      split: option.splits prod.splits sum.splits if_splits
      dest!: good_gitstore good_git_Create good_quiet [OF git_quiet(1)])

lemma keeps_repositories: "keeps (RepositoryPresenter_List cfg)" "keeps (RepositoryPresenter_Delete cfg)"
  by (auto intro!: keepsI simp: RepositoryPresenter_List_def RepositoryPresenter_Delete_def deny_def wires
      split: option.splits prod.splits sum.splits if_splits dest!: good_gitstore good_repos(4))

lemma good_Abs: "filepath_Abs (sl_fs lib) p w = (r, w') \<Longrightarrow> good w \<Longrightarrow> good w'"
  by (auto simp: filepath_Abs_def split: if_splits prod.splits sum.splits dest!: good_quiet [OF fs_quiet(1)])

lemma good_secure: "secureRepoPath (sl_fs lib) dir repo w = (r, w') \<Longrightarrow> good w \<Longrightarrow> good w'"
  by (auto simp: secureRepoPath_def Let_def split: if_splits prod.splits sum.splits
      dest!: good_Abs good_quiet [OF fs_quiet(2)])

lemma good_serve: "serveGit (sl_fs lib) (sl_git lib) cfg repo r rw w = (rw', w') \<Longrightarrow> good w \<Longrightarrow> good w'"
  by (auto simp: serveGit_def split: if_splits prod.splits option.splits
      dest!: good_secure good_quiet [OF fs_quiet(3)] good_quiet [OF backend_quiet])

lemma good_health: "check_health (cf_DBHealth cfg) w = (b, w') \<Longrightarrow> good w \<Longrightarrow> good w'"
  "check_health (cf_RedisHealth cfg) w = (b, w') \<Longrightarrow> good w \<Longrightarrow> good w'"
  by (auto simp: check_health_def split: option.splits prod.splits
      dest: good_quiet [OF health_quiet(1)] good_quiet [OF health_quiet(2)])

lemma keeps_git:
  "keeps (handleGitGet (sl_fs lib) (sl_git lib) cfg)" "keeps (handleGitPost (sl_fs lib) (sl_git lib) cfg)"
  "keeps (handleHealthz cfg)"
  by (auto intro!: keepsI simp: handleGitGet_def handleGitPost_def handleHealthz_def Let_def
      split: option.splits if_splits prod.splits dest!: good_serve good_health)

text \<open>Middleware and dispatch.\<close>

lemma keeps_Auth:
  assumes "keeps next"
  shows "keeps (authMw cfg next)"
proof (rule keepsI)
  fix r rw w rw' w' assume a: "authMw cfg next r rw w = (rw', w')" "good w"
  show "good w'"
  proof (rule Auth_cases [OF a(1) [unfolded authMw_def wires]])
    fix u w1 assume "tbl w1 = tbl w" "kv w1 = kv w" "next (r\<lparr>rq_UserID := Some u\<rparr>) rw w1 = (rw', w')"
    with keepsD [OF assms] a(2) show ?thesis by metis
  qed (use a(2) in simp)
qed

lemma bucket_keys: "''rl:'' @ x \<noteq> accessKey t" "''rl:'' @ x \<noteq> refreshKey t"
  by (simp_all add: accessKey_def refreshKey_def)

lemma good_allow:
  assumes "bucket_only tbl kv allow" "allow (''rl:'' @ x) rate burst w = (r, w')" "good w"
  shows "good w'"
proof -
  have t: "tbl w' = tbl w" and k: "\<And>k. k \<noteq> ''rl:'' @ x \<Longrightarrow> kv w' k = kv w k"
    using assms(1,2) unfolding bucket_only_def by (metis snd_conv)+
  have "kv w' (accessKey tok) = kv w (accessKey tok)" "kv w' (refreshKey tok) = kv w (refreshKey tok)" for tok
    using k bucket_keys by metis+
  with t assms(3) show ?thesis by (simp add: system_ok_def tokens_owned_def)
qed

lemma keeps_limited:
  assumes "bucket_only tbl kv allow" "keeps next"
  shows "keeps (limited allow (''rl:'' @ x) rate burst next)"
proof (rule keepsI)
  fix r rw w rw' w' assume a: "limited allow (''rl:'' @ x) rate burst next r rw w = (rw', w')" "good w"
  obtain q w1 where q: "allow (''rl:'' @ x) (per_second rate) burst w = (q, w1)" by (rule prod.exhaust)
  have "good w1" using good_allow [OF assms(1) q a(2)] .
  with a(1) q keepsD [OF assms(2)] show "good w'"
    by (auto simp: limited_def Let_def split: sum.splits prod.splits if_splits)
qed

lemma keeps_IP: "bucket_only tbl kv allow \<Longrightarrow> keeps next \<Longrightarrow> keeps (IPMiddleware allow rate burst next)"
proof -
  assume b: "bucket_only tbl kv allow" "keeps next"
  have "keeps (limited allow (''rl:ip:'' @ x) rate burst next)" for x
    using keeps_limited [OF b, of "''ip:'' @ x" rate burst] by simp
  then show ?thesis by (simp add: keeps_def IPMiddleware_def)
qed

lemma keeps_User: "bucket_only tbl kv allow \<Longrightarrow> keeps next \<Longrightarrow> keeps (UserMiddleware allow ex rate burst next)"
proof -
  assume b: "bucket_only tbl kv allow" "keeps next"
  have "keeps (limited allow (''rl:user:'' @ x) rate burst next)" for x
    using keeps_limited [OF b, of "''user:'' @ x" rate burst] by simp
  with b(2) show ?thesis by (auto simp: keeps_def UserMiddleware_def split: option.splits if_splits)
qed

lemma keeps_authChain: "keeps next \<Longrightarrow> keeps (authChain cfg next)"
  using user_limit by (auto simp: authChain_def split: option.splits intro!: keeps_Auth keeps_User)

lemmas keeps_handlers = keeps_accounts keeps_sessions keeps_totp keeps_sso keeps_organizations
  keeps_repository_Create keeps_repositories keeps_git keeps_Auth keeps_authChain

lemma keeps_routes: "(m, ss, h) \<in> set (server_routes lib cfg) \<Longrightarrow> keeps h"
  using keeps_handlers
  by (auto simp: server_routes_def registerAuthRoutes_def registerGitRoutes_def UserPresenter_RegisterRoutes_def
      SessionPresenter_RegisterRoutes_def SSOPresenter_RegisterRoutes_def TOTPPresenter_RegisterRoutes_def
      OrganizationPresenter_RegisterRoutes_def RepositoryPresenter_RegisterRoutes_def)

lemma best_match_mem:
  "best_match rs m p = Some (ss, h, b) \<Longrightarrow> (m, ss, h) \<in> set rs \<and> match_pattern ss p = Some b"
proof (induction rs arbitrary: ss h b)
  case (Cons x rs)
  obtain m' ss' h' where x: "x = (m', ss', h')" by (cases x)
  let ?q = "if m' = m then match_pattern ss' p else None"
  show ?case
  proof (cases ?q)
    case None
    with Cons x show ?thesis by simp
  next
    case (Some b')
    then have m: "m' = m" "match_pattern ss' p = Some b'" by (auto split: if_splits)
    show ?thesis
    proof (cases "best_match rs m p")
      case None
      with Cons.prems x m show ?thesis by simp
    next
      case (Some y)
      obtain s2 h2 b2 where y: "y = (s2, h2, b2)" by (cases y)
      with Cons.prems x m Some have "(ss, h, b) = (s2, h2, b2) \<or> (ss, h, b) = (ss', h', b')" by (auto split: if_splits)
      with Cons.IH [of s2 h2 b2] Some y x m show ?thesis by auto
    qed
  qed
qed simp

lemma find_route_mem:
  assumes "find_route rs m p = Some (ss, h, b)"
  shows "\<exists>m'. (m', ss, h) \<in> set rs \<and> match_pattern ss p = Some b"
proof (cases "best_match rs m p")
  case None
  with assms have "best_match rs ''GET'' p = Some (ss, h, b)" by (simp add: find_route_def split: if_splits)
  then show ?thesis using best_match_mem by blast
next
  case (Some x)
  with assms have "best_match rs m p = Some (ss, h, b)" by (simp add: find_route_def)
  then show ?thesis using best_match_mem by blast
qed

lemma keeps_mux: "keeps (mux_ServeHTTP lib (server_routes lib cfg))"
proof (rule keepsI)
  fix r rw w rw' w' assume a: "mux_ServeHTTP lib (server_routes lib cfg) r rw w = (rw', w')" "good w"
  let ?p = "if rq_Method r = ''CONNECT'' then rq_Path r else cleanPath (rq_Path r)"
  let ?f = "find_route (server_routes lib cfg) (rq_Method r) (rq_Path r)"
  show "good w'"
  proof (cases "?p = rq_Path r")
    case True
    then have m: "mux_ServeHTTP lib (server_routes lib cfg) r rw w = (case ?f of
        Some (ss, h, b) \<Rightarrow> h (r\<lparr>rq_PathValue := first_value b\<rparr>) rw w
      | None \<Rightarrow>
          if allowed_methods (server_routes lib cfg) (rq_Path r) \<noteq> []
          then (http_Error ''Method Not Allowed'' 405
                  (set_header ''Allow'' (join_text (allowed_methods (server_routes lib cfg) (rq_Path r))) rw), w)
          else (http_Error ''404 page not found'' 404 rw, w))"
      unfolding mux_ServeHTTP_def Let_def True by simp
    show ?thesis
    proof (cases ?f)
      case None
      with a m show ?thesis by (simp split: if_splits)
    next
      case (Some x)
      obtain ss h b where x: "x = (ss, h, b)" by (cases x)
      then have "keeps h" using find_route_mem [of "server_routes lib cfg" "rq_Method r" "rq_Path r"] Some keeps_routes by blast
      moreover have "h (r\<lparr>rq_PathValue := first_value b\<rparr>) rw w = (rw', w')" using a(1) m Some x by simp
      ultimately show ?thesis using keepsD a(2) by blast
    qed
  next
    case False
    then have "mux_ServeHTTP lib (server_routes lib cfg) r rw w = (sl_redirect lib ?p r rw, w)"
      unfolding mux_ServeHTTP_def Let_def by simp
    with a show ?thesis by simp
  qed
qed

lemma keeps_logger:
  assumes "keeps next"
  shows "keeps (logger_Middleware lib ut next)"
proof (rule keepsI)
  fix r rw w rw' w' assume a: "logger_Middleware lib ut next r rw w = (rw', w')" "good w"
  obtain i w0 where i: "sl_uuid lib w = (i, w0)" by (rule prod.exhaust)
  have g0: "good w0" using good_quiet [OF log_quiet(1) i a(2)] .
  let ?w1 = "if TrimSpace (header_get r ''X-Request-Id'') = [] then w0 else w"
  obtain rw2 w2 where n: "next r (rw\<lparr>sw_status := 0, sw_bytesOut := 0\<rparr>) ?w1 = (rw2, w2)" by (rule prod.exhaust)
  have "good w2" using keepsD [OF assms n] g0 a(2) by simp
  moreover have "\<exists>entry. w' = sl_log lib entry w2"
    using a(1) i n by (auto simp: logger_Middleware_def Let_def split: if_splits)
  ultimately show "good w'" using log_quiet(2,3) by auto
qed

lemma ServeHTTP_keeps: "keeps (ServeHTTP lib cfg)"
  using ip_limit keeps_mux
  by (auto simp: ServeHTTP_def wires Let_def split: option.splits intro!: keeps_logger keeps_IP)

end

section \<open>The running server\<close>

text \<open>
  The worlds the server gets to: it starts with any database and Redis that satisfy a condition,
  requests arrive (none of them with a user in its context), and between them the rest of the world
  may change, the clock for one.
\<close>

inductive reachable ::
  "('w \<Rightarrow> tables) \<Rightarrow> ('w \<Rightarrow> redis_db) \<Rightarrow> 'w server_lib \<Rightarrow> 'w config \<Rightarrow> 'w \<Rightarrow> 'w \<Rightarrow> bool"
  for tbl kv lib cfg start where
  started: "reachable tbl kv lib cfg start start"
| served: "reachable tbl kv lib cfg start w \<Longrightarrow> rq_UserID r = None \<Longrightarrow> ServeHTTP lib cfg r new_writer w = (rw', w') \<Longrightarrow>
    reachable tbl kv lib cfg start w'"
| elapsed: "reachable tbl kv lib cfg start w \<Longrightarrow> tbl w' = tbl w \<Longrightarrow> kv w' = kv w \<Longrightarrow> reachable tbl kv lib cfg start w'"

text \<open>
  What \<open>http.Serve\<close> does with a handler, as far as modelled: hand it requests one after the other, each
  with a fresh writer, and let time pass. How handlers of two connections interleave is left out.
\<close>

inductive handled :: "('w \<Rightarrow> tables) \<Rightarrow> ('w \<Rightarrow> redis_db) \<Rightarrow> 'w handler \<Rightarrow> 'w \<Rightarrow> 'w \<Rightarrow> bool"
  for tbl kv h where
  idle: "tbl w' = tbl w \<Longrightarrow> kv w' = kv w \<Longrightarrow> handled tbl kv h w w'"
| request: "handled tbl kv h w w1 \<Longrightarrow> rq_UserID r = None \<Longrightarrow> h r new_writer w1 = (rw', w2) \<Longrightarrow> handled tbl kv h w w2"
| pause: "handled tbl kv h w w1 \<Longrightarrow> tbl w2 = tbl w1 \<Longrightarrow> kv w2 = kv w1 \<Longrightarrow> handled tbl kv h w w2"

locale network =
  fixes nl :: "('w, 'l) net_lib" and tbl :: "'w \<Rightarrow> tables" and kv :: "'w \<Rightarrow> redis_db"
  assumes listen_quiet: "quiet tbl kv (net_Listen nl a)"
    and log_quiet: "tbl (net_Info nl msg kvs w) = tbl w" "kv (net_Info nl msg kvs w) = kv w"
    and serve_handles: "http_Serve nl l h w = (e, w') \<Longrightarrow> e \<noteq> None \<and> handled tbl kv h w w'"
begin

lemma handled_reachable:
  "handled tbl kv (ServeHTTP lib cfg) w w' \<Longrightarrow> reachable tbl kv lib cfg start w \<Longrightarrow> reachable tbl kv lib cfg start w'"
  by (induction rule: handled.induct) (blast intro: served elapsed)+

text \<open>\<open>Serve\<close> only ever returns with an error, and what it did is a run of the server.\<close>

lemma Serve_reaches:
  assumes "Serve nl lib cfg address w = (e, w')"
  shows "e \<noteq> None" "reachable tbl kv lib cfg w w'"
proof -
  obtain l w1 where l: "net_Listen nl address w = (l, w1)" by (rule prod.exhaust)
  have same: "tbl w1 = tbl w" "kv w1 = kv w" using listen_quiet [of address] l by (auto simp: quiet_def dest!: spec [of _ w])
  have "e \<noteq> None \<and> reachable tbl kv lib cfg w w'"
  proof (cases l)
    case (Inl x)
    with assms l have "e \<noteq> None" "w' = w1" by (auto simp: Serve_def)
    with elapsed [OF started same] show ?thesis by blast
  next
    case (Inr lis)
    define w2 where "w2 = net_Info nl ''server listening'' (''address'', address) w1"
    have s: "http_Serve nl lis (ServeHTTP lib cfg) w2 = (e, w')"
      using assms l Inr by (simp add: Serve_def w2_def)
    have "reachable tbl kv lib cfg w w2"
      by (rule elapsed [OF started]) (simp_all add: w2_def log_quiet same)
    with serve_handles [OF s] handled_reachable show ?thesis by blast
  qed
  then show "e \<noteq> None" "reachable tbl kv lib cfg w w'" by auto
qed

end

lemma system_ok_empty: "system_ok ut empty_tables Map.empty"
  by (simp add: system_ok_def tokens_owned_def schema_ok_empty)

context application
begin

lemma reachable_good:
  assumes "reachable tbl kv lib cfg start w" "good start"
  shows "good w"
  using assms
proof (induction rule: reachable.induct)
  case (served w r rw' w')
  then show ?case using keepsD [OF ServeHTTP_keeps] by blast
qed simp_all

text \<open>Who is let through by \<open>Auth\<close> in a good world.\<close>

lemma Auth_user:
  assumes "good w" "authMw cfg next r rw w = (rw', w')"
  shows "(\<exists>u w1. u \<in> pg_user_ids (tbl w) \<and> tbl w1 = tbl w \<and> kv w1 = kv w \<and> next (r\<lparr>rq_UserID := Some u\<rparr>) rw w1 = (rw', w')) \<or>
    (\<exists>msg. rw' = writeJSON 401 (error_json msg) rw \<and> tbl w' = tbl w \<and> kv w' = kv w)"
proof (rule Auth_cases [OF assms(2) [unfolded authMw_def wires]])
  fix s e u w1
  assume t: "access_tokens (kv w) (extractAccessToken r) = Some (s, e)" "uuid_Parse ut s = Inr u"
    and n: "tbl w1 = tbl w" "kv w1 = kv w" "next (r\<lparr>rq_UserID := Some u\<rparr>) rw w1 = (rw', w')"
  from t(1) have "kv w (accessKey (extractAccessToken r)) = Some (s, e)" by (simp add: access_tokens_def)
  then obtain v where "v \<in> pg_user_ids (tbl w)" "s = uuid_String ut v"
    using assms(1) tokens_ownedD [of ut "tbl w" "kv w" _ s e] by (auto simp: system_ok_def)
  with t(2) parse_string have "u \<in> pg_user_ids (tbl w)" by simp
  with n show ?thesis by blast
qed blast

end

section \<open>The simulated server\<close>

definition sim_lib :: "sim server_lib" where
  "sim_lib = \<lparr>sl_fs = sim_fs, sl_git = (\<lambda>r rw w. (write_body ''0000'' rw, tick w)),
     sl_redirect = (\<lambda>p r rw. WriteHeader 301 (set_header ''Location'' p rw)),
     sl_uuid = (\<lambda>w. (word_of_nat (sim_seed w), tick w)), sl_log = (\<lambda>entry w. w)\<rparr>"

lemma tick_frame [simp]: "sim_tables (tick w) = sim_tables w" "sim_kv (tick w) = sim_kv w"
  by (simp_all add: tick_def)

interpretation sim_app: application sim_db sim_tables sim_clock sim_up sim_rc sim_kv uuid_std sim_ent sim_bcrypt sim_cfg sim_lib
proof (intro application.intro application_axioms.intro)
  show "backend sim_db sim_tables sim_clock sim_up sim_rc sim_kv uuid_std sim_ent sim_bcrypt" by (rule sim.backend_axioms)
  show "wired sim_cfg sim_db sim_rc uuid_std sim_ent sim_bcrypt" by (rule sim_wired)
qed (simp_all add: quiet_def sim_cfg_def sim_google_def sim_totp_def sim_git_def sim_lib_def sim_fs_def)

text \<open>A listener that has a list of requests to give, and fails after them.\<close>

fun sim_Serve :: "http_request list \<Rightarrow> 'w handler \<Rightarrow> 'w go_err" where
  "sim_Serve [] h w = (Some (Opaque ''accept: use of closed network connection''), w)"
| "sim_Serve (r # rs) h w = sim_Serve rs h (snd (h (r\<lparr>rq_UserID := None\<rparr>) new_writer w))"

definition sim_net :: "http_request list \<Rightarrow> (sim, http_request list) net_lib" where
  "sim_net rs = \<lparr>net_Listen = (\<lambda>a w. (if a = [] then Inl (Opaque ''missing address'') else Inr rs, tick w)),
     http_Serve = sim_Serve, net_Info = (\<lambda>msg kvs w. w)\<rparr>"

lemma sim_Serve_handles:
  "sim_Serve rs h w = (e, w') \<Longrightarrow> handled tbl kv h w0 w \<Longrightarrow> e \<noteq> None \<and> handled tbl kv h w0 w'"
proof (induction rs h w rule: sim_Serve.induct)
  case (2 r rs h w)
  have "handled tbl kv h w0 (snd (h (r\<lparr>rq_UserID := None\<rparr>) new_writer w))"
    by (rule request [OF 2(3), of "r\<lparr>rq_UserID := None\<rparr>"]) (simp_all add: prod_eq_iff)
  with 2(1) 2(2) show ?case by simp
qed auto

interpretation sim_network: network "sim_net rs" sim_tables sim_kv for rs
  by unfold_locales (auto simp: sim_net_def quiet_def dest!: sim_Serve_handles intro: handled.idle)

section \<open>Properties\<close>

text \<open>
  C1: whatever requests the server answers, in whatever order, and whatever of the services fails in
  between: from an empty database and an empty Redis it only gets to worlds where the keys and
  references of the schema hold and every access and refresh token names a user of the database.
\<close>

theorem system_invariant:
  assumes "application db tbl clock up rc kv ut ent bc cfg lib"
    and "tbl start = empty_tables" "kv start = Map.empty" "reachable tbl kv lib cfg start w"
  shows "schema_ok (tbl w) \<and> tokens_owned ut (tbl w) (kv w)"
  using application.reachable_good [OF assms(1,4)] assms(2,3) system_ok_empty [of ut] by (simp add: system_ok_def)

theorem system_invariant_witness:
  "\<exists>rw' w'. ServeHTTP sim_lib sim_cfg (post_body ''/auth/register'' sim_register_body) new_writer sim_init = (rw', w') \<and>
     schema_ok (sim_tables w') \<and> tokens_owned uuid_std (sim_tables w') (sim_kv w')"
proof -
  let ?r = "post_body ''/auth/register'' sim_register_body"
  obtain rw' w' where s: "ServeHTTP sim_lib sim_cfg ?r new_writer sim_init = (rw', w')" by (rule prod.exhaust)
  have u: "rq_UserID ?r = None" by (simp add: post_body_def)
  have "sim_tables sim_init = empty_tables" "sim_kv sim_init = Map.empty" by (simp_all add: sim_init_def)
  from system_invariant [OF sim_app.application_axioms this served [OF started u s]] s show ?thesis by blast
qed

text \<open>
  C2: in every world the server gets to, a handler behind \<open>Auth\<close> runs on behalf of a user of the
  database and of no one else; any other request is answered with 401 and changes nothing.
\<close>

theorem authenticated_users_exist:
  assumes "application db tbl clock up rc kv ut ent bc cfg lib"
    and "tbl start = empty_tables" "kv start = Map.empty" "reachable tbl kv lib cfg start w"
    and "authMw cfg next r new_writer w = (rw', w')"
  shows "(\<exists>u w1. u \<in> pg_user_ids (tbl w) \<and> tbl w1 = tbl w \<and> kv w1 = kv w \<and>
       next (r\<lparr>rq_UserID := Some u\<rparr>) new_writer w1 = (rw', w')) \<or>
    rw_Status rw' = 401 \<and> tbl w' = tbl w \<and> kv w' = kv w"
proof -
  have "system_ok ut (tbl w) (kv w)"
    using application.reachable_good [OF assms(1,4)] assms(2,3) system_ok_empty [of ut] by simp
  from application.Auth_user [OF assms(1) this assms(5)] show ?thesis by auto
qed

theorem authenticated_users_exist_witness:
  "\<exists>rw' w'. authMw sim_cfg (OrganizationPresenter_List sim_cfg) (post_body ''/orgs'' []) new_writer sim_init = (rw', w') \<and>
     rw_Status rw' = 401"
proof -
  obtain rw' w' where a: "authMw sim_cfg (OrganizationPresenter_List sim_cfg) (post_body ''/orgs'' []) new_writer sim_init = (rw', w')"
    by (rule prod.exhaust)
  have e: "sim_tables sim_init = empty_tables" "sim_kv sim_init = Map.empty" by (simp_all add: sim_init_def)
  have "pg_user_ids (sim_tables sim_init) = {}" by (simp add: e pg_user_ids_def pg_accounts_def empty_tables_def)
  with authenticated_users_exist [OF sim_app.application_axioms e started a] a show ?thesis by auto
qed

end
