(* ===== verification/App.thy ===== *)
theory App
  imports Limiter Logger Seed SystemInv
begin

text \<open>
  \<^verbatim>\<open>cmd/http-api/main.go\<close> and \<^verbatim>\<open>cmd/admin/main.go\<close>, with \<open>Connect\<close> of \<^verbatim>\<open>internal/database\<close> and
  \<open>NewRedisStore\<close> of \<^verbatim>\<open>internal/store\<close>: how the programs start, what they wire together, and how they
  stop. What the outside answers is given by \<open>outcomes\<close>; what the programs do to it is a list of \<open>action\<close>s.
\<close>

section \<open>Outside\<close>

datatype wake = ServerReturned "gerror option" | SignalReceived

text \<open>
  The answers of the resolver, of \<open>pgxpool.New\<close> and \<open>Ping\<close>, of Redis, what \<open>select\<close> sees first (the
  server returns, or a signal), and what is returned while the program shuts down.
\<close>

record outcomes =
  oc_resolve :: "string \<Rightarrow> string option"
  oc_pool_New :: "gerror option"
  oc_pool_Ping :: "gerror option"
  oc_redis_Ping :: "gerror option"
  oc_wake :: wake
  oc_Shutdown :: "gerror option"
  oc_redis_Close :: "gerror option"
  oc_server :: "gerror option"

datatype action =
    PoolNew string | PoolPing | PoolClose
  | RedisNew string string int | RedisPing | RedisClose
  | ListenAndServe string | ShutdownServer int
  | Log int string | Usage

section \<open>Connections\<close>

definition Connect :: "outcomes \<Rightarrow> database_config \<Rightarrow> gerror option \<times> action list" where
  "Connect oc cfg =
     (case oc_pool_New oc of
        Some e \<Rightarrow> (Some (Wrap ''database connect'' e), [PoolNew (DSN cfg)])
      | None \<Rightarrow>
     (case oc_pool_Ping oc of
        Some e \<Rightarrow> (Some (Wrap ''database ping'' e), [PoolNew (DSN cfg), PoolPing, PoolClose])
      | None \<Rightarrow> (None, [PoolNew (DSN cfg), PoolPing])))"

definition NewRedisStore :: "outcomes \<Rightarrow> redis_config \<Rightarrow> gerror option \<times> action list" where
  "NewRedisStore oc cfg =
     (let acts = [RedisNew (Addr cfg) (rdc_Password cfg) (rdc_DB cfg), RedisPing] in
      case oc_redis_Ping oc of
        Some e \<Rightarrow> (Some (Wrap ''redis ping'' e), acts)
      | None \<Rightarrow> (None, acts))"

section \<open>The services of the server\<close>

text \<open>The libraries the services are made with.\<close>

record 'w main_libs =
  ml_db :: "'w dbtx"
  ml_redis :: "'w redis_client"
  ml_script :: "'w script_client"
  ml_uuid :: uuid_text
  ml_entropy :: "'w entropy"
  ml_bcrypt :: "'w bcrypt"
  ml_google :: "'w google_lib"
  ml_totp :: "'w totp_lib"
  ml_git :: "'w git_lib"
  ml_pool_Ping :: "'w go_err"
  ml_redis_Ping :: "'w go_err"

definition extractUser :: "uuid_text \<Rightarrow> http_request \<Rightarrow> string option" where
  "extractUser ut r = (case UserIDFromContext r of None \<Rightarrow> None | Some uid \<Rightarrow> Some (uuid_String ut uid))"

definition server_config :: "'w main_libs \<Rightarrow> app_config \<Rightarrow> 'w config" where
  "server_config ml cfg =
     (let allow = Allow (ml_script ml); rl = ac_RateLimit cfg in
      \<lparr>cf_ReposDir = ac_ReposDir cfg, cf_RepoStore = git_store (ml_db ml), cf_GitService = ml_git ml,
       cf_Users = user_store (ml_db ml), cf_Bcrypt = ml_bcrypt ml, cf_Entropy = ml_entropy ml, cf_UUID = ml_uuid ml,
       cf_Sessions = pg_session_store (ml_db ml), cf_Tokens = redis_token_store (ml_redis ml),
       cf_SSO = sso_store (ml_db ml), cf_States = redis_state_store (ml_redis ml),
       cf_GoogleLib = ml_google ml, cf_Google = ac_Google cfg,
       cf_TOTPLib = ml_totp ml, cf_TOTP = redis_totp_store (ml_redis ml), cf_TOTPIssuer = ac_TOTPIssuer cfg,
       cf_Orgs = organization_store (ml_db ml), cf_Secure = ac_SecureCookies cfg,
       cf_IPRateLimit = Some (IPMiddleware allow (IPRate rl) (IPBurst rl)),
       cf_UserRateLimit = Some (UserMiddleware allow (extractUser (ml_uuid ml)) (UserRate rl) (UserBurst rl)),
       cf_AppVersion = ac_AppVersion cfg,
       cf_DBHealth = Some (ml_pool_Ping ml), cf_RedisHealth = Some (ml_redis_Ping ml)\<rparr>)"

section \<open>\<open>cmd/http-api\<close>\<close>

text \<open>\<open>err != nil \<and> \<not> errors.Is(err, http.ErrServerClosed)\<close>.\<close>

definition server_failed :: "gerror option \<Rightarrow> bool" where
  "server_failed err \<longleftrightarrow> (case err of None \<Rightarrow> False | Some e \<Rightarrow> \<not> errors_is e http_ErrServerClosed)"

definition log_if :: "bool \<Rightarrow> string \<Rightarrow> action list" where
  "log_if bad msg = (if bad then [Log LevelError msg] else [])"

definition shut_down :: "outcomes \<Rightarrow> app_config \<Rightarrow> action list" where
  "shut_down oc cfg =
     [Log LevelInfo ''shutdown signal received'', ShutdownServer (ac_ShutdownTimeout cfg)] @
     log_if (oc_Shutdown oc \<noteq> None) ''graceful shutdown failed'' @
     [RedisClose] @ log_if (oc_redis_Close oc \<noteq> None) ''redis close failed'' @
     [PoolClose] @ log_if (server_failed (oc_server oc)) ''server exit error''"

text \<open>The exit status and what was done.\<close>

definition http_main :: "outcomes \<Rightarrow> environ \<Rightarrow> int \<times> action list" where
  "http_main oc env =
     (let cfg = Load env in
      if Validate (oc_resolve oc) env cfg \<noteq> None then (1, [Log LevelError ''config validation failed''])
      else case Connect oc (ac_Database cfg) of
        (Some _, a1) \<Rightarrow> (1, a1 @ [Log LevelError ''database connection failed''])
      | (None, a1) \<Rightarrow>
     (case NewRedisStore oc (ac_Redis cfg) of
        (Some _, a2) \<Rightarrow> (1, a1 @ a2 @ [Log LevelError ''redis connection failed''])
      | (None, a2) \<Rightarrow>
     (let a3 = a1 @ a2 @ [Log LevelInfo ''server listening'', ListenAndServe (ac_HTTPAddr cfg)] in
      case oc_wake oc of
        ServerReturned err \<Rightarrow> if server_failed err then (1, a3 @ [Log LevelError ''server failed'']) else (0, a3)
      | SignalReceived \<Rightarrow> (0, a3 @ shut_down oc cfg))))"

section \<open>\<open>cmd/admin\<close>\<close>

definition seed_input_of :: "app_config \<Rightarrow> seed_input" where
  "seed_input_of cfg = \<lparr>AdminName = ac_SeedAdminName cfg, AdminUsername = ac_SeedAdminUsername cfg,
     AdminEmail = ac_SeedAdminEmail cfg, AdminPassword = ac_SeedAdminPassword cfg\<rparr>"

text \<open>\<open>os.Exit\<close> does not run what was deferred: the pool is only closed when \<open>main\<close> returns.\<close>

definition admin_main ::
  "outcomes \<Rightarrow> 'w dbtx \<Rightarrow> 'w bcrypt \<Rightarrow> 'w entropy \<Rightarrow> string list \<Rightarrow> environ \<Rightarrow> 'w \<Rightarrow> int \<times> action list \<times> 'w" where
  "admin_main oc db bc ent args env w =
     (if length args < 2 then (2, [Usage], w)
      else let cfg = Load env in
      if Validate (oc_resolve oc) env cfg \<noteq> None then (1, [Log LevelError ''invalid config''], w)
      else case Connect oc (ac_Database cfg) of
        (Some _, a1) \<Rightarrow> (1, a1 @ [Log LevelError ''database connect failed''], w)
      | (None, a1) \<Rightarrow>
      if args ! 1 = ''seed'' then
        (if ValidateSeed env \<noteq> None then (1, a1 @ [Log LevelError ''seed config validation failed''], w)
         else case seed_Run db bc ent (seed_input_of cfg) w of
           (Some _, w1) \<Rightarrow> (1, a1 @ [Log LevelError ''seed failed''], w1)
         | (None, w1) \<Rightarrow> (0, a1 @ [Log LevelInfo ''seed completed'', PoolClose], w1))
      else (2, a1 @ [Usage], w))"

end
