(* ===== verification/AppProps.thy ===== *)
theory AppProps
  imports App
begin

text \<open>
  Properties of the programs: the server that \<open>main\<close> wires keeps the invariant of the system, also
  behind a run of the seed; when it listens, how it ends, and what the administration program leaves.
\<close>

section \<open>The wiring\<close>

text \<open>The libraries do nothing to the database and to Redis behind the back of the program.\<close>

locale deployment =
  backend "ml_db ml" tbl clock up "ml_redis ml" kv "ml_uuid ml" "ml_entropy ml" "ml_bcrypt ml"
  for ml :: "'w main_libs" and tbl :: "'w \<Rightarrow> tables" and clock :: "'w \<Rightarrow> int" and up :: "'w \<Rightarrow> bool" and kv :: "'w \<Rightarrow> redis_db" +
  fixes cfg :: app_config and lib :: "'w server_lib"
  assumes libs_google_quiet: "quiet tbl kv (random_UUID (ml_google ml))" "quiet tbl kv (Exchange (ml_google ml) oc code)"
      "quiet tbl kv (ClientGet (ml_google ml) oc token url)"
    and libs_totp_quiet: "quiet tbl kv (totp_Generate (ml_totp ml) issuer account)"
    and libs_git_quiet: "quiet tbl kv (uuid_New (ml_git ml))" "quiet tbl kv (PlainInit (ml_git ml) p bare branch)"
    and libs_fs_quiet: "quiet tbl kv (fs_Getwd (sl_fs lib))" "quiet tbl kv (fs_EvalSymlinks (sl_fs lib) p)"
      "quiet tbl kv (fs_Stat (sl_fs lib) p)"
    and handler_quiet: "quiet tbl kv (sl_git lib r rw)"
    and libs_log_quiet: "quiet tbl kv (sl_uuid lib)" "tbl (sl_log lib entry w) = tbl w" "kv (sl_log lib entry w) = kv w"
    and ping_quiet: "quiet tbl kv (ml_pool_Ping ml)" "quiet tbl kv (ml_redis_Ping ml)"
    and script_key: "tbl (snd (Run (ml_script ml) key argv w)) = tbl w"
      "k \<noteq> key \<Longrightarrow> kv (snd (Run (ml_script ml) key argv w)) k = kv w k"
begin

lemma allow_bucket_only: "bucket_only tbl kv (Allow (ml_script ml))"
  unfolding bucket_only_def
proof (intro allI)
  fix key rate burst w
  let ?argv = "[sprintf_f 6 rate, Itoa burst, sprintf_f 6 (fl (fl (of_int (UnixNano (ml_script ml) w)) / 10 ^ 9))]"
  obtain r w1 where r: "Run (ml_script ml) key ?argv w = (r, w1)" by (rule prod.exhaust)
  then have "snd (Allow (ml_script ml) key rate burst w) = w1"
    by (cases r) (auto simp: Allow_def Let_def split: prod.split)
  with script_key [where key = key and argv = ?argv and w = w] r
  show "tbl (snd (Allow (ml_script ml) key rate burst w)) = tbl w \<and>
      (\<forall>k. k \<noteq> key \<longrightarrow> kv (snd (Allow (ml_script ml) key rate burst w)) k = kv w k)" by simp
qed

end

text \<open>What \<open>main\<close> wires is a server of the kind the invariant is proved for.\<close>

sublocale deployment \<subseteq> application "ml_db ml" tbl clock up "ml_redis ml" kv "ml_uuid ml" "ml_entropy ml" "ml_bcrypt ml"
  "server_config ml cfg" lib
  using allow_bucket_only libs_google_quiet libs_totp_quiet libs_git_quiet libs_fs_quiet handler_quiet libs_log_quiet ping_quiet
  by unfold_locales (auto simp: wired_def server_config_def Let_def)

context deployment
begin

lemmas axioms_application = application_axioms

lemma good_seed_admin:
  assumes "seed_admin (user_store (ml_db ml)) (ml_bcrypt ml) (ml_entropy ml) inp w = (r, w')" "good w"
  shows "good w'"
  using assms
  by (auto simp: seed_admin_def split: prod.splits sum.splits if_splits dest!: good_users(2) dest: good_Register)

lemma good_ensureOrganization:
  assumes "ensureOrganization (organization_store (ml_db ml)) (ml_entropy ml) u w = (r, w')" "good w"
  shows "good w'"
proof -
  obtain q w1 where q: "org_GetByUserID (organization_store (ml_db ml)) u w = (q, w1)" by (rule prod.exhaust)
  have 1: "good w1" using good_orgs(4) [OF q assms(2)] .
  show ?thesis using assms(1) q 1
    by (auto simp: ensureOrganization_def split: prod.splits sum.splits option.splits dest: good_orgs(1,2))
qed

lemma good_GetByName: "gr_GetByName (git_store (ml_db ml)) u nm w = (r, w') \<Longrightarrow> good w \<Longrightarrow> good w'"
  by (auto simp: git_store_def gitstore_GetByName_def GetRepositoryByRepositoryName_def
      split: prod.splits sum.splits option.splits dest: good_query_many)

lemma good_ensureRepository:
  assumes "ensureRepository (git_store (ml_db ml)) (ml_entropy ml) u w = (r, w')" "good w"
  shows "good w'"
proof -
  obtain q w1 where q: "gr_GetByName (git_store (ml_db ml)) u ''hello-gitfed'' w = (q, w1)" by (rule prod.exhaust)
  have 1: "good w1" using good_GetByName [OF q assms(2)] .
  show ?thesis using assms(1) q 1
    by (auto simp: ensureRepository_def split: prod.splits sum.splits if_splits dest!: good_entropy(2) dest: good_repos(1) good_gitstore(1))
qed

lemma good_seed_Run:
  assumes "seed_Run (ml_db ml) (ml_bcrypt ml) (ml_entropy ml) inp w = (r, w')" "good w"
  shows "good w'"
proof (cases "AdminName inp = [] \<or> AdminUsername inp = [] \<or> AdminEmail inp = [] \<or> AdminPassword inp = []")
  case False
  obtain q w1 where q: "seed_admin (user_store (ml_db ml)) (ml_bcrypt ml) (ml_entropy ml) inp w = (q, w1)" by (rule prod.exhaust)
  have 1: "good w1" using good_seed_admin [OF q assms(2)] .
  show ?thesis using assms(1) q 1 False
    by (auto simp: seed_Run_def split: prod.splits sum.splits dest: good_ensureOrganization good_ensureRepository)
qed (use assms in \<open>simp add: seed_Run_def\<close>)

lemma good_admin_main:
  assumes "admin_main oc (ml_db ml) (ml_bcrypt ml) (ml_entropy ml) args env w = (code, acts, w')" "good w"
  shows "good w'"
  using assms good_seed_Run [of "seed_input_of (Load env)" w]
  by (auto simp: admin_main_def Let_def split: prod.splits option.splits if_splits)

end

text \<open>
  C28: The programs together. From an empty database and an empty Redis, after a run of the
  administration program with whatever arguments, environment and failures, the server as \<open>main\<close> wires
  it for any environment only gets to worlds where the schema holds and every token names a user.
\<close>

theorem deployed_invariant:
  assumes "deployment ml tbl clock up kv lib"
    and "tbl start = empty_tables" "kv start = Map.empty"
    and "admin_main oc (ml_db ml) (ml_bcrypt ml) (ml_entropy ml) args admin_env start = (code, acts, seeded_world)"
    and "reachable tbl kv lib (server_config ml (Load env)) seeded_world w"
  shows "schema_ok (tbl w) \<and> tokens_owned (ml_uuid ml) (tbl w) (kv w)"
proof -
  have start: "system_ok (ml_uuid ml) (tbl start) (kv start)"
    using assms(2,3) system_ok_empty [of "ml_uuid ml"] by simp
  have "system_ok (ml_uuid ml) (tbl seeded_world) (kv seeded_world)"
    using deployment.good_admin_main [OF assms(1,4) start] .
  then have "system_ok (ml_uuid ml) (tbl w) (kv w)"
    using application.reachable_good [OF _ assms(5)] deployment.axioms_application [OF assms(1)] by blast
  then show ?thesis by (simp add: system_ok_def)
qed

section \<open>Life cycle\<close>

definition can_start :: "outcomes \<Rightarrow> environ \<Rightarrow> bool" where
  "can_start oc env \<longleftrightarrow> Validate (oc_resolve oc) env (Load env) = None \<and> oc_pool_New oc = None \<and> oc_pool_Ping oc = None \<and>
     oc_redis_Ping oc = None"

definition closing :: "action \<Rightarrow> bool" where
  "closing a \<longleftrightarrow> (case a of ShutdownServer _ \<Rightarrow> True | RedisClose \<Rightarrow> True | PoolClose \<Rightarrow> True | _ \<Rightarrow> False)"

lemma closing_simps [simp]:
  "closing (ShutdownServer t)" "closing RedisClose" "closing PoolClose" "\<not> closing (PoolNew d)" "\<not> closing PoolPing"
  "\<not> closing (RedisNew a p n)" "\<not> closing RedisPing" "\<not> closing (ListenAndServe a)" "\<not> closing (Log l m)" "\<not> closing Usage"
  by (simp_all add: closing_def)

lemma started_main:
  assumes "can_start oc env"
  shows "http_main oc env =
    (let cfg = Load env;
         a = [PoolNew (DSN (ac_Database cfg)), PoolPing,
              RedisNew (Addr (ac_Redis cfg)) (rdc_Password (ac_Redis cfg)) (rdc_DB (ac_Redis cfg)), RedisPing,
              Log LevelInfo ''server listening'', ListenAndServe (ac_HTTPAddr cfg)] in
     case oc_wake oc of
       ServerReturned err \<Rightarrow> if server_failed err then (1, a @ [Log LevelError ''server failed'']) else (0, a)
     | SignalReceived \<Rightarrow> (0, a @ shut_down oc cfg))"
  using assms by (simp add: can_start_def http_main_def Connect_def NewRedisStore_def Let_def split: wake.split)

lemma not_started_main:
  assumes "\<not> can_start oc env" "http_main oc env = (code, acts)"
  shows "code = 1" "ListenAndServe a \<notin> set acts" "filter closing acts \<in> {[], [PoolClose]}"
    "PoolClose \<in> set acts \<longleftrightarrow> Validate (oc_resolve oc) env (Load env) = None \<and> oc_pool_New oc = None \<and> oc_pool_Ping oc \<noteq> None"
proof -
  let ?v = "Validate (oc_resolve oc) env (Load env)"
  have acts: "code = 1 \<and> ListenAndServe a \<notin> set acts \<and> filter closing acts \<in> {[], [PoolClose]} \<and>
    (PoolClose \<in> set acts \<longleftrightarrow> ?v = None \<and> oc_pool_New oc = None \<and> oc_pool_Ping oc \<noteq> None)"
  proof (cases ?v)
    case (Some x)
    with assms(2) show ?thesis by (auto simp: http_main_def)
  next
    case v: None
    show ?thesis
    proof (cases "oc_pool_New oc")
      case (Some x)
      with v assms(2) show ?thesis by (auto simp: http_main_def Connect_def)
    next
      case p: None
      show ?thesis
      proof (cases "oc_pool_Ping oc")
        case (Some x)
        with v p assms(2) show ?thesis by (auto simp: http_main_def Connect_def)
      next
        case None
        with v p assms obtain x where "oc_redis_Ping oc = Some x" by (auto simp: can_start_def)
        with v p None assms(2) show ?thesis by (auto simp: http_main_def Connect_def NewRedisStore_def Let_def)
      qed
    qed
  qed
  then show "code = 1" "ListenAndServe a \<notin> set acts" "filter closing acts \<in> {[], [PoolClose]}"
    "PoolClose \<in> set acts \<longleftrightarrow> ?v = None \<and> oc_pool_New oc = None \<and> oc_pool_Ping oc \<noteq> None" by blast+
qed

lemma shut_down_closing: "filter closing (shut_down oc cfg) = [ShutdownServer (ac_ShutdownTimeout cfg), RedisClose, PoolClose]"
  by (simp add: shut_down_def log_if_def)

lemma validated_timeout:
  assumes "Validate resolve env c = None"
  shows "0 < ac_ShutdownTimeout c"
proof -
  have "invalid_of resolve c ''SHUTDOWN_TIMEOUT'' = None"
    using assms by (auto simp: Validate_def invalid_keys_def Let_def split: if_splits)
  then show ?thesis by (auto simp: invalid_of_def note_invalid_def Let_def split: if_splits)
qed

text \<open>
  C29: The life of the server. It listens, on the address of the configuration, exactly if the
  configuration is accepted and both connections were made and answered, and only after that. The exit
  status is 0 exactly if it listened and did not fail. When a signal ends it, the server is shut down
  within a positive time, then Redis is closed and then the database, each once, whatever fails on the
  way; when it ends by itself nothing is closed, and a start that fails closes at most the pool that
  did not answer.
\<close>

theorem http_main_lifecycle:
  assumes "http_main oc env = (code, acts)"
  shows "((\<exists>a. ListenAndServe a \<in> set acts) \<longleftrightarrow> can_start oc env) \<and>
    (\<forall>a. ListenAndServe a \<in> set acts \<longrightarrow> a = env_Or env ''HTTP_ADDR'' ''0.0.0.0:8080'' \<and>
       (\<exists>d r p n l rest. acts = [PoolNew d, PoolPing, RedisNew r p n, RedisPing, l, ListenAndServe a] @ rest)) \<and>
    (code = 0 \<longleftrightarrow> can_start oc env \<and> (\<forall>err. oc_wake oc = ServerReturned err \<longrightarrow> \<not> server_failed err)) \<and>
    (can_start oc env \<and> oc_wake oc = SignalReceived \<longrightarrow>
       (\<exists>t>0. filter closing acts = [ShutdownServer t, RedisClose, PoolClose])) \<and>
    (can_start oc env \<and> oc_wake oc \<noteq> SignalReceived \<longrightarrow> filter closing acts = []) \<and>
    (\<not> can_start oc env \<longrightarrow> filter closing acts \<in> {[], [PoolClose]})"
proof (cases "can_start oc env")
  case False
  note n = not_started_main [OF False assms]
  from n(1-3) False show ?thesis by simp
next
  case True
  have addr: "ac_HTTPAddr (Load env) = env_Or env ''HTTP_ADDR'' ''0.0.0.0:8080''" by (simp add: Load_def)
  have t: "0 < ac_ShutdownTimeout (Load env)" using True validated_timeout by (auto simp: can_start_def)
  have no_listen: "ListenAndServe a \<notin> set (shut_down oc cfg)" for a cfg by (auto simp: shut_down_def log_if_def)
  show ?thesis
  proof (cases "oc_wake oc")
    case (ServerReturned err)
    with True assms addr show ?thesis
      unfolding started_main [OF True] by (auto simp: Let_def split: if_splits)
  next
    case SignalReceived
    with True assms addr t no_listen show ?thesis
      unfolding started_main [OF True] by (auto simp: Let_def shut_down_closing)
  qed
qed

text \<open>
  C30: The administration program. It ends with 0 only for the command \<open>seed\<close>, with a configuration that
  is accepted, and leaves the database seeded with the administrator of the environment; run again with
  the same outside, while the database answers, it ends with 0 and changes nothing. Any other command
  ends with 1 or 2 and without a change.
\<close>

theorem admin_main_seeds:
  assumes "backend db tbl clock up rc kv ut ent bc" "schema_ok (tbl w)"
    and "admin_main oc db bc ent args env w = (code, acts, w')"
  shows "code \<in> {0, 1, 2} \<and>
    (code = 0 \<longrightarrow> 2 \<le> length args \<and> args ! 1 = ''seed'' \<and> Validate (oc_resolve oc) env (Load env) = None \<and>
       ValidateSeed env = None \<and> seeded (seed_input_of (Load env)) (tbl w') \<and> last acts = PoolClose \<and>
       (up w' \<longrightarrow> (\<exists>w2. admin_main oc db bc ent args env w' = (0, acts, w2) \<and> tbl w2 = tbl w'))) \<and>
    (2 \<le> length args \<and> args ! 1 \<noteq> ''seed'' \<or> length args < 2 \<longrightarrow> code \<noteq> 0 \<and> w' = w)"
proof -
  let ?inp = "seed_input_of (Load env)"
  have first: "code \<in> {0, 1, 2}" "2 \<le> length args \<and> args ! 1 \<noteq> ''seed'' \<or> length args < 2 \<longrightarrow> code \<noteq> 0 \<and> w' = w"
    using assms(3) by (auto simp: admin_main_def Let_def split: prod.splits option.splits if_splits)
  have ok: "2 \<le> length args \<and> args ! 1 = ''seed'' \<and> Validate (oc_resolve oc) env (Load env) = None \<and> ValidateSeed env = None \<and>
      last acts = PoolClose \<and> seed_Run db bc ent ?inp w = (None, w') \<and>
      (\<forall>v v'. seed_Run db bc ent ?inp v = (None, v') \<longrightarrow> admin_main oc db bc ent args env v = (0, acts, v'))" if "code = 0"
    using assms(3) that by (auto simp: admin_main_def Let_def split: prod.splits option.splits if_splits)
  have "seeded ?inp (tbl w') \<and> (up w' \<longrightarrow> (\<exists>w2. admin_main oc db bc ent args env w' = (0, acts, w2) \<and> tbl w2 = tbl w'))"
    if "code = 0"
  proof -
    from ok [OF that] have run: "seed_Run db bc ent ?inp w = (None, w')" by blast
    note s = backend.seed_Run_ok [OF assms(1,2) run]
    have "AdminName ?inp \<noteq> []" "AdminUsername ?inp \<noteq> []" "AdminEmail ?inp \<noteq> []" "AdminPassword ?inp \<noteq> []"
      using run by (auto simp: seed_Run_def)
    with s backend.seed_Run_again [OF assms(1)] ok [OF that] show ?thesis by metis
  qed
  with first ok show ?thesis by blast
qed

section \<open>The simulated deployment\<close>

text \<open>A Redis that runs no scripts: every call of the limiter fails.\<close>

definition sim_no_script :: "sim script_client" where
  "sim_no_script = \<lparr>Run = (\<lambda>_ _ w. (Inl (Opaque ''ERR unknown command''), w)), UnixNano = sim_clock\<rparr>"

definition sim_ml :: "sim main_libs" where
  "sim_ml = \<lparr>ml_db = sim_db, ml_redis = sim_rc, ml_script = sim_no_script, ml_uuid = uuid_std, ml_entropy = sim_ent,
     ml_bcrypt = sim_bcrypt, ml_google = sim_google, ml_totp = sim_totp, ml_git = sim_git, ml_pool_Ping = Pair None,
     ml_redis_Ping = Pair None\<rparr>"

interpretation sim_deployment: deployment sim_ml sim_tables sim_clock sim_up sim_kv cfg sim_lib for cfg
proof (intro deployment.intro deployment_axioms.intro)
  show "backend (ml_db sim_ml) sim_tables sim_clock sim_up (ml_redis sim_ml) sim_kv (ml_uuid sim_ml) (ml_entropy sim_ml) (ml_bcrypt sim_ml)"
    using sim.backend_axioms by (simp add: sim_ml_def)
qed (simp_all add: quiet_def sim_ml_def sim_google_def sim_totp_def sim_git_def sim_lib_def sim_fs_def sim_no_script_def)

definition fine :: outcomes where
  "fine = \<lparr>oc_resolve = (\<lambda>_. None), oc_pool_New = None, oc_pool_Ping = None, oc_redis_Ping = None, oc_wake = SignalReceived,
     oc_Shutdown = None, oc_redis_Close = None, oc_server = Some (Sentinel http_ErrServerClosed)\<rparr>"

definition demo_env :: environ where
  "demo_env = [''REPOS_DIR'' \<mapsto> ''/srv'', ''SEED_ADMIN_NAME'' \<mapsto> ''Ada'', ''SEED_ADMIN_USERNAME'' \<mapsto> ''ada'',
     ''SEED_ADMIN_EMAIL'' \<mapsto> ''ada@x.org'', ''SEED_ADMIN_PASSWORD'' \<mapsto> ''secret'']"

lemma demo_env_ok:
  "Validate (oc_resolve fine) demo_env (Load demo_env) = None" "ValidateSeed demo_env = None"
  "seed_input_of (Load demo_env) = first_admin" "can_start fine demo_env"
proof -
  have trim: "TrimSpace ''/srv'' \<noteq> []" "TrimSpace ''Ada'' \<noteq> []" "TrimSpace ''ada'' \<noteq> []" "TrimSpace ''ada@x.org'' \<noteq> []" "TrimSpace ''secret'' \<noteq> []"
    by (simp_all add: TrimSpace_def trim_chunks_def is_space_def decode_rune_def Let_def)
  have var: "Getenv demo_env ''REPOS_DIR'' = ''/srv''" "Getenv demo_env ''ENV'' = []" "Getenv demo_env ''DB_PORT'' = []"
    "Getenv demo_env ''REDIS_PORT'' = []" "Getenv demo_env ''SHUTDOWN_TIMEOUT'' = []" "Getenv demo_env ''HEALTHCHECK_TIMEOUT'' = []"
    "Getenv demo_env ''SEED_ADMIN_NAME'' = ''Ada''" "Getenv demo_env ''SEED_ADMIN_USERNAME'' = ''ada''"
    "Getenv demo_env ''SEED_ADMIN_EMAIL'' = ''ada@x.org''" "Getenv demo_env ''SEED_ADMIN_PASSWORD'' = ''secret''"
    by (simp_all add: Getenv_def demo_env_def)
  have timeouts: "ac_ShutdownTimeout (Load demo_env) = 15 * second" "ac_HealthcheckTimeout (Load demo_env) = 2 * second"
    "dc_Port (ac_Database (Load demo_env)) = 5432" "rdc_Port (ac_Redis (Load demo_env)) = 6379"
    "ac_HTTPAddr (Load demo_env) \<noteq> []" "ac_ReposDir (Load demo_env) = ''/srv''"
    by (simp_all add: Load_def env_Int_def env_Or_def parseDuration_def var)
  have missing: "missing_of demo_env (required_vars demo_env) = []"
    by (simp add: missing_of_def required_vars_def var trim ToLower_def)
  have res: "oc_resolve fine a = None" for a by (simp add: fine_def)
  have invalid: "invalid_of (oc_resolve fine) (Load demo_env) = Map.empty"
    by (simp add: invalid_of_def note_invalid_def timeouts res second_def)
  show v: "Validate (oc_resolve fine) demo_env (Load demo_env) = None"
    by (simp add: Validate_def missing invalid list_all_iff)
  show "ValidateSeed demo_env = None"
    by (simp add: ValidateSeed_def missing_of_def var trim)
  show "seed_input_of (Load demo_env) = first_admin"
    by (simp add: seed_input_of_def Load_def env_Or_def var first_admin_def)
  show "can_start fine demo_env" using v by (simp add: can_start_def fine_def)
qed

lemma demo_admin_main:
  "\<exists>acts w1. admin_main fine sim_db sim_bcrypt sim_ent [''admin'', ''seed''] demo_env sim_init = (0, acts, w1) \<and> sim_up w1"
proof -
  obtain w1 where "seed_Run sim_db sim_bcrypt sim_ent first_admin sim_init = (None, w1)" "sim_up w1" using first_admin_run by blast
  moreover have "Connect fine c = (None, [PoolNew (DSN c), PoolPing])" for c by (simp add: Connect_def fine_def)
  ultimately show ?thesis by (simp add: admin_main_def demo_env_ok)
qed

theorem admin_main_seeds_witness:
  "\<exists>acts w1 w2. admin_main fine sim_db sim_bcrypt sim_ent [''admin'', ''seed''] demo_env sim_init = (0, acts, w1) \<and>
     seeded first_admin (sim_tables w1) \<and>
     admin_main fine sim_db sim_bcrypt sim_ent [''admin'', ''seed''] demo_env w1 = (0, acts, w2) \<and> sim_tables w2 = sim_tables w1"
proof -
  obtain acts w1 where a: "admin_main fine sim_db sim_bcrypt sim_ent [''admin'', ''seed''] demo_env sim_init = (0, acts, w1)" "sim_up w1"
    using demo_admin_main by blast
  from admin_main_seeds [OF sim.backend_axioms sim_init_ok(1) a(1)] a show ?thesis
    unfolding demo_env_ok(3) by blast
qed

theorem http_main_lifecycle_witness:
  "\<exists>acts t. http_main fine demo_env = (0, acts) \<and> filter closing acts = [ShutdownServer t, RedisClose, PoolClose]"
proof -
  obtain code acts where m: "http_main fine demo_env = (code, acts)" by (rule prod.exhaust)
  have "oc_wake fine = SignalReceived" by (simp add: fine_def)
  with http_main_lifecycle [OF m] demo_env_ok(4) m show ?thesis by auto
qed

theorem deployed_invariant_witness:
  "\<exists>acts w1 rw' w'. admin_main fine sim_db sim_bcrypt sim_ent [''admin'', ''seed''] demo_env sim_init = (0, acts, w1) \<and>
     ServeHTTP sim_lib (server_config sim_ml (Load demo_env)) (post_body ''/auth/register'' sim_register_body) new_writer w1 = (rw', w') \<and>
     schema_ok (sim_tables w') \<and> tokens_owned uuid_std (sim_tables w') (sim_kv w')"
proof -
  let ?r = "post_body ''/auth/register'' sim_register_body"
  obtain acts w1 where a: "admin_main fine sim_db sim_bcrypt sim_ent [''admin'', ''seed''] demo_env sim_init = (0, acts, w1)"
    using demo_admin_main by blast
  obtain rw' w' where s: "ServeHTTP sim_lib (server_config sim_ml (Load demo_env)) ?r new_writer w1 = (rw', w')" by (rule prod.exhaust)
  have u: "rq_UserID ?r = None" by (simp add: post_body_def)
  have e: "sim_tables sim_init = empty_tables" "sim_kv sim_init = Map.empty" by (simp_all add: sim_init_def)
  have ml: "ml_db sim_ml = sim_db" "ml_bcrypt sim_ml = sim_bcrypt" "ml_entropy sim_ml = sim_ent" "ml_uuid sim_ml = uuid_std"
    by (simp_all add: sim_ml_def)
  from deployed_invariant [OF sim_deployment.deployment_axioms e, unfolded ml, OF a served [OF started u s]] a s
  show ?thesis by blast
qed

end
