(* ===== verification/LoggerProps.thy ===== *)
theory LoggerProps
  imports Logger
begin

text \<open>
  Properties of the logger: concurrent calls leave whole lines, every logging program ends, levels are
  respected, and a value may forge a line.
\<close>

section \<open>Concurrent calls\<close>

text \<open>
  Threads are numbers. A thread is outside of \<open>Handle\<close>, or inside with the writes it still has to make,
  and it has calls to come. Mutexes have an owner, writers the text written so far.
\<close>

record log_state =
  ls_owner :: "nat \<Rightarrow> nat option"
  ls_out :: "nat \<Rightarrow> string"
  ls_inside :: "nat \<Rightarrow> (dev_handler \<times> log_record \<times> string list) option"
  ls_calls :: "nat \<Rightarrow> (dev_handler \<times> log_record) list"

inductive log_step :: "log_state \<Rightarrow> log_state \<Rightarrow> bool" where
  below: "ls_inside s t = None \<Longrightarrow> ls_calls s t = (h, r) # cs \<Longrightarrow> \<not> Enabled h (lr_Level r) \<Longrightarrow>
    log_step s (s\<lparr>ls_calls := (ls_calls s)(t := cs)\<rparr>)"
| lock: "ls_inside s t = None \<Longrightarrow> ls_calls s t = (h, r) # cs \<Longrightarrow> Enabled h (lr_Level r) \<Longrightarrow> ls_owner s (dh_mu h) = None \<Longrightarrow>
    log_step s (s\<lparr>ls_owner := (ls_owner s)(dh_mu h \<mapsto> t), ls_inside := (ls_inside s)(t \<mapsto> (h, r, Handle h r)),
      ls_calls := (ls_calls s)(t := cs)\<rparr>)"
| emit: "ls_inside s t = Some (h, r, x # xs) \<Longrightarrow>
    log_step s (s\<lparr>ls_out := (ls_out s)(dh_w h := ls_out s (dh_w h) @ x), ls_inside := (ls_inside s)(t \<mapsto> (h, r, xs))\<rparr>)"
| unlock: "ls_inside s t = Some (h, r, []) \<Longrightarrow>
    log_step s (s\<lparr>ls_owner := (ls_owner s)(dh_mu h := None), ls_inside := (ls_inside s)(t := None)\<rparr>)"

text \<open>The handlers of one logger: all those that \<open>With\<close> makes of it.\<close>

inductive derived :: "nat \<Rightarrow> nat \<Rightarrow> dev_handler \<Rightarrow> bool" for W M where
  root: "derived W M (newDevHandler W M level)"
| more: "derived W M h \<Longrightarrow> derived W M (WithAttrs h attrs)"

lemma derived_shares: "derived W M h \<Longrightarrow> dh_w h = W \<and> dh_mu h = M"
  by (induction rule: derived.induct) (simp_all add: newDevHandler_def WithAttrs_def)

definition line_of :: "dev_handler \<times> log_record \<Rightarrow> string" where
  "line_of c = concat (Handle (fst c) (snd c))"

definition logged :: "(dev_handler \<times> log_record) list \<Rightarrow> (dev_handler \<times> log_record) list" where
  "logged cs = filter (\<lambda>(h, r). Enabled h (lr_Level r)) cs"

definition log_start :: "nat \<Rightarrow> nat \<Rightarrow> log_state \<Rightarrow> bool" where
  "log_start W M s \<longleftrightarrow> ls_owner s M = None \<and> (\<forall>t. ls_inside s t = None) \<and> (\<forall>t. \<forall>c \<in> set (ls_calls s t). derived W M (fst c))"

definition current :: "log_state \<Rightarrow> nat \<Rightarrow> (dev_handler \<times> log_record) list" where
  "current s t = (case ls_inside s t of None \<Rightarrow> [] | Some (h, r, _) \<Rightarrow> [(h, r)])"

text \<open>
  The invariant, for the calls \<open>past\<close> that are over, with their threads: whoever is inside has the
  mutex, the text is the lines of \<open>past\<close> and what the call inside has written, and of every thread the
  calls over, inside and to come are those it started with.
\<close>

definition log_inv ::
  "nat \<Rightarrow> nat \<Rightarrow> log_state \<Rightarrow> log_state \<Rightarrow> (nat \<times> dev_handler \<times> log_record) list \<Rightarrow> string \<Rightarrow> bool" where
  "log_inv W M s0 s past part \<longleftrightarrow>
     (\<forall>t. (ls_inside s t \<noteq> None) = (ls_owner s M = Some t)) \<and>
     (\<forall>t c. c \<in> set (ls_calls s t) \<longrightarrow> derived W M (fst c)) \<and>
     (\<forall>t h r ys. ls_inside s t = Some (h, r, ys) \<longrightarrow> derived W M h) \<and>
     ls_out s W = ls_out s0 W @ concat (map (line_of \<circ> snd) past) @ part \<and>
     (\<forall>t h r ys. ls_inside s t = Some (h, r, ys) \<longrightarrow> part @ concat ys = line_of (h, r)) \<and>
     (ls_owner s M = None \<longrightarrow> part = []) \<and>
     (\<forall>t. map snd (filter (\<lambda>d. fst d = t) past) @ current s t @ logged (ls_calls s t) = logged (ls_calls s0 t))"

lemma log_invI:
  assumes "\<And>t. (ls_inside s t \<noteq> None) = (ls_owner s M = Some t)"
    and "\<And>t c. c \<in> set (ls_calls s t) \<Longrightarrow> derived W M (fst c)"
    and "\<And>t h r ys. ls_inside s t = Some (h, r, ys) \<Longrightarrow> derived W M h"
    and "ls_out s W = ls_out s0 W @ concat (map (line_of \<circ> snd) past) @ part"
    and "\<And>t h r ys. ls_inside s t = Some (h, r, ys) \<Longrightarrow> part @ concat ys = line_of (h, r)"
    and "ls_owner s M = None \<Longrightarrow> part = []"
    and "\<And>t. map snd (filter (\<lambda>d. fst d = t) past) @ current s t @ logged (ls_calls s t) = logged (ls_calls s0 t)"
  shows "log_inv W M s0 s past part"
  unfolding log_inv_def by (intro conjI allI impI; rule assms)

lemma log_invD:
  assumes "log_inv W M s0 s past part"
  shows "(ls_inside s t \<noteq> None) = (ls_owner s M = Some t)"
    and "c \<in> set (ls_calls s t) \<Longrightarrow> derived W M (fst c)"
    and "ls_inside s t = Some (h, r, ys) \<Longrightarrow> derived W M h"
    and "ls_out s W = ls_out s0 W @ concat (map (line_of \<circ> snd) past) @ part"
    and "ls_inside s t = Some (h, r, ys) \<Longrightarrow> part @ concat ys = line_of (h, r)"
    and "ls_owner s M = None \<Longrightarrow> part = []"
    and "map snd (filter (\<lambda>d. fst d = t) past) @ current s t @ logged (ls_calls s t) = logged (ls_calls s0 t)"
  using assms unfolding log_inv_def by blast+

lemma log_inv_outside:
  assumes "log_inv W M s0 s past part" "ls_owner s M \<noteq> Some t"
  shows "ls_inside s t = None"
proof (rule ccontr)
  assume "ls_inside s t \<noteq> None"
  with log_invD(1) [OF assms(1), of t] assms(2) show False by blast
qed

lemma logged_Cons: "logged ((h, r) # cs) = (if Enabled h (lr_Level r) then (h, r) # logged cs else logged cs)"
  by (simp add: logged_def)

lemma current_simps:
  "ls_inside s t = None \<Longrightarrow> current s t = []" "ls_inside s t = Some (h, r, ys) \<Longrightarrow> current s t = [(h, r)]"
  "ls_inside s' t = ls_inside s t \<Longrightarrow> current s' t = current s t"
  by (simp_all add: current_def)

lemma log_inv_start: "log_start W M s \<Longrightarrow> log_inv W M s s [] []"
  by (rule log_invI) (auto simp: log_start_def current_def)

lemma log_inv_below:
  assumes "log_inv W M s0 s past part" "ls_inside s t = None" "ls_calls s t = (h, r) # cs" "\<not> Enabled h (lr_Level r)"
  shows "log_inv W M s0 (s\<lparr>ls_calls := (ls_calls s)(t := cs)\<rparr>) past part"
proof -
  note inv = log_invD [OF assms(1)]
  let ?s = "s\<lparr>ls_calls := (ls_calls s)(t := cs)\<rparr>"
  show ?thesis
  proof (rule log_invI)
    show "derived W M (fst c)" if "c \<in> set (ls_calls ?s u)" for u c
      using that inv(2) [of c t] inv(2) [of c u] assms(3) by (cases "u = t") simp_all
    show "map snd (filter (\<lambda>d. fst d = u) past) @ current ?s u @ logged (ls_calls ?s u) = logged (ls_calls s0 u)" for u
      using inv(7) [of u] assms(3,4) by (cases "u = t") (simp_all add: current_def logged_Cons)
  qed (use inv(1,3,4,5,6) in simp_all)
qed

lemma log_inv_lock:
  assumes "log_inv W M s0 s past part" "ls_inside s t = None" "ls_calls s t = (h, r) # cs" "Enabled h (lr_Level r)"
    "ls_owner s (dh_mu h) = None"
  shows "log_inv W M s0 (s\<lparr>ls_owner := (ls_owner s)(dh_mu h \<mapsto> t), ls_inside := (ls_inside s)(t \<mapsto> (h, r, Handle h r)),
      ls_calls := (ls_calls s)(t := cs)\<rparr>) past []" (is "log_inv W M s0 ?s past _")
proof -
  note inv = log_invD [OF assms(1)]
  have d: "derived W M h" using inv(2) [of "(h, r)" t] assms(3) by simp
  then have M: "dh_mu h = M" using derived_shares by blast
  have out: "ls_inside s u = None" for u using log_inv_outside [OF assms(1)] assms(5) M by simp
  have part: "part = []" using inv(6) assms(5) M by simp
  show ?thesis
  proof (rule log_invI)
    show "derived W M (fst c)" if "c \<in> set (ls_calls ?s u)" for u c
      using that inv(2) [of c t] inv(2) [of c u] assms(3) by (cases "u = t") simp_all
    show "map snd (filter (\<lambda>d. fst d = u) past) @ current ?s u @ logged (ls_calls ?s u) = logged (ls_calls s0 u)" for u
      using inv(7) [of u] assms(3,4) out by (cases "u = t") (simp_all add: current_def logged_Cons)
    show "derived W M h'" if "ls_inside ?s u = Some (h', r', ys)" for u h' r' ys
      using that out d by (cases "u = t") simp_all
    show "[] @ concat ys = line_of (h', r')" if "ls_inside ?s u = Some (h', r', ys)" for u h' r' ys
      using that out by (cases "u = t") (auto simp: line_of_def)
    show "ls_inside ?s u \<noteq> None \<longleftrightarrow> ls_owner ?s M = Some u" for u
      using out M by (cases "u = t") simp_all
  qed (use inv(4) part M in simp_all)
qed

lemma log_inv_emit:
  assumes "log_inv W M s0 s past part" "ls_inside s t = Some (h, r, x # xs)"
  shows "log_inv W M s0 (s\<lparr>ls_out := (ls_out s)(dh_w h := ls_out s (dh_w h) @ x),
      ls_inside := (ls_inside s)(t \<mapsto> (h, r, xs))\<rparr>) past (part @ x)" (is "log_inv W M s0 ?s past _")
proof -
  note inv = log_invD [OF assms(1)]
  have W: "dh_w h = W" using inv(3) [OF assms(2)] derived_shares by blast
  have own: "ls_owner s M = Some t" using inv(1) [of t] assms(2) by simp
  have only: "ls_inside s u = None" if "u \<noteq> t" for u using log_inv_outside [OF assms(1)] own that by auto
  show ?thesis
  proof (rule log_invI)
    show "map snd (filter (\<lambda>d. fst d = u) past) @ current ?s u @ logged (ls_calls ?s u) = logged (ls_calls s0 u)" for u
      using inv(7) [of u] assms(2) by (cases "u = t") (simp_all add: current_def)
    show "derived W M h'" if "ls_inside ?s u = Some (h', r', ys)" for u h' r' ys
      using that only inv(3) [OF assms(2)] by (cases "u = t") simp_all
    show "(part @ x) @ concat ys = line_of (h', r')" if "ls_inside ?s u = Some (h', r', ys)" for u h' r' ys
      using that only inv(5) [OF assms(2)] by (cases "u = t") simp_all
    show "ls_inside ?s u \<noteq> None \<longleftrightarrow> ls_owner ?s M = Some u" for u
      using only own by (cases "u = t") simp_all
  qed (use inv(2,4) own W in simp_all)
qed

lemma log_inv_unlock:
  assumes "log_inv W M s0 s past part" "ls_inside s t = Some (h, r, [])"
  shows "log_inv W M s0 (s\<lparr>ls_owner := (ls_owner s)(dh_mu h := None), ls_inside := (ls_inside s)(t := None)\<rparr>)
      (past @ [(t, h, r)]) []" (is "log_inv W M s0 ?s _ _")
proof -
  note inv = log_invD [OF assms(1)]
  have M: "dh_mu h = M" using inv(3) [OF assms(2)] derived_shares by blast
  have own: "ls_owner s M = Some t" using inv(1) [of t] assms(2) by simp
  have only: "ls_inside s u = None" if "u \<noteq> t" for u using log_inv_outside [OF assms(1)] own that by auto
  show ?thesis
  proof (rule log_invI)
    show "map snd (filter (\<lambda>d. fst d = u) (past @ [(t, h, r)])) @ current ?s u @ logged (ls_calls ?s u) = logged (ls_calls s0 u)" for u
      using inv(7) [of u] assms(2) by (cases "u = t") (simp_all add: current_def)
    show "ls_inside ?s u \<noteq> None \<longleftrightarrow> ls_owner ?s M = Some u" for u
      using only M by (cases "u = t") simp_all
    show "derived W M h'" if "ls_inside ?s u = Some (h', r', ys)" for u h' r' ys
      using that only by (cases "u = t") simp_all
    show "[] @ concat ys = line_of (h', r')" if "ls_inside ?s u = Some (h', r', ys)" for u h' r' ys
      using that only by (cases "u = t") simp_all
  qed (use inv(2,4) inv(5) [OF assms(2)] in simp_all)
qed

lemma log_inv_step:
  assumes "log_step s s'" "log_inv W M s0 s past part"
  shows "\<exists>past' part'. log_inv W M s0 s' past' part'"
  using assms(1)
proof cases
  case (below t h r cs)
  with log_inv_below [OF assms(2) below(2-4)] show ?thesis by blast
next
  case (lock t h r cs)
  with log_inv_lock [OF assms(2) lock(2-5)] show ?thesis by blast
next
  case (emit t h r x xs)
  with log_inv_emit [OF assms(2) emit(2)] show ?thesis by blast
next
  case (unlock t h r)
  with log_inv_unlock [OF assms(2) unlock(2)] show ?thesis by blast
qed

lemma log_inv_reach:
  assumes "log_start W M s0" "log_step\<^sup>*\<^sup>* s0 s"
  shows "\<exists>past part. log_inv W M s0 s past part"
  using assms(2)
proof (induction rule: rtranclp_induct)
  case base
  show ?case using log_inv_start [OF assms(1)] by blast
next
  case (step s s')
  then show ?case using log_inv_step by blast
qed

text \<open>
  C25: Concurrent calls on one logger, and on all loggers made of it with \<open>With\<close>, never tear a line:
  whenever nobody holds the mutex, what the writer got is a sequence of whole lines, one for each call
  that is over and whose level is enabled, and the calls of every thread are in its order.
\<close>

theorem lines_not_torn:
  assumes "log_start W M s0" "log_step\<^sup>*\<^sup>* s0 s" "ls_owner s M = None"
  shows "\<exists>past. ls_out s W = ls_out s0 W @ concat (map (line_of \<circ> snd) past) \<and>
    (\<forall>t. map snd (filter (\<lambda>d. fst d = t) past) @ logged (ls_calls s t) = logged (ls_calls s0 t))"
proof -
  obtain past part where inv: "log_inv W M s0 s past part" using log_inv_reach [OF assms(1,2)] by blast
  have "ls_inside s t = None" for t using log_inv_outside [OF inv] assms(3) by simp
  then show ?thesis
    using log_invD(4,6,7) [OF inv] assms(3) by (intro exI [of _ past]) (simp add: current_def)
qed

text \<open>What a thread, and the first \<open>n\<close> threads, have to do at most.\<close>

definition thread_work :: "log_state \<Rightarrow> nat \<Rightarrow> nat" where
  "thread_work s t = (case ls_inside s t of None \<Rightarrow> 0 | Some (h, r, ys) \<Rightarrow> Suc (length ys)) +
     (\<Sum>(h, r) \<leftarrow> ls_calls s t. length (Handle h r) + 3)"

definition work :: "nat \<Rightarrow> log_state \<Rightarrow> nat" where
  "work n s = (\<Sum>t<n. thread_work s t)"

definition idle_from :: "nat \<Rightarrow> log_state \<Rightarrow> bool" where
  "idle_from n s \<longleftrightarrow> (\<forall>t\<ge>n. ls_inside s t = None \<and> ls_calls s t = [])"

lemma log_step_one_thread:
  assumes "log_step s s'"
  obtains t where "ls_inside s t \<noteq> None \<or> ls_calls s t \<noteq> []" "thread_work s' t < thread_work s t"
    "\<And>u. u \<noteq> t \<Longrightarrow> ls_inside s' u = ls_inside s u \<and> ls_calls s' u = ls_calls s u"
  using assms
proof cases
  case (below t h r cs)
  with that [of t] show ?thesis by (simp add: thread_work_def)
next
  case (lock t h r cs)
  with that [of t] show ?thesis by (simp add: thread_work_def)
next
  case (emit t h r x xs)
  with that [of t] show ?thesis by (simp add: thread_work_def)
next
  case (unlock t h r)
  with that [of t] show ?thesis by (simp add: thread_work_def)
qed

lemma log_step_works:
  assumes "log_step s s'" "idle_from n s"
  shows "work n s' < work n s" "idle_from n s'"
proof -
  obtain t where t: "ls_inside s t \<noteq> None \<or> ls_calls s t \<noteq> []" "thread_work s' t < thread_work s t"
    and others: "\<And>u. u \<noteq> t \<Longrightarrow> ls_inside s' u = ls_inside s u \<and> ls_calls s' u = ls_calls s u"
    using log_step_one_thread [OF assms(1)] by metis
  have n: "t < n" using t(1) assms(2) by (meson idle_from_def not_le)
  have same: "thread_work s' u = thread_work s u" if "u \<noteq> t" for u using others [OF that] by (simp add: thread_work_def)
  have "thread_work s' u \<le> thread_work s u" for u using same [of u] t(2) by (cases "u = t") simp_all
  with t(2) n show "work n s' < work n s"
    unfolding work_def by (intro sum_strict_mono_ex1) auto
  show "idle_from n s'" using assms(2) others n by (auto simp: idle_from_def)
qed

lemma log_steps_bounded:
  "(log_step ^^ k) s s' \<Longrightarrow> idle_from n s \<Longrightarrow> k + work n s' \<le> work n s"
proof (induction k arbitrary: s)
  case (Suc k)
  then obtain u where u: "log_step s u" "(log_step ^^ k) u s'" by (metis relpowp_Suc_D2)
  from Suc.IH [OF u(2)] log_step_works [OF u(1) Suc.prems(2)] show ?case by linarith
qed simp

text \<open>As long as a thread is inside or has calls to come, some thread can go on.\<close>

lemma log_progress:
  assumes "log_inv W M s0 s past part" "ls_inside s t \<noteq> None \<or> ls_calls s t \<noteq> []"
  shows "\<exists>s'. log_step s s'"
proof -
  have inside: "\<exists>s'. log_step s s'" if "ls_inside s u \<noteq> None" for u
  proof -
    from that obtain h r ys where "ls_inside s u = Some (h, r, ys)" by auto
    then show ?thesis using log_step.emit log_step.unlock by (cases ys) blast+
  qed
  show ?thesis
  proof (cases "\<exists>u. ls_inside s u \<noteq> None")
    case False
    then have out: "ls_inside s t = None" by blast
    with assms(2) obtain h r cs where c: "ls_calls s t = (h, r) # cs" by (metis list.exhaust prod.exhaust)
    then have "dh_mu h = M" using log_invD(2) [OF assms(1), of "(h, r)" t] derived_shares by simp
    moreover have "ls_owner s M = None" using log_invD(1) [OF assms(1)] False by (metis not_None_eq)
    ultimately show ?thesis
      using log_step.below [OF out c] log_step.lock [OF out c] by (cases "Enabled h (lr_Level r)") auto
  qed (use inside in blast)
qed

lemma log_stuck_idle:
  assumes "log_inv W M s0 s past part" "\<nexists>s'. log_step s s'"
  shows "ls_inside s t = None" "ls_calls s t = []" "ls_owner s M = None"
proof -
  show idle: "ls_inside s t = None" "ls_calls s t = []" for t using log_progress [OF assms(1)] assms(2) by blast+
  show "ls_owner s M = None" using log_invD(1) [OF assms(1)] idle(1) by (metis not_None_eq)
qed

lemma log_runs_to_end: "idle_from n s \<Longrightarrow> \<exists>s'. log_step\<^sup>*\<^sup>* s s' \<and> (\<nexists>u. log_step s' u)"
proof (induction "work n s" arbitrary: s rule: less_induct)
  case less
  show ?case
  proof (cases "\<exists>u. log_step s u")
    case True
    then obtain u where "log_step s u" by blast
    with less(1) [OF log_step_works(1) log_step_works(2)] less(2) show ?thesis
      by (meson converse_rtranclp_into_rtranclp)
  qed blast
qed

text \<open>
  C26: Logging always ends, however the threads are scheduled: the number of steps is bounded by the work
  there was, no thread is ever left waiting for the mutex, and when nothing can go on every call has
  been made and every line of an enabled call has been written once.
\<close>

theorem logging_ends:
  assumes "log_start W M s0" "idle_from n s0"
  shows "(\<forall>k s. (log_step ^^ k) s0 s \<longrightarrow> k \<le> work n s0) \<and>
    (\<forall>s. log_step\<^sup>*\<^sup>* s0 s \<and> (\<nexists>s'. log_step s s') \<longrightarrow>
      (\<forall>t. ls_calls s t = []) \<and> ls_owner s M = None \<and>
      (\<exists>past. ls_out s W = ls_out s0 W @ concat (map (line_of \<circ> snd) past) \<and>
         (\<forall>t. map snd (filter (\<lambda>d. fst d = t) past) = logged (ls_calls s0 t))))"
proof (intro conjI allI impI)
  show "k \<le> work n s0" if "(log_step ^^ k) s0 s" for k s
    using log_steps_bounded [OF that assms(2)] by simp
next
  fix s assume s: "log_step\<^sup>*\<^sup>* s0 s \<and> (\<nexists>s'. log_step s s')"
  then obtain past part where inv: "log_inv W M s0 s past part" using log_inv_reach [OF assms(1)] by blast
  note idle = log_stuck_idle(1,2) [OF inv conjunct2 [OF s]] and own = log_stuck_idle(3) [OF inv conjunct2 [OF s]]
  show "ls_calls s t = []" for t by (rule idle(2))
  show "ls_owner s M = None" by (rule own)
  show "\<exists>past. ls_out s W = ls_out s0 W @ concat (map (line_of \<circ> snd) past) \<and>
         (\<forall>t. map snd (filter (\<lambda>d. fst d = t) past) = logged (ls_calls s0 t))"
    using log_invD(4,6,7) [OF inv] own idle by (intro exI [of _ past]) (simp add: current_def logged_def)
qed

section \<open>Forged lines\<close>

lemma line_with_attr:
  assumes "Enabled h (lr_Level r)"
  obtains q where "\<And>k v. line_of (h, r\<lparr>lr_Attrs := as @ [(k, v)]\<rparr>) = q @ attr_chunk (k, v) @ [CHR 0x0A]"
proof -
  obtain color label where lc: "levelColor (lr_Level r) = (color, label)" by (rule prod.exhaust)
  show ?thesis
  proof (rule that)
    show "line_of (h, r\<lparr>lr_Attrs := as @ [(k, v)]\<rparr>) =
      ((colorGray @ DateTime (lr_Time r) @ colorReset @ '' '' @ color @ pad_right 5 label @ colorReset @ '' '' @ lr_Message r) @
        concat (map attr_chunk (dh_attrs h)) @ concat (map attr_chunk as)) @ attr_chunk (k, v) @ [CHR 0x0A]" for k v
      using assms lc by (simp add: line_of_def Handle_def Let_def)
  qed
qed

lemma line_end:
  assumes "Enabled h (lr_Level r)" "lr_Attrs r \<noteq> []"
  obtains p where "line_of (h, r) = p @ colorReset @ [CHR 0x0A]"
proof -
  obtain as k v where as: "lr_Attrs r = as @ [(k, v)]" using assms(2) by (metis prod.exhaust rev_exhaust)
  then have r: "r\<lparr>lr_Attrs := as @ [(k, v)]\<rparr> = r" by simp
  obtain q where "line_of (h, r\<lparr>lr_Attrs := as @ [(k, v)]\<rparr>) = q @ attr_chunk (k, v) @ [CHR 0x0A]"
    using line_with_attr [OF assms(1)] by metis
  with that [of "q @ '' '' @ colorCyan @ k @ ''='' @ v"] show ?thesis unfolding r by (simp add: attr_chunk_def)
qed

text \<open>
  C27: The development handler writes values as they are, so whoever chooses a value, as a client does with
  the path and the \<open>User-Agent\<close> of a request, can make one call look like two: for every line with
  an attribute there is a value that puts this line behind the line of the call.
\<close>

theorem dev_line_forged:
  assumes "Enabled h (lr_Level r)" "Enabled h' (lr_Level r')" "lr_Attrs r' \<noteq> []"
  shows "\<exists>v. line_of (h, r\<lparr>lr_Attrs := lr_Attrs r @ [(k, x @ v)]\<rparr>) =
    line_of (h, r\<lparr>lr_Attrs := lr_Attrs r @ [(k, x)]\<rparr>) @ line_of (h', r')"
proof -
  obtain p where p: "line_of (h', r') = p @ colorReset @ [CHR 0x0A]" using line_end [OF assms(2,3)] by metis
  obtain q where q: "\<And>k v. line_of (h, r\<lparr>lr_Attrs := lr_Attrs r @ [(k, v)]\<rparr>) = q @ attr_chunk (k, v) @ [CHR 0x0A]"
    using line_with_attr [OF assms(1)] by metis
  show ?thesis
    unfolding p q by (rule exI [of _ "colorReset @ [CHR 0x0A] @ p"]) (simp only: attr_chunk_def fst_conv snd_conv append_assoc)
qed

section \<open>Witnesses\<close>

definition demo_record :: "string \<Rightarrow> log_record" where
  "demo_record msg = \<lparr>lr_Time = \<lparr>wt_year = 2026, wt_month = 1, wt_day = 2, wt_hour = 3, wt_minute = 4, wt_second = 5\<rparr>,
     lr_Level = LevelInfo, lr_Message = msg, lr_Attrs = [(''k'', msg)]\<rparr>"

definition demo_handler :: dev_handler where
  "demo_handler = newDevHandler 1 0 LevelInfo"

text \<open>Two threads, with one call each, the second on a logger made with \<open>With\<close>.\<close>

definition demo_log :: log_state where
  "demo_log = \<lparr>ls_owner = Map.empty, ls_out = (\<lambda>_. []), ls_inside = Map.empty,
     ls_calls = (\<lambda>_. [])(0 := [(demo_handler, demo_record ''a'')],
       1 := [(WithAttrs demo_handler [(''request_id'', ''7'')], demo_record ''b'')])\<rparr>"

lemma demo_log_start: "log_start 1 0 demo_log" "idle_from 2 demo_log"
  by (auto simp: log_start_def demo_log_def demo_handler_def idle_from_def intro: derived.intros)

lemma demo_log_end: "\<exists>s. log_step\<^sup>*\<^sup>* demo_log s \<and> (\<nexists>u. log_step s u) \<and> ls_owner s 0 = None \<and> (\<forall>t. ls_calls s t = [])"
proof -
  obtain s where s: "log_step\<^sup>*\<^sup>* demo_log s" "\<nexists>u. log_step s u" using log_runs_to_end [OF demo_log_start(2)] by blast
  obtain past part where "log_inv 1 0 demo_log s past part" using log_inv_reach [OF demo_log_start(1) s(1)] by blast
  from log_stuck_idle [OF this s(2)] s show ?thesis by blast
qed

lemma demo_log_calls:
  "logged (ls_calls demo_log 0) = [(demo_handler, demo_record ''a'')]"
  "logged (ls_calls demo_log 1) = [(WithAttrs demo_handler [(''request_id'', ''7'')], demo_record ''b'')]"
  "ls_out demo_log 1 = []"
  by (simp_all add: demo_log_def logged_def Enabled_def demo_handler_def newDevHandler_def WithAttrs_def demo_record_def)

theorem lines_not_torn_witness:
  "\<exists>s (past :: (nat \<times> dev_handler \<times> log_record) list). log_step\<^sup>*\<^sup>* demo_log s \<and> ls_out s 1 = concat (map (line_of \<circ> snd) past) \<and>
     map snd (filter (\<lambda>d. fst d = 0) past) = [(demo_handler, demo_record ''a'')]"
proof -
  obtain s where s: "log_step\<^sup>*\<^sup>* demo_log s" "ls_owner s 0 = None" "ls_calls s 0 = []" using demo_log_end by blast
  from lines_not_torn [OF demo_log_start(1) s(1,2)] obtain past :: "(nat \<times> dev_handler \<times> log_record) list" where
    "ls_out s 1 = concat (map (line_of \<circ> snd) past)" "map snd (filter (\<lambda>d. fst d = 0) past) @ logged (ls_calls s 0) = logged (ls_calls demo_log 0)"
    unfolding demo_log_calls(3) append_Nil by blast
  with s demo_log_calls show ?thesis by (intro exI [of _ s] exI [of _ past]) (simp add: logged_def)
qed

theorem logging_ends_witness:
  "\<exists>s (past :: (nat \<times> dev_handler \<times> log_record) list). log_step\<^sup>*\<^sup>* demo_log s \<and> (\<nexists>s'. log_step s s') \<and> ls_out s 1 = concat (map (line_of \<circ> snd) past) \<and>
     map snd (filter (\<lambda>d. fst d = 1) past) = [(WithAttrs demo_handler [(''request_id'', ''7'')], demo_record ''b'')]"
proof -
  obtain s where s: "log_step\<^sup>*\<^sup>* demo_log s" "\<nexists>s'. log_step s s'" using demo_log_end by blast
  from conjunct2 [OF logging_ends [OF demo_log_start], rule_format, OF conjI [OF s]] obtain past :: "(nat \<times> dev_handler \<times> log_record) list" where
    "ls_out s 1 = concat (map (line_of \<circ> snd) past)" "map snd (filter (\<lambda>d. fst d = 1) past) = logged (ls_calls demo_log 1)"
    unfolding demo_log_calls(3) append_Nil by blast
  with s demo_log_calls(2) show ?thesis by (intro exI [of _ s] exI [of _ past]) simp
qed

theorem dev_line_forged_witness:
  "\<exists>v. line_of (demo_handler, (demo_record ''a'')\<lparr>lr_Attrs := [(''path'', ''/'' @ v)]\<rparr>) =
     line_of (demo_handler, (demo_record ''a'')\<lparr>lr_Attrs := [(''path'', ''/'')]\<rparr>) @ line_of (demo_handler, demo_record ''admin logged in'')"
  using dev_line_forged [of demo_handler "(demo_record ''a'')\<lparr>lr_Attrs := []\<rparr>" demo_handler "demo_record ''admin logged in''" "''path''" "''/''"]
  by (simp add: Enabled_def demo_handler_def newDevHandler_def demo_record_def)

end
