(* ===== verification/ParseIP.thy ===== *)
theory ParseIP
  imports GoStrings
begin

text \<open>
  \<open>net.ParseIP\<close> of the standard library, after \<open>netip.ParseAddr\<close>: dotted IPv4 addresses without leading
  zeros, IPv6 addresses with an ellipsis and a trailing IPv4 address. A zone makes an address no IP. The
  result is the 16 bytes of an address, an IPv4 address mapped into them.
\<close>

text \<open>
  The fields of an IPv4 address: \<open>digits\<close> counts the digits of the field at hand, whose value is \<open>val\<close>,
  and \<open>fields\<close> are those before it. A point at either end or after a point leaves a field without digits.
\<close>

fun ipv4_fields :: "nat \<Rightarrow> nat \<Rightarrow> nat list \<Rightarrow> string \<Rightarrow> nat list option" where
  "ipv4_fields digits val fields [] = (if digits = 0 \<or> length fields \<noteq> 3 then None else Some (fields @ [val]))"
| "ipv4_fields digits val fields (c # cs) =
     (if is_digit c then
        let v = val * 10 + (of_char c - 48) in
        if digits = 1 \<and> val = 0 \<or> 255 < v then None else ipv4_fields (Suc digits) v fields cs
      else if c = CHR ''.'' \<and> digits \<noteq> 0 \<and> length fields < 3 then ipv4_fields 0 0 (fields @ [val]) cs
      else None)"

definition parse_ipv4 :: "string \<Rightarrow> nat list option" where
  "parse_ipv4 s = ipv4_fields 0 0 [] s"

definition hex_of :: "char \<Rightarrow> nat" where
  "hex_of c = (case digit_val c of None \<Rightarrow> 16 | Some d \<Rightarrow> d)"

definition is_hex :: "char \<Rightarrow> bool" where
  "is_hex c \<longleftrightarrow> hex_of c < 16"

definition hex_group :: "string \<Rightarrow> nat" where
  "hex_group ds = foldl (\<lambda>v c. 16 * v + hex_of c) 0 ds"

text \<open>
  The groups of an IPv6 address: \<open>ip\<close> are the bytes read, \<open>ell\<close> the position of the ellipsis. A group of
  at most four digits is less than \<open>2 ^ 16\<close>. The result has the bytes, the ellipsis and what is left.
\<close>

function ipv6_groups :: "nat list \<Rightarrow> nat option \<Rightarrow> string \<Rightarrow> (nat list \<times> nat option \<times> string) option" where
  "ipv6_groups ip ell s =
     (if 16 \<le> length ip then Some (ip, ell, s)
      else let ds = takeWhile is_hex s; s1 = dropWhile is_hex s in
        if ds = [] \<or> 4 < length ds then None
        else if s1 \<noteq> [] \<and> hd s1 = CHR ''.'' then
          (if ell = None \<and> length ip \<noteq> 12 \<or> 16 < length ip + 4 then None
           else case parse_ipv4 s of None \<Rightarrow> None | Some q \<Rightarrow> Some (ip @ q, ell, []))
        else let ip1 = ip @ [hex_group ds div 256, hex_group ds mod 256] in
          case s1 of
            [] \<Rightarrow> Some (ip1, ell, [])
          | c # s2 \<Rightarrow>
              if c \<noteq> CHR '':'' \<or> s2 = [] then None
              else if hd s2 = CHR '':'' then
                (if ell \<noteq> None then None
                 else if tl s2 = [] then Some (ip1, Some (length ip1), [])
                 else ipv6_groups ip1 (Some (length ip1)) (tl s2))
              else ipv6_groups ip1 ell s2)"
  by pat_completeness auto
termination by (relation "measure (\<lambda>(ip, ell, s). 16 - length ip)") auto

declare ipv6_groups.simps [simp del]

definition parse_ipv6 :: "string \<Rightarrow> nat list option" where
  "parse_ipv6 s =
     (let (ell, s1) = (if take 2 s = ''::'' then (Some 0, drop 2 s) else (None, s)) in
      if ell \<noteq> None \<and> s1 = [] then Some (replicate 16 0)
      else case ipv6_groups [] ell s1 of
        None \<Rightarrow> None
      | Some (ip, e, rest) \<Rightarrow>
          if rest \<noteq> [] then None
          else case e of
            None \<Rightarrow> if length ip = 16 then Some ip else None
          | Some k \<Rightarrow> if length ip < 16 then Some (take k ip @ replicate (16 - length ip) 0 @ drop k ip) else None)"

definition ip_mark :: "char \<Rightarrow> bool" where
  "ip_mark c \<longleftrightarrow> c = CHR ''.'' \<or> c = CHR '':'' \<or> c = CHR ''%''"

definition ParseIP :: "string \<Rightarrow> nat list option" where
  "ParseIP s =
     (case dropWhile (\<lambda>c. \<not> ip_mark c) s of
        [] \<Rightarrow> None
      | c # _ \<Rightarrow>
          if c = CHR ''.'' then map_option (\<lambda>q. replicate 10 0 @ [255, 255] @ q) (parse_ipv4 s)
          else if c = CHR '':'' \<and> CHR ''%'' \<notin> set s then parse_ipv6 s
          else None)"

text \<open>Loopback addresses are IPs, host names are not, nor is an address with a leading zero or a zone.\<close>

lemma ParseIP_examples:
  "ParseIP ''127.0.0.1'' = Some (replicate 10 0 @ [255, 255, 127, 0, 0, 1])"
  "ParseIP ''::1'' = Some (replicate 15 0 @ [1])"
  "ParseIP ''localhost'' = None"
  "ParseIP ''127.0.0.01'' = None"
  "ParseIP ''fe80::1%eth0'' = None"
  by code_simp+

end
