(* ===== verification/Tls.thy ===== *)
theory Tls
  imports GoErrors ParseIP
begin

text \<open>
  \<^verbatim>\<open>pkg/tls\<close> and \<^verbatim>\<open>pkg/tls/transport\<close>: the stores that certificates come from, the profiles that make
  TLS configurations of them, and the transport built on a profile. What is inside certificates and keys
  (X.509, ACME) and the handshake are parameters.
\<close>

section \<open>Certificates and configurations\<close>

text \<open>
  \<open>tls.Certificate\<close> with keys of type \<open>'k\<close>; an \<open>x509.CertPool\<close> is a set of parsed certificates, of type
  \<open>'x\<close>. Of a \<open>tls.Config\<close> there are the fields the source sets, and the callback and the protocols that
  the configuration of an ACME client comes with.
\<close>

record 'k tls_certificate =
  Certificate :: "string list"
  PrivateKey :: 'k

datatype client_auth = NoClientCert | RequireAndVerifyClientCert

record ('k, 'x) tls_config =
  Certificates :: "'k tls_certificate list"
  GetCertificateCallback :: bool
  NextProtos :: "string list"
  MinVersion :: "16 word"
  ClientAuth :: client_auth
  ClientCAs :: "'x set option"
  RootCAs :: "'x set option"

definition zero_config :: "('k, 'x) tls_config" where
  "zero_config = \<lparr>Certificates = [], GetCertificateCallback = False, NextProtos = [], MinVersion = 0,
     ClientAuth = NoClientCert, ClientCAs = None, RootCAs = None\<rparr>"

text \<open>\<open>CertStore\<close>; a store that is a \<open>TLSConfigProvider\<close> has a \<open>TLSConfig\<close> too.\<close>

record ('w, 'k, 'x) cert_store =
  GetCertificate :: "('w, 'k tls_certificate) go"
  GetCACertPool :: "('w, 'x set option) go"
  TLSConfig :: "('k, 'x) tls_config option"

section \<open>Profiles\<close>

record ('w, 'k, 'x) tls_profile =
  ServerCert :: "('w, 'k, 'x) cert_store option"
  ClientCA :: "('w, 'k, 'x) cert_store option"
  ClientCert :: "('w, 'k, 'x) cert_store option"
  pr_MinVersion :: "16 word"
  VerifyPeer :: bool

text \<open>The configuration a server starts from.\<close>

definition server_base :: "('w, 'k, 'x) cert_store \<Rightarrow> 16 word \<Rightarrow> ('w, ('k, 'x) tls_config) go" where
  "server_base store minv w =
     (case TLSConfig store of
        Some cfg \<Rightarrow> (Inr (cfg\<lparr>MinVersion := minv\<rparr>), w)
      | None \<Rightarrow>
          (case GetCertificate store w of
             (Inl e, w1) \<Rightarrow> (Inl e, w1)
           | (Inr cert, w1) \<Rightarrow> (Inr (zero_config\<lparr>Certificates := [cert], MinVersion := minv\<rparr>), w1)))"

definition ServerTLSConfig :: "('w, 'k, 'x) tls_profile \<Rightarrow> ('w, ('k, 'x) tls_config) go" where
  "ServerTLSConfig p w =
     (case ServerCert p of
        None \<Rightarrow> (Inl (Opaque ''tls: ServerCert is required''), w)
      | Some store \<Rightarrow>
     (case server_base store (pr_MinVersion p) w of
        (Inl e, w1) \<Rightarrow> (Inl e, w1)
      | (Inr cfg, w1) \<Rightarrow>
          if VerifyPeer p \<and> ClientCA p \<noteq> None then
            (case GetCACertPool (the (ClientCA p)) w1 of
               (Inl e, w2) \<Rightarrow> (Inl e, w2)
             | (Inr pool, w2) \<Rightarrow> (Inr (cfg\<lparr>ClientAuth := RequireAndVerifyClientCert, ClientCAs := pool\<rparr>), w2))
          else (Inr cfg, w1)))"

definition ClientTLSConfig :: "('w, 'k, 'x) tls_profile \<Rightarrow> ('w, ('k, 'x) tls_config) go" where
  "ClientTLSConfig p w =
     (let cfg = zero_config\<lparr>MinVersion := pr_MinVersion p\<rparr> in
      case (case ServerCert p of
              None \<Rightarrow> (Inr cfg, w)
            | Some store \<Rightarrow>
                (case GetCACertPool store w of
                   (Inl e, w1) \<Rightarrow> (Inl e, w1)
                 | (Inr pool, w1) \<Rightarrow> (Inr (cfg\<lparr>RootCAs := pool\<rparr>), w1))) of
        (Inl e, w1) \<Rightarrow> (Inl e, w1)
      | (Inr cfg1, w1) \<Rightarrow>
          (case ClientCert p of
             None \<Rightarrow> (Inr cfg1, w1)
           | Some store \<Rightarrow>
               (case GetCertificate store w1 of
                  (Inl e, w2) \<Rightarrow> (Inl e, w2)
                | (Inr cert, w2) \<Rightarrow> (Inr (cfg1\<lparr>Certificates := [cert]\<rparr>), w2))))"

section \<open>Stores\<close>

subsection \<open>Files\<close>

record file_cert_config =
  CertPath :: string
  KeyPath :: string
  CAPath :: string

text \<open>
  Reading files, \<open>tls.X509KeyPair\<close> on their contents, and the certificates that
  \<open>CertPool.AppendCertsFromPEM\<close> finds in a text. The text of an error is \<open>error_text\<close>.
\<close>

record ('w, 'k, 'x) pem_lib =
  ReadFile :: "string \<Rightarrow> ('w, string) go"
  X509KeyPair :: "string \<Rightarrow> string \<Rightarrow> gerror + 'k tls_certificate"
  pem_certs :: "string \<Rightarrow> 'x list"
  error_text :: "gerror \<Rightarrow> string"

definition LoadX509KeyPair :: "('w, 'k, 'x) pem_lib \<Rightarrow> string \<Rightarrow> string \<Rightarrow> ('w, 'k tls_certificate) go" where
  "LoadX509KeyPair lib certFile keyFile w =
     (case ReadFile lib certFile w of
        (Inl e, w1) \<Rightarrow> (Inl e, w1)
      | (Inr certPEM, w1) \<Rightarrow>
     (case ReadFile lib keyFile w1 of
        (Inl e, w2) \<Rightarrow> (Inl e, w2)
      | (Inr keyPEM, w2) \<Rightarrow> (X509KeyPair lib certPEM keyPEM, w2)))"

text \<open>\<open>fmt.Errorf("%w: %v", sentinel, err)\<close>: of the second error only the text is kept.\<close>

definition because :: "sentinel \<Rightarrow> string \<Rightarrow> gerror" where
  "because s msg = Wrap msg (Sentinel s)"

definition NewFileCertStore :: "('w, 'k, 'x) pem_lib \<Rightarrow> file_cert_config \<Rightarrow> ('w, file_cert_config) go" where
  "NewFileCertStore lib c w =
     (case LoadX509KeyPair lib (CertPath c) (KeyPath c) w of
        (Inl e, w1) \<Rightarrow> (Inl (because tls_ErrCertNotFound (error_text lib e)), w1)
      | (Inr _, w1) \<Rightarrow> (Inr c, w1))"

definition file_GetCertificate :: "('w, 'k, 'x) pem_lib \<Rightarrow> file_cert_config \<Rightarrow> ('w, 'k tls_certificate) go" where
  "file_GetCertificate lib c w =
     (case LoadX509KeyPair lib (CertPath c) (KeyPath c) w of
        (Inl e, w1) \<Rightarrow> (Inl (because tls_ErrCertInvalid (error_text lib e)), w1)
      | (Inr cert, w1) \<Rightarrow> (Inr cert, w1))"

definition file_GetCACertPool :: "('w, 'k, 'x) pem_lib \<Rightarrow> file_cert_config \<Rightarrow> ('w, 'x set option) go" where
  "file_GetCACertPool lib c w =
     (if CAPath c = [] then (Inr None, w)
      else case ReadFile lib (CAPath c) w of
        (Inl e, w1) \<Rightarrow> (Inl (because tls_ErrCertNotFound (error_text lib e)), w1)
      | (Inr caPEM, w1) \<Rightarrow>
          if pem_certs lib caPEM = []
          then (Inl (because tls_ErrCertInvalid ''failed to parse CA certificate''), w1)
          else (Inr (Some (set (pem_certs lib caPEM))), w1))"

definition FileCertStore :: "('w, 'k, 'x) pem_lib \<Rightarrow> file_cert_config \<Rightarrow> ('w, 'k, 'x) cert_store" where
  "FileCertStore lib c = \<lparr>GetCertificate = file_GetCertificate lib c, GetCACertPool = file_GetCACertPool lib c, TLSConfig = None\<rparr>"

subsection \<open>ACME\<close>

record acme_config =
  ac_Email :: string
  Domains :: "string list"
  CacheDir :: string

text \<open>The manager of \<open>autocert\<close>, and what the library makes of it.\<close>

record acme_manager =
  am_Email :: string
  HostPolicy :: "string list"
  Cache :: "string option"

record ('k, 'x, 'h) autocert_lib =
  manager_TLSConfig :: "acme_manager \<Rightarrow> ('k, 'x) tls_config"
  manager_HTTPHandler :: "acme_manager \<Rightarrow> 'h option \<Rightarrow> 'h"

definition NewACMEStore :: "acme_config \<Rightarrow> gerror + acme_manager" where
  "NewACMEStore c =
     (if Domains c = [] then Inl (Opaque ''tls: ACME requires at least one domain'')
      else Inr \<lparr>am_Email = ac_Email c, HostPolicy = Domains c, Cache = (if CacheDir c \<noteq> [] then Some (CacheDir c) else None)\<rparr>)"

definition acme_GetCertificate :: "acme_manager \<Rightarrow> ('w, 'k tls_certificate) go" where
  "acme_GetCertificate s w =
     (Inl (Opaque ''tls: ACME certificates are served via TLS handshake callback; use TLSProfile.ServerTLSConfig()''), w)"

definition acme_TLSConfig :: "('k, 'x, 'h) autocert_lib \<Rightarrow> acme_manager \<Rightarrow> ('k, 'x) tls_config" where
  "acme_TLSConfig lib s = manager_TLSConfig lib s"

definition acme_HTTPHandler :: "('k, 'x, 'h) autocert_lib \<Rightarrow> acme_manager \<Rightarrow> 'h option \<Rightarrow> 'h" where
  "acme_HTTPHandler lib s fallback = manager_HTTPHandler lib s fallback"

definition acme_GetCACertPool :: "acme_manager \<Rightarrow> ('w, 'x set option) go" where
  "acme_GetCACertPool s w = (Inr None, w)"

definition ACMEStore :: "('k, 'x, 'h) autocert_lib \<Rightarrow> acme_manager \<Rightarrow> ('w, 'k, 'x) cert_store" where
  "ACMEStore lib s = \<lparr>GetCertificate = acme_GetCertificate s, GetCACertPool = acme_GetCACertPool s,
     TLSConfig = Some (acme_TLSConfig lib s)\<rparr>"

subsection \<open>Self-signed certificates\<close>

record self_signed_config =
  Hosts :: "string list"
  Duration :: int

datatype key_usage = KeyUsageDigitalSignature | KeyUsageKeyEncipherment
datatype ext_key_usage = ExtKeyUsageServerAuth | ExtKeyUsageClientAuth

record cert_template =
  SerialNumber :: int
  CommonName :: string
  NotBefore :: int
  NotAfter :: int
  KeyUsage :: "key_usage list"
  ExtKeyUsage :: "ext_key_usage list"
  IsCA :: bool
  BasicConstraintsValid :: bool
  IPAddresses :: "nat list list"
  DNSNames :: "string list"

text \<open>
  The random numbers below a bound, key pairs, the clock, the signing of a template with the key of its
  issuer (which is the template itself here), and the parsing of what was signed.
\<close>

record ('w, 'k, 'x) x509_lib =
  GenerateKey :: "('w, 'k) go"
  rand_Int :: "int \<Rightarrow> ('w, int) go"
  tls_Now :: "'w \<Rightarrow> int \<times> 'w"
  CreateCertificate :: "cert_template \<Rightarrow> cert_template \<Rightarrow> 'k \<Rightarrow> 'k \<Rightarrow> ('w, string) go"
  ParseCertificate :: "string \<Rightarrow> gerror + 'x"

fun add_hosts :: "string list \<Rightarrow> cert_template \<Rightarrow> cert_template" where
  "add_hosts [] tmpl = tmpl"
| "add_hosts (h # hs) tmpl =
     (case ParseIP h of
        Some ip \<Rightarrow> add_hosts hs (tmpl\<lparr>IPAddresses := IPAddresses tmpl @ [ip]\<rparr>)
      | None \<Rightarrow> add_hosts hs (tmpl\<lparr>DNSNames := DNSNames tmpl @ [h]\<rparr>))"

definition base_template :: "int \<Rightarrow> int \<Rightarrow> int \<Rightarrow> cert_template" where
  "base_template serial not_before not_after = \<lparr>SerialNumber = serial, CommonName = ''self-signed'',
     NotBefore = not_before, NotAfter = not_after,
     KeyUsage = [KeyUsageDigitalSignature, KeyUsageKeyEncipherment],
     ExtKeyUsage = [ExtKeyUsageServerAuth, ExtKeyUsageClientAuth],
     IsCA = True, BasicConstraintsValid = True, IPAddresses = [], DNSNames = []\<rparr>"

record ('k, 'x) self_signed_store =
  ss_cert :: "'k tls_certificate"
  ss_caPool :: "'x set"

definition NewSelfSignedStore ::
  "('w, 'k, 'x) x509_lib \<Rightarrow> self_signed_config \<Rightarrow> ('w, ('k, 'x) self_signed_store) go" where
  "NewSelfSignedStore lib cfg w =
     (case GenerateKey lib w of
        (Inl e, w1) \<Rightarrow> (Inl e, w1)
      | (Inr key, w1) \<Rightarrow>
     (case rand_Int lib (2 ^ 128) w1 of
        (Inl e, w2) \<Rightarrow> (Inl e, w2)
      | (Inr serial, w2) \<Rightarrow>
     (let (t1, w3) = tls_Now lib w2; (t2, w4) = tls_Now lib w3;
          tmpl = add_hosts (Hosts cfg) (base_template serial t1 (t2 + Duration cfg)) in
      case CreateCertificate lib tmpl tmpl key key w4 of
        (Inl e, w5) \<Rightarrow> (Inl e, w5)
      | (Inr certDER, w5) \<Rightarrow>
     (case ParseCertificate lib certDER of
        Inl e \<Rightarrow> (Inl e, w5)
      | Inr parsed \<Rightarrow>
          (Inr \<lparr>ss_cert = \<lparr>Certificate = [certDER], PrivateKey = key\<rparr>, ss_caPool = insert parsed {}\<rparr>, w5)))))"

definition SelfSignedStore :: "('k, 'x) self_signed_store \<Rightarrow> ('w, 'k, 'x) cert_store" where
  "SelfSignedStore s = \<lparr>GetCertificate = Pair (Inr (ss_cert s)), GetCACertPool = Pair (Inr (Some (ss_caPool s))), TLSConfig = None\<rparr>"

section \<open>Transport\<close>

record ('k, 'x) tls_transport =
  serverCfg :: "('k, 'x) tls_config"
  clientCfg :: "('k, 'x) tls_config"

definition NewTransport :: "('w, 'k, 'x) tls_profile \<Rightarrow> ('w, ('k, 'x) tls_transport) go" where
  "NewTransport profile w =
     (case ServerTLSConfig profile w of
        (Inl e, w1) \<Rightarrow> (Inl (Wrap ''transport'' e), w1)
      | (Inr s, w1) \<Rightarrow>
     (case ClientTLSConfig profile w1 of
        (Inl e, w2) \<Rightarrow> (Inl (Wrap ''transport'' e), w2)
      | (Inr c, w2) \<Rightarrow> (Inr \<lparr>serverCfg = s, clientCfg = c\<rparr>, w2)))"

text \<open>\<open>tls.Dialer.DialContext\<close> and \<open>tls.Listen\<close> take a configuration, the network and the address.\<close>

record ('w, 'k, 'x, 'c, 'l) tls_net =
  DialContext :: "('k, 'x) tls_config \<Rightarrow> string \<Rightarrow> string \<Rightarrow> ('w, 'c) go"
  tls_Listen :: "string \<Rightarrow> string \<Rightarrow> ('k, 'x) tls_config \<Rightarrow> ('w, 'l) go"

definition Dial :: "('w, 'k, 'x, 'c, 'l) tls_net \<Rightarrow> ('k, 'x) tls_transport \<Rightarrow> string \<Rightarrow> ('w, 'c) go" where
  "Dial lib t addr w =
     (case DialContext lib (clientCfg t) ''tcp'' addr w of
        (Inl e, w1) \<Rightarrow> (Inl (Wrap ''transport'' e), w1)
      | (Inr conn, w1) \<Rightarrow> (Inr conn, w1))"

definition Listen :: "('w, 'k, 'x, 'c, 'l) tls_net \<Rightarrow> ('k, 'x) tls_transport \<Rightarrow> string \<Rightarrow> ('w, 'l) go" where
  "Listen lib t addr w =
     (case tls_Listen lib ''tcp'' addr (serverCfg t) w of
        (Inl e, w1) \<Rightarrow> (Inl (Wrap ''transport'' e), w1)
      | (Inr ln, w1) \<Rightarrow> (Inr ln, w1))"

end
