(* ===== verification/TlsProps.thy ===== *)
theory TlsProps
  imports Tls
begin

text \<open>
  Properties of the TLS profiles and stores: who a server lets in, what two self-signed stores agree
  on, and what a file store hands out after its files changed.
\<close>

section \<open>Who is let in\<close>

text \<open>
  What \<open>crypto/tls\<close> does with a configuration on the side of the server: a client certificate is asked
  for only with \<open>RequireAndVerifyClientCert\<close>, and has to verify against \<open>ClientCAs\<close>, or against the
  roots of the system when there are none. \<open>verify roots c\<close> is the verification of a chain.
\<close>

definition admits :: "('x set \<Rightarrow> 'x \<Rightarrow> bool) \<Rightarrow> 'x set \<Rightarrow> ('k, 'x) tls_config \<Rightarrow> 'x option \<Rightarrow> bool" where
  "admits verify system cfg peer \<longleftrightarrow>
     (case ClientAuth cfg of
        NoClientCert \<Rightarrow> True
      | RequireAndVerifyClientCert \<Rightarrow>
          (case peer of
             None \<Rightarrow> False
           | Some c \<Rightarrow> verify (case ClientCAs cfg of None \<Rightarrow> system | Some pool \<Rightarrow> pool) c))"

lemma server_base_fields:
  assumes "server_base store minv w = (Inr cfg, w')" "\<And>b. TLSConfig store = Some b \<Longrightarrow> ClientAuth b = NoClientCert"
  shows "ClientAuth cfg = NoClientCert" "MinVersion cfg = minv"
  using assms by (auto simp: server_base_def zero_config_def split: option.splits prod.splits sum.splits)

text \<open>A file system whose contents only depend on the state.\<close>

locale file_reader =
  fixes lib :: "('w, 'k, 'x) pem_lib" and files :: "'w \<Rightarrow> string \<rightharpoonup> string"
  assumes read: "ReadFile lib f w = (case files w f of None \<Rightarrow> Inl (Opaque ''no such file'') | Some s \<Rightarrow> Inr s, w)"
begin

lemma load:
  "LoadX509KeyPair lib c k w =
     (case (files w c, files w k) of
        (Some s, Some t) \<Rightarrow> X509KeyPair lib s t
      | _ \<Rightarrow> Inl (Opaque ''no such file''), w)"
  by (simp add: LoadX509KeyPair_def read split: option.splits)

lemma pool:
  "file_GetCACertPool lib c w = (r, w') \<Longrightarrow> w' = w"
  "file_GetCACertPool lib c w = (Inr p, w') \<Longrightarrow>
     p = (if CAPath c = [] then None else Some (set (pem_certs lib (the (files w (CAPath c))))))"
  by (auto simp: file_GetCACertPool_def read split: if_splits option.splits)

end

text \<open>
  C21: Which clients a server with a profile lets in, when it can be set up and the store of its own
  certificate does not ask for client certificates by itself. With \<open>VerifyPeer\<close> and a CA file it is those
  with a certificate that verifies against the certificates of that file. Without a path for the CA file the
  pool is nil, and every certificate that verifies against the roots of the system is let in. Without
  \<open>VerifyPeer\<close>, or without a store for the CA, everybody is, with or without a certificate.
\<close>

theorem server_admission:
  assumes "file_reader lib files" "ServerTLSConfig p w = (Inr cfg, w')" "ServerCert p = Some store"
    and "\<And>b. TLSConfig store = Some b \<Longrightarrow> ClientAuth b = NoClientCert"
    and "\<And>r v v'. GetCertificate store v = (r, v') \<Longrightarrow> v' = v"
  shows "MinVersion cfg = pr_MinVersion p \<and>
    (\<not> VerifyPeer p \<or> ClientCA p = None \<longrightarrow> admits verify system cfg peer) \<and>
    (\<forall>c. VerifyPeer p \<and> ClientCA p = Some (FileCertStore lib c) \<longrightarrow>
       (admits verify system cfg peer \<longleftrightarrow>
         (\<exists>x. peer = Some x \<and>
            verify (if CAPath c = [] then system else set (pem_certs lib (the (files w (CAPath c))))) x)))"
proof -
  obtain r w1 where b: "server_base store (pr_MinVersion p) w = (r, w1)" by (rule prod.exhaust)
  with assms(2,3) obtain cfg0 where r: "r = Inr cfg0" by (cases r) (simp_all add: ServerTLSConfig_def)
  note base = server_base_fields [OF b [unfolded r] assms(4)]
  have w1: "w1 = w" using b assms(5) [of w] by (auto simp: server_base_def split: option.splits prod.splits sum.splits)
  show ?thesis
  proof (cases "VerifyPeer p \<and> ClientCA p \<noteq> None")
    case False
    with assms(2,3) b r have "cfg = cfg0" by (auto simp: ServerTLSConfig_def)
    with base False show ?thesis by (auto simp: admits_def)
  next
    case True
    then obtain ca where ca: "ClientCA p = Some ca" by blast
    obtain q w2 where q: "GetCACertPool ca w1 = (q, w2)" by (rule prod.exhaust)
    with assms(2,3) b r True ca obtain pl where
      c: "q = Inr pl" "cfg = cfg0\<lparr>ClientAuth := RequireAndVerifyClientCert, ClientCAs := pl\<rparr>"
      by (cases q) (auto simp: ServerTLSConfig_def)
    have "pl = (if CAPath c = [] then None else Some (set (pem_certs lib (the (files w (CAPath c))))))"
      if "ca = FileCertStore lib c" for c
      using file_reader.pool(2) [OF assms(1), of c w pl w2] q c(1) that w1 by (simp add: FileCertStore_def)
    with True ca base c(2) show ?thesis by (auto simp: admits_def split: option.splits)
  qed
qed

section \<open>Self-signed certificates\<close>


lemma self_signed_cases:
  assumes "NewSelfSignedStore lib cfg w = (Inr s, w')"
  obtains key serial t1 t2 der x where
    "ss_cert s = \<lparr>Certificate = [der], PrivateKey = key\<rparr>" "ss_caPool s = {x}" "ParseCertificate lib der = Inr x"
    "\<exists>v v'. CreateCertificate lib (add_hosts (Hosts cfg) (base_template serial t1 (t2 + Duration cfg)))
       (add_hosts (Hosts cfg) (base_template serial t1 (t2 + Duration cfg))) key key v = (Inr der, v')"
    "\<exists>v. t1 = fst (tls_Now lib v) \<and> t2 = fst (tls_Now lib (snd (tls_Now lib v)))"
proof -
  obtain k w1 where 1: "GenerateKey lib w = (k, w1)" by (rule prod.exhaust)
  with assms obtain key where k: "k = Inr key" by (cases k) (simp_all add: NewSelfSignedStore_def)
  obtain n w2 where 2: "rand_Int lib (2 ^ 128) w1 = (n, w2)" by (rule prod.exhaust)
  with assms 1 k obtain serial where n: "n = Inr serial" by (cases n) (simp_all add: NewSelfSignedStore_def)
  obtain t1 w3 where 3: "tls_Now lib w2 = (t1, w3)" by (rule prod.exhaust)
  obtain t2 w4 where 4: "tls_Now lib w3 = (t2, w4)" by (rule prod.exhaust)
  define tmpl where "tmpl = add_hosts (Hosts cfg) (base_template serial t1 (t2 + Duration cfg))"
  obtain d w5 where 5: "CreateCertificate lib tmpl tmpl key key w4 = (d, w5)" by (rule prod.exhaust)
  with assms 1 k 2 n 3 4 obtain der where d: "d = Inr der"
    by (cases d) (simp_all add: NewSelfSignedStore_def tmpl_def)
  with assms 1 k 2 n 3 4 5 obtain x where x: "ParseCertificate lib der = Inr x"
    by (cases "ParseCertificate lib der") (simp_all add: NewSelfSignedStore_def tmpl_def)
  show ?thesis
  proof (rule that [of der key x serial t1 t2])
    show "ss_cert s = \<lparr>Certificate = [der], PrivateKey = key\<rparr>" "ss_caPool s = {x}"
      using assms 1 k 2 n 3 4 5 d x by (auto simp: NewSelfSignedStore_def tmpl_def)
    show "\<exists>v. t1 = fst (tls_Now lib v) \<and> t2 = fst (tls_Now lib (snd (tls_Now lib v)))"
      using 3 4 by (intro exI [of _ w2]) simp
  qed (use x 5 d in \<open>auto simp: tmpl_def\<close>)
qed


text \<open>
  C22: Mutual TLS with two self-signed stores: both transports can be made; the client trusts exactly
  the certificate the server shows, and the server asks for a client certificate and trusts exactly the
  one the client shows.
\<close>

theorem self_signed_mutual_tls:
  assumes "NewSelfSignedStore lib cs w = (Inr s, w1)" "NewSelfSignedStore lib cc w1 = (Inr c, w2)"
  shows "\<exists>t u x y. NewTransport \<lparr>ServerCert = Some (SelfSignedStore s), ClientCA = Some (SelfSignedStore c), ClientCert = None,
        pr_MinVersion = minv, VerifyPeer = True\<rparr> w2 = (Inr t, w2) \<and>
    NewTransport \<lparr>ServerCert = Some (SelfSignedStore s), ClientCA = None, ClientCert = Some (SelfSignedStore c),
        pr_MinVersion = minv, VerifyPeer = False\<rparr> w2 = (Inr u, w2) \<and>
    map Certificate (Certificates (serverCfg t)) = map Certificate [ss_cert s] \<and>
    map (map (ParseCertificate lib) \<circ> Certificate) (Certificates (serverCfg t)) = [[Inr x]] \<and> RootCAs (clientCfg u) = Some {x} \<and>
    map (map (ParseCertificate lib) \<circ> Certificate) (Certificates (clientCfg u)) = [[Inr y]] \<and>
    ClientAuth (serverCfg t) = RequireAndVerifyClientCert \<and> ClientCAs (serverCfg t) = Some {y} \<and>
    MinVersion (serverCfg t) = minv \<and> MinVersion (clientCfg u) = minv"
proof -
  obtain k d x where s: "ss_cert s = \<lparr>Certificate = [d], PrivateKey = k\<rparr>" "ss_caPool s = {x}" "ParseCertificate lib d = Inr x"
    using self_signed_cases [OF assms(1)] by metis
  obtain l e y where c: "ss_cert c = \<lparr>Certificate = [e], PrivateKey = l\<rparr>" "ss_caPool c = {y}" "ParseCertificate lib e = Inr y"
    using self_signed_cases [OF assms(2)] by metis
  show ?thesis using s c
    by (simp add: NewTransport_def ServerTLSConfig_def ClientTLSConfig_def server_base_def SelfSignedStore_def zero_config_def)
qed

section \<open>Certificates on disk\<close>


section \<open>A simulated world\<close>

text \<open>
  Keys and serial numbers count up; a certificate is signed by writing its serial number down, and
  parsed by reading it back; a PEM file holds one certificate per character.
\<close>

record tls_sim =
  ts_next :: nat
  ts_files :: "string \<rightharpoonup> string"

definition sim_pem :: "(tls_sim, nat, char) pem_lib" where
  "sim_pem = \<lparr>ReadFile = (\<lambda>f w. (case ts_files w f of None \<Rightarrow> Inl (Opaque ''no such file'') | Some s \<Rightarrow> Inr s, w)),
     X509KeyPair = (\<lambda>s t. if length s = length t then Inr \<lparr>Certificate = [s], PrivateKey = length t\<rparr> else Inl (Opaque ''mismatch'')),
     pem_certs = (\<lambda>s. s), error_text = (\<lambda>_. ''error'')\<rparr>"

interpretation sim_pem: file_reader sim_pem ts_files
  by unfold_locales (simp add: sim_pem_def)

definition sim_x509 :: "(tls_sim, nat, nat) x509_lib" where
  "sim_x509 = \<lparr>GenerateKey = (\<lambda>w. (Inr (ts_next w), w\<lparr>ts_next := Suc (ts_next w)\<rparr>)),
     rand_Int = (\<lambda>_ w. (Inr (int (ts_next w)), w\<lparr>ts_next := Suc (ts_next w)\<rparr>)),
     tls_Now = (\<lambda>w. (int (ts_next w), w\<lparr>ts_next := Suc (ts_next w)\<rparr>)),
     CreateCertificate = (\<lambda>t _ _ _ w. (Inr (replicate (nat (SerialNumber t)) CHR ''1''), w)),
     ParseCertificate = (\<lambda>d. Inr (length d))\<rparr>"

definition ca_world :: tls_sim where
  "ca_world = \<lparr>ts_next = 0, ts_files = [''crt'' \<mapsto> ''AB'', ''key'' \<mapsto> ''ab'', ''ca'' \<mapsto> ''C'']\<rparr>"

definition files_config :: "string \<Rightarrow> file_cert_config" where
  "files_config ca = \<lparr>CertPath = ''crt'', KeyPath = ''key'', CAPath = ca\<rparr>"

definition sim_profile :: "string \<Rightarrow> (tls_sim, nat, char) tls_profile" where
  "sim_profile ca = \<lparr>ServerCert = Some (FileCertStore sim_pem (files_config [])), ClientCA = Some (FileCertStore sim_pem (files_config ca)),
     ClientCert = None, pr_MinVersion = 772, VerifyPeer = True\<rparr>"

lemma sim_profile_config: "ca \<in> {[], ''ca''} \<Longrightarrow> \<exists>cfg. ServerTLSConfig (sim_profile ca) ca_world = (Inr cfg, ca_world)"
  by (auto simp: ServerTLSConfig_def sim_profile_def server_base_def FileCertStore_def file_GetCertificate_def files_config_def
      sim_pem.load ca_world_def file_GetCACertPool_def) (auto simp: sim_pem_def file_GetCACertPool_def)

theorem server_admission_witness:
  "\<exists>cfg cfg'. ServerTLSConfig (sim_profile ''ca'') ca_world = (Inr cfg, ca_world) \<and>
     ServerTLSConfig (sim_profile []) ca_world = (Inr cfg', ca_world) \<and>
     \<not> admits (\<lambda>roots c. c \<in> roots) {CHR ''P''} cfg (Some CHR ''P'') \<and> admits (\<lambda>roots c. c \<in> roots) {CHR ''P''} cfg' (Some CHR ''P'')"
proof -
  obtain cfg where c: "ServerTLSConfig (sim_profile ''ca'') ca_world = (Inr cfg, ca_world)"
    using sim_profile_config [of "''ca''"] by auto
  obtain cfg' where c': "ServerTLSConfig (sim_profile []) ca_world = (Inr cfg', ca_world)"
    using sim_profile_config [of "[]"] by auto
  have s: "ServerCert (sim_profile ca) = Some (FileCertStore sim_pem (files_config []))" for ca by (simp add: sim_profile_def)
  have n: "TLSConfig (FileCertStore sim_pem (files_config [])) = None" by (simp add: FileCertStore_def)
  have r: "GetCertificate (FileCertStore sim_pem (files_config [])) v = (r, v') \<Longrightarrow> v' = v" for r v v'
    by (auto simp: FileCertStore_def file_GetCertificate_def sim_pem.load split: sum.splits)
  have adm: "ServerTLSConfig (sim_profile ca) ca_world = (Inr g, ca_world) \<Longrightarrow>
      admits (\<lambda>roots c. c \<in> roots) {CHR ''P''} g (Some CHR ''P'') \<longleftrightarrow>
        CHR ''P'' \<in> (if ca = [] then {CHR ''P''} else set (pem_certs sim_pem (the (ts_files ca_world ca))))" for ca g
    using server_admission [OF sim_pem.file_reader_axioms _ s _ r, where w = ca_world and cfg = g and
        w' = ca_world and verify = "\<lambda>roots c. c \<in> roots" and system = "{CHR ''P''}" and peer = "Some CHR ''P''"] n
    by (simp add: sim_profile_def files_config_def)
  have "set (pem_certs sim_pem (the (ts_files ca_world ''ca''))) = {CHR ''C''}" by (simp add: sim_pem_def ca_world_def)
  with adm [OF c] adm [OF c'] c c' show ?thesis
    by (intro exI [of _ cfg] exI [of _ cfg']) simp
qed

lemma sim_self_signed: "\<exists>s w'. NewSelfSignedStore sim_x509 \<lparr>Hosts = hs, Duration = d\<rparr> w = (Inr s, w')"
  by (simp add: NewSelfSignedStore_def sim_x509_def Let_def)


theorem self_signed_mutual_tls_witness:
  "\<exists>s c t. ClientAuth (serverCfg t) = RequireAndVerifyClientCert \<and>
     NewTransport \<lparr>ServerCert = Some (SelfSignedStore s), ClientCA = Some (SelfSignedStore c), ClientCert = None,
        pr_MinVersion = 772, VerifyPeer = True\<rparr> ca_world = (Inr (t :: (nat, nat) tls_transport), ca_world)"
proof -
  obtain s w1 where s: "NewSelfSignedStore sim_x509 \<lparr>Hosts = [''localhost''], Duration = 3600\<rparr> ca_world = (Inr s, w1)"
    using sim_self_signed by blast
  obtain c w2 where c: "NewSelfSignedStore sim_x509 \<lparr>Hosts = [''localhost''], Duration = 3600\<rparr> w1 = (Inr c, w2)"
    using sim_self_signed by blast
  from self_signed_mutual_tls [OF s c, of 772] obtain t where
    "NewTransport \<lparr>ServerCert = Some (SelfSignedStore s), ClientCA = Some (SelfSignedStore c), ClientCert = None,
        pr_MinVersion = 772, VerifyPeer = True\<rparr> w2 = (Inr t, w2)" "ClientAuth (serverCfg t) = RequireAndVerifyClientCert"
    by blast
  then show ?thesis
    by (intro exI [of _ s] exI [of _ c] exI [of _ t])
       (simp add: NewTransport_def ServerTLSConfig_def ClientTLSConfig_def server_base_def SelfSignedStore_def)
qed


end
