(* ===== verification/RequestTypes.thy ===== *)
theory RequestTypes
  imports ResourceApi
begin
















end
