(* ===== verification/Zlib.thy ===== *)
theory Zlib
  imports Prelude
begin

text \<open>
  \<^verbatim>\<open>pkg/zlib/zlib.go\<close>: packing and unpacking of Git objects. The frame of \<open>compress/zlib\<close> (header,
  dictionary flag, Adler-32 checksum) is modelled as the library has it; the DEFLATE stream between header and
  checksum is a parameter.
\<close>

section \<open>\<open>hash/adler32\<close>\<close>



definition be32 :: "nat \<Rightarrow> bytes" where
  "be32 n = [word_of_nat (n div 16777216), word_of_nat (n div 65536), word_of_nat (n div 256), word_of_nat n]"


section \<open>\<open>compress/zlib\<close>\<close>






section \<open>\<open>pkg/zlib\<close>\<close>




section \<open>Properties\<close>





lemma be32_length [simp]: "length (be32 n) = 4"
  by (simp add: be32_def)










end
