(* ===== verification/Spec2Isabelle.thy ===== *)
theory Spec2Isabelle
  imports Pktline Multibase Ed25519 ResourceProps AppProps LoggerProps TlsProps RequestTypes Zlib
begin

text \<open>
  Verification development for \<^verbatim>\<open>gitfed\<close>, a server for Git repositories with accounts, sessions,
  organizations and logins through Google, written in Go.

  \<^bold>\<open>The program.\<close> \<^verbatim>\<open>cmd/http-api\<close> reads its configuration from the environment, connects to Postgres
  and Redis, wires stores, services and middlewares into one HTTP handler, and serves it until a signal
  comes. A request passes the request log, the limit by address, the multiplexer and, on most routes,
  \<open>Auth\<close>, which finds the user of an access token in Redis; the presenters decode the body, check it, call
  the services and answer in JSON. The services of the modules \<^verbatim>\<open>user\<close>, \<^verbatim>\<open>session\<close>, \<^verbatim>\<open>organization\<close>,
  \<^verbatim>\<open>git\<close> and \<^verbatim>\<open>sso\<close> see their storage through Go interfaces, which stores over generated SQL methods
  (\<^verbatim>\<open>internal/database/sqlc\<close>) and over Redis (\<^verbatim>\<open>internal/store\<close>) provide. \<^verbatim>\<open>cmd/admin\<close> seeds the
  database. The libraries of \<^verbatim>\<open>pkg\<close> stand by themselves: pkt-lines, multibase, Ed25519, zlib, TLS, logger.

  \<^bold>\<open>How Go is modelled.\<close> A structure is a record, an interface a record of operations, an error a value of
  \<open>gerror\<close> (theory \<open>GoErrors\<close>: a sentinel, a wrapped error, or an opaque one; \<open>errors_is\<close> is
  \<open>errors.Is\<close>). A call with effects is a function on a state of the world \<open>'w\<close> that nothing is assumed
  about, of type \<open>('w, 'a) go\<close> or \<open>'w go_err\<close>; every early return is a branch. Bytes are \<open>8 word\<close>, a Go
  string is a list of characters standing for its bytes, \<open>Runes\<close> says what its runes are. An HTTP handler
  takes a request, a response writer and the world. Integers are \<open>int\<close>, with the bounds of
  \<open>int64\<close> written out where they can be met (\<open>Atoi\<close>, \<open>ParseDuration\<close>); doubles are rationals, each
  operation rounded to 53 bits (\<open>Float64\<close>).

  \<^bold>\<open>The theories and what they model.\<close>
  \<^item> \<open>Prelude\<close>, \<open>Runes\<close>, \<open>GoStrings\<close>, \<open>GoErrors\<close>: what is shared, with the functions of \<^verbatim>\<open>strings\<close> and
    \<^verbatim>\<open>errors\<close> the source uses. \<open>Encodings\<close> (hexadecimal and base64), \<open>Float64\<close>, \<open>ParseIP\<close>, \<open>Json\<close>
    (decoder and encoder) and the first part of \<open>Http\<close> model the standard library in the same way.
  \<^item> \<open>Pktline\<close> (\<^verbatim>\<open>pkg/pktline\<close>), \<open>Multibase\<close> (\<^verbatim>\<open>pkg/multibase\<close>), \<open>Ed25519\<close> (\<^verbatim>\<open>pkg/crypto\<close>), \<open>Zlib\<close>
    (\<^verbatim>\<open>pkg/zlib\<close>): codecs and their round trips; the iterator over pkt-lines with its shared buffer.
  \<^item> \<open>Sqlc\<close> is the generated query layer; \<open>Relational\<close> says what each of its statements means on the
    tables of \<^verbatim>\<open>migrations/versions\<close>, and that the constraints of the schema always hold (\<open>schema_ok\<close>).
  \<^item> \<open>Backend\<close>: the contracts of the Postgres pool, go-redis, \<^verbatim>\<open>google/uuid\<close>, the source of
    randomness and bcrypt, and the simulated world in which they hold.
  \<^item> \<open>Users\<close>, \<open>Sessions\<close> and \<open>SessionLaws\<close>, \<open>Organizations\<close>, \<open>GitPaths\<close> and \<open>GitRepos\<close>, \<open>Sso\<close>: the
    modules of \<^verbatim>\<open>internal/modules\<close>: domain types, the \<open>Repository\<close> interface, its store, the service;
    \<open>Sessions\<close> also holds \<^verbatim>\<open>internal/store/redis.go\<close> and the TOTP service.
  \<^item> \<open>RateLimit\<close> and \<open>Limiter\<close> (\<^verbatim>\<open>internal/ratelimit\<close>): the middlewares, and the script Redis runs.
  \<^item> \<open>Http\<close>, \<open>AuthApi\<close>, \<open>ResourceApi\<close>, \<open>GitHttp\<close>, \<open>Server\<close> (\<^verbatim>\<open>internal/api/http\<close>): \<open>Auth\<close>, cookies and
    responses; every presenter; the serving of Git and the health check; routes, multiplexer, the chain of
    \<open>NewServer\<close> and \<open>Serve\<close>. \<open>RequestTypes\<close> treats the request structures as types, \<open>ResourceProps\<close> has the
    properties of organizations and repositories, \<open>SystemInv\<close> those of the whole server.
  \<^item> \<open>Config\<close> (\<^verbatim>\<open>pkg/env\<close>, \<^verbatim>\<open>internal/config\<close>, addresses of Postgres and Redis), \<open>Seed\<close>
    (\<^verbatim>\<open>internal/admin/seed\<close>), \<open>App\<close> and \<open>AppProps\<close> (\<^verbatim>\<open>cmd\<close>, \<^verbatim>\<open>internal/database\<close>): how the programs start, what
    they wire together, how they end.
  \<^item> \<open>Logger\<close> and \<open>LoggerProps\<close> (\<^verbatim>\<open>pkg/logger\<close>): levels, handlers, loggers and contexts, and the step relation
    of concurrent calls under the mutex. \<open>Tls\<close> and \<open>TlsProps\<close> (\<^verbatim>\<open>pkg/tls\<close>): profiles, certificate stores,
    transport.

  \<^bold>\<open>Interfaces.\<close> What one part relies on in another is a locale. \<open>postgres\<close>, \<open>redis\<close> and \<open>uuid_codec\<close>
  are the outside; \<open>backend\<close> puts them together. Each module states the contract of its interface
  (\<open>user_repository\<close>, \<open>session_repository\<close>, \<open>token_store\<close>, \<open>organization_repository\<close>, \<open>git_records\<close>,
  \<open>sso_repository\<close>, with the operations described on an abstract list of accounts, sessions or records),
  proves the laws of its service from the contract (\<open>user_service\<close>, \<open>session_service\<close>, \<open>sso_service\<close>), and shows by
  \<^theory_text>\<open>sublocale\<close> that the store over Postgres or Redis meets it; this is the refinement of the
  abstract storage by the code. \<open>application\<close> adds what the libraries of the server leave alone,
  \<open>hosting\<close> the directories of repositories, \<open>deployment\<close> the wiring of \<open>main\<close>, \<open>network\<close> what
  \<open>http.Serve\<close> does with a handler; \<open>script_runner\<close>, \<open>git_files\<close>, \<open>google_login\<close>, \<open>totp_service\<close>, \<open>byte_writer\<close>,
  \<open>file_reader\<close> and \<open>flate\<close> are the contracts of single libraries. All of them are interpreted: the
  modules' on the stores of the program, those of third-party code on the simulated world of
  \<open>Backend\<close> and the theories that extend it, so the hypotheses of the properties can be met.

  \<^bold>\<open>What is shown.\<close>
  \<^item> Of the whole (\<open>SystemInv\<close>, \<open>AppProps\<close>): from an empty database, through any requests, any failures of the
    services and any run of the administration program, the constraints of the schema hold and every token
    in Redis names a user of the database; a handler behind \<open>Auth\<close> acts for such a user. \<open>Serve\<close> only
    ever does such a run. When each program listens, what it closes, and with which status it ends.
  \<^item> Of the accounts and sessions (\<open>AuthApi\<close>, \<open>Users\<close>, \<open>SessionLaws\<close>): registration adds one account with the
    hash of the password or none; a login needs the password; tokens are issued, refreshed and revoked as
    the contract says, with their lifetimes, and what \<open>RevokeAll\<close> leaves behind.
  \<^item> Of the resources (\<open>ResourceProps\<close>, \<open>GitHttp\<close>, \<open>GitPaths\<close>): only members admit members, only owners
    delete; records and directories are created together; no request leaves the directory of
    the repositories.
  \<^item> Of the limits (\<open>RateLimit\<close>, \<open>Limiter\<close>): the bucket never holds more than the burst, a fresh key is granted
    exactly the burst at once, and what happens at a rate of 0.
  \<^item> Of the inputs (\<open>Json\<close>, \<open>Http\<close>, \<open>RequestTypes\<close>, \<open>Config\<close>): a response parses to what was encoded; which
    bodies and which environments are accepted, as an equivalence with conditions written out.
  \<^item> Of the libraries: round trips of all codecs, the iterator against \<open>Decode\<close>; lines of concurrent
    loggers are never torn and logging ends; which clients a TLS server lets in.

  \<^bold>\<open>Bounds.\<close> The JSON parser takes fuel; \<open>json_fuel\<close> shows that twice the length of the text is enough
  and that more makes no difference. All other recursions terminate by themselves. The properties of the
  limiter ask for a burst of at most \<open>2 ^ 53\<close>, the integers a double holds. \<open>Float64\<close> has no bound on
  exponents; its header says why none is met. Sizes of request bodies are those of the source (1 KiB).

  \<^bold>\<open>Parameters.\<close> Code that is not in the repository is an argument of the definitions: pgx, go-redis, bcrypt,
  \<^verbatim>\<open>google/uuid\<close>, \<open>oauth2\<close> and the HTTP client, the TOTP library, go-git and its HTTP backend, the
  file system, the network, X.509 and PEM, autocert, Ed25519, DEFLATE, and the JSON handler of
  \<^verbatim>\<open>slog\<close>. The laws assumed of them are the locales above; an operation of Postgres or Redis may fail at any
  time, with or without having taken effect.

  \<^bold>\<open>Not modelled.\<close> The deadlines of contexts (health check, shutdown, the 15 seconds of \<^verbatim>\<open>cmd/admin\<close>):
  an operation that runs into one is an operation that fails. Requests are served one after the other; of the
  concurrency of the program the logger's mutex and the \<open>select\<close> of \<open>main\<close> are modelled. TLS handshakes and
  the contents of certificates, the bytes of the Git pack protocol, and the text of log messages of the
  handlers. The packages \<^verbatim>\<open>pkg/logger/otel\<close> and \<^verbatim>\<open>pkg/logger/prometheus\<close> hold no code. Test files, shell
  scripts and the files of deployment are left out.
\<close>

end
